(* ===== verification/Pico_Prelude.thy ===== *)
theory Pico_Prelude
  imports Main "HOL-Library.Word" "HOL-Library.Monad_Syntax"
begin

text \<open>
  Shared vocabulary of the development: the machine integer types of the
  firmware (\<open>char\<close> as a byte, \<open>uint32_t\<close>, \<open>int\<close>), the collections of facts
  the component theories feed to the simplifier, and the generic lemmas on
  words, options, lists and iterated functions that several components use.
  Nothing in this theory mentions the firmware itself.
\<close>

unbundle bit_operations_syntax

section \<open>Machine integer types\<close>

type_synonym u8 = "8 word"
type_synonym u32 = "32 word"
type_synonym s32 = "32 word"

section \<open>Fact collections\<close>

named_theorems pico_defs "unfolding equations of the non-recursive operations"
named_theorems trace_simps "how the trace observers distribute over appended events"
named_theorems frame_simps "fields that an operation leaves unchanged"

section \<open>Words\<close>

text \<open>
  A byte survives widening to 32 bits and narrowing back, whichever way the
  widening fills the upper bits.
\<close>

lemma ucast_ucast_byte [simp]: "(ucast (ucast (b :: u8) :: u32) :: u8) = b"
  by (simp add: ucast_up_ucast_id is_up)

lemma ucast_scast_byte [simp]: "(ucast (scast (b :: u8) :: u32) :: u8) = b"
  by (rule bit_word_eqI) (auto simp add: bit_simps)

lemma ucast_if_byte [simp]:
  "(ucast (if sg then (scast (b :: u8) :: u32) else ucast b) :: u8) = b"
  by simp

text \<open>Zero and sign extension agree on the bytes below \<open>0x80\<close>.\<close>

lemma bit_byte_ge_7: "bit (b :: u8) n \<Longrightarrow> 7 \<le> n \<Longrightarrow> n = 7"
  using bit_imp_le_length [of b n] by simp

lemma scast_eq_ucast_byte:
  "\<not> bit (b :: u8) 7 \<Longrightarrow> (scast b :: u32) = ucast b"
  by (rule bit_word_eqI) (auto simp add: bit_simps min_def dest: bit_byte_ge_7)

lemma byte_less_128_iff: "(b :: u8) < 0x80 \<longleftrightarrow> \<not> bit b 7"
proof -
  have "b < 2 ^ 7 \<longleftrightarrow> take_bit 7 b = b"
    using mask_eq_iff_w2p [of 7 b] by (simp add: word_size take_bit_eq_mask)
  also have "\<dots> \<longleftrightarrow> \<not> bit b 7"
  proof
    assume "take_bit 7 b = b"
    then have "bit b 7 = bit (take_bit 7 b) 7" by simp
    then show "\<not> bit b 7" by (simp add: bit_simps)
  next
    assume *: "\<not> bit b 7"
    show "take_bit 7 b = b"
    proof (rule bit_word_eqI)
      fix n assume "n < LENGTH(8)"
      with * have "bit b n \<Longrightarrow> n < 7"
        by (cases "n = 7") auto
      then show "bit (take_bit 7 b) n \<longleftrightarrow> bit b n"
        by (auto simp add: bit_simps)
    qed
  qed
  finally show ?thesis by simp
qed

text \<open>Sign extension fills the upper 24 bits of the bytes from \<open>0x80\<close> on.\<close>

lemma not_mask_8: "(NOT (mask 8) :: u32) = 0xFFFFFF00"
  by (simp add: mask_eq_exp_minus_1)

lemma scast_high_byte:
  assumes "bit (ch :: u8) 7"
  shows "(scast ch :: u32) = ucast ch OR NOT (mask 8)"
proof (rule bit_word_eqI)
  fix n assume n: "n < LENGTH(32)"
  consider "n < 7" | "n = 7" | "8 \<le> n"
    by linarith
  then show "bit (scast ch :: u32) n \<longleftrightarrow> bit (ucast ch OR NOT (mask 8) :: u32) n"
  proof cases
    case 1
    then show ?thesis by (auto simp add: bit_simps)
  next
    case 2
    with assms show ?thesis by (simp add: bit_simps)
  next
    case 3
    with n assms show ?thesis
      using bit_imp_le_length [of ch n] by (auto simp add: bit_simps)
  qed
qed

text \<open>Testing one bit with a mask, as C's \<open>x & 0x08\<close> does.\<close>

lemma and_8_eq_0_iff: "(s :: u32) AND 0x08 = 0 \<longleftrightarrow> \<not> bit s 3"
  using and_exp_eq_0_iff_not_bit [of s 3] by simp

text \<open>Signed increment below the largest \<open>int\<close> does not wrap.\<close>

lemma sint_less_numeral_succ:
  assumes "sint (i :: s32) < 2147483647"
  shows "sint (i + 1) = sint i + 1"
proof -
  have "- 2147483648 \<le> sint i"
    using sint_ge [of i] by simp
  with assms show ?thesis
    by (simp add: sint_word_ariths signed_take_bit_int_eq_self)
qed

text \<open>Address arithmetic that stays inside the address space.\<close>

lemma unat_add_of_nat:
  "unat p + k < 2 ^ 32 \<Longrightarrow> unat (p + of_nat k :: u32) = unat p + k"
proof -
  assume *: "unat p + k < 2 ^ 32"
  then have "k < 2 ^ LENGTH(32)" by simp
  then have "unat (of_nat k :: u32) = k"
    by (simp add: unat_of_nat take_bit_nat_eq_self)
  with * show ?thesis
    using unat_add_lem [of p "of_nat k :: u32"] by simp
qed

section \<open>Options\<close>

lemma bind_eq_None_right [simp]: "Option.bind x (\<lambda>_. None) = None"
  by (cases x) simp_all

section \<open>Iterated functions\<close>

lemma funpow_Suc_shift: "(f ^^ Suc n) x = (f ^^ n) (f x)"
  by (simp add: funpow_swap1)

text \<open>Runs of an iterated function compose.\<close>

lemma funpow_chain: "(f ^^ a) x = y \<Longrightarrow> (f ^^ b) y = z \<Longrightarrow> (f ^^ (a + b)) x = z"
  by (simp add: funpow_add add.commute [of a b])

section \<open>Lists\<close>

lemma concat_replicate_snoc: "concat (replicate n xs) @ xs = concat (replicate (Suc n) xs)"
  by (induction n) simp_all

end
