(* ===== verification/CString.thy ===== *)
theory CString
  imports Pico_Prelude
begin

text \<open>
  Null-terminated strings in a flat byte memory: what a \<open>const char *\<close>
  points at.  Memory is a total function from 32-bit addresses to bytes, as
  the bus sees it; pointer increment wraps like the address adder does.
\<close>

section \<open>Definitions\<close>

type_synonym memory = "u32 \<Rightarrow> u8"

text \<open>The bytes of a string literal, without its terminator.\<close>

definition c_literal :: "string \<Rightarrow> u8 list" where
  "c_literal s = map of_char s"

text \<open>
  \<open>cstring_at mem p s\<close>: the bytes of \<open>s\<close>, none of them zero, lie in \<open>mem\<close>
  from address \<open>p\<close> on and a zero byte follows them.
\<close>

fun cstring_at :: "memory \<Rightarrow> u32 \<Rightarrow> u8 list \<Rightarrow> bool" where
  "cstring_at mem p [] \<longleftrightarrow> mem p = 0"
| "cstring_at mem p (c # cs) \<longleftrightarrow> c \<noteq> 0 \<and> mem p = c \<and> cstring_at mem (p + 1) cs"

text \<open>Storing a string and its terminator, as the loader of the image does.\<close>

fun place :: "memory \<Rightarrow> u32 \<Rightarrow> u8 list \<Rightarrow> memory" where
  "place mem p [] = mem(p := 0)"
| "place mem p (c # cs) = (place mem (p + 1) cs)(p := c)"

text \<open>A memory that holds the string \<open>"01"\<close> at address \<open>0x1000\<close>.\<close>

definition mem01 :: memory where
  "mem01 = place (\<lambda>a. 0xFF) 0x1000 (c_literal ''01'')"

section \<open>Lemmas\<close>

lemma cstring_at_nonzero: "cstring_at mem p s \<Longrightarrow> 0 \<notin> set s"
  by (induction s arbitrary: p) auto

lemma cstring_at_nth:
  "cstring_at mem p s \<Longrightarrow> k < length s \<Longrightarrow> mem (p + of_nat k) = s ! k"
proof (induction s arbitrary: p k)
  case Nil
  then show ?case by simp
next
  case (Cons c cs)
  show ?case
  proof (cases k)
    case 0
    with Cons.prems show ?thesis by simp
  next
    case (Suc j)
    with Cons.prems have "mem (p + 1 + of_nat j) = cs ! j"
      by (intro Cons.IH) simp_all
    with Suc show ?thesis by (simp add: add.assoc)
  qed
qed

lemma cstring_at_terminator: "cstring_at mem p s \<Longrightarrow> mem (p + of_nat (length s)) = 0"
  by (induction s arbitrary: p) (simp_all flip: add.assoc)

text \<open>A string in a 32-bit address space is shorter than the address space.\<close>

lemma cstring_at_length:
  assumes "cstring_at mem p s"
  shows "length s < 2 ^ 32"
proof (rule ccontr)
  assume "\<not> length s < 2 ^ 32"
  then obtain k where k: "length s = k + 2 ^ 32"
    by (metis le_add_diff_inverse2 not_less)
  then have "k < length s" by simp
  with assms have "mem (p + of_nat k) = s ! k"
    by (rule cstring_at_nth)
  moreover from \<open>k < length s\<close> cstring_at_nonzero [OF assms] have "s ! k \<noteq> 0"
    by (metis nth_mem)
  moreover have "(of_nat (length s) :: u32) = of_nat k"
    by (simp add: k)
  ultimately show False
    using cstring_at_terminator [OF assms] by simp
qed

text \<open>A pointer points at one string at most.\<close>

lemma cstring_at_unique: "cstring_at mem p s \<Longrightarrow> cstring_at mem p t \<Longrightarrow> s = t"
proof (induction s arbitrary: p t)
  case Nil
  then show ?case by (cases t) auto
next
  case (Cons c cs)
  then show ?case by (cases t) auto
qed

text \<open>Writes outside a string do not change it.\<close>

lemma cstring_at_upd_outside:
  "(\<forall>k \<le> length s. p + of_nat k \<noteq> a) \<Longrightarrow> cstring_at (mem(a := v)) p s = cstring_at mem p s"
proof (induction s arbitrary: p)
  case Nil
  then show ?case by simp
next
  case (Cons c cs)
  from Cons.prems [rule_format, of 0] have "p \<noteq> a"
    by simp
  moreover have "p + 1 + of_nat k \<noteq> a" if "k \<le> length cs" for k
    using Cons.prems [rule_format, of "Suc k"] that by (simp add: add.assoc)
  then have "\<forall>k \<le> length cs. p + 1 + of_nat k \<noteq> a"
    by blast
  then have "cstring_at (mem(a := v)) (p + 1) cs = cstring_at mem (p + 1) cs"
    by (rule Cons.IH)
  ultimately show ?case
    by (simp del: fun_upd_apply add: fun_upd_other)
qed

lemma cstring_at_place:
  assumes "0 \<notin> set s" and "length s < 2 ^ 32 - 1"
  shows "cstring_at (place mem p s) p s"
  using assms
proof (induction s arbitrary: p)
  case Nil
  show ?case by simp
next
  case (Cons c cs)
  then have IH: "cstring_at (place mem (p + 1) cs) (p + 1) cs"
    by simp
  have "p + 1 + of_nat k \<noteq> p" if "k \<le> length cs" for k
  proof -
    from that Cons.prems(2) have "Suc k < 2 ^ LENGTH(32)" by simp
    then have "(of_nat (Suc k) :: u32) \<noteq> 0"
      by (intro of_nat_neq_0) simp_all
    then show ?thesis by (simp add: add.assoc)
  qed
  then have "cstring_at ((place mem (p + 1) cs)(p := c)) (p + 1) cs =
      cstring_at (place mem (p + 1) cs) (p + 1) cs"
    by (intro cstring_at_upd_outside) simp
  moreover have "place mem p (c # cs) p = c"
    by simp
  ultimately show ?case
    using IH Cons.prems(1) by (simp del: fun_upd_apply)
qed

text \<open>Two strings that do not overlap do not disturb each other.\<close>

lemma place_outside:
  "(\<forall>k \<le> length t. q + of_nat k \<noteq> a) \<Longrightarrow> place mem q t a = mem a"
proof (induction t arbitrary: q)
  case Nil
  then show ?case by simp
next
  case (Cons c cs)
  from Cons.prems [rule_format, of 0] have "q \<noteq> a" by simp
  moreover have "q + 1 + of_nat k \<noteq> a" if "k \<le> length cs" for k
    using Cons.prems [rule_format, of "Suc k"] that by (simp add: add.assoc)
  then have "place mem (q + 1) cs a = mem a"
    by (intro Cons.IH) blast
  ultimately show ?case by simp
qed

lemma cstring_at_cong_mem:
  "(\<forall>k \<le> length s. mem (p + of_nat k) = mem' (p + of_nat k)) \<Longrightarrow>
     cstring_at mem p s = cstring_at mem' p s"
proof (induction s arbitrary: p)
  case Nil
  then show ?case by simp
next
  case (Cons c cs)
  from Cons.prems [rule_format, of 0] have "mem p = mem' p" by simp
  moreover have "mem (p + 1 + of_nat k) = mem' (p + 1 + of_nat k)" if "k \<le> length cs" for k
    using Cons.prems [rule_format, of "Suc k"] that by (simp add: add.assoc)
  then have "cstring_at mem (p + 1) cs = cstring_at mem' (p + 1) cs"
    by (intro Cons.IH) blast
  ultimately show ?case by simp
qed

lemma cstring_at_place_other:
  assumes "unat p + length s < unat q \<or> unat q + length t < unat p"
    and "unat p + length s < 2 ^ 32" and "unat q + length t < 2 ^ 32"
  shows "cstring_at (place mem q t) p s = cstring_at mem p s"
proof (rule cstring_at_cong_mem, intro allI impI)
  fix k assume k: "k \<le> length s"
  have "q + of_nat j \<noteq> p + of_nat k" if "j \<le> length t" for j
  proof
    assume "q + of_nat j = p + of_nat k"
    then have "unat (q + of_nat j) = unat (p + of_nat k)" by simp
    with assms k that show False
      by (auto simp add: unat_add_of_nat)
  qed
  then show "place mem q t (p + of_nat k) = mem (p + of_nat k)"
    by (intro place_outside) blast
qed

lemma c_literal_simps [simp]:
  "c_literal [] = []"
  "c_literal (x # xs) = of_char x # c_literal xs"
  "c_literal (xs @ ys) = c_literal xs @ c_literal ys"
  by (simp_all add: c_literal_def)

end
