(* ===== verification/UartLite.thy ===== *)
theory UartLite
  imports Pico_Prelude
begin

text \<open>
  The UART-Lite register block of \<open>src/firmware/main.c\<close>, lines 3 to 12: the
  struct \<open>XUartLite\<close> as a record of four 32-bit fields, the base address
  \<open>XUART0\<close>, the status mask \<open>XUART_STAT_TX_FULL\<close>, the members as a datatype
  with their byte offsets and bus addresses, and the test the driver makes
  on a status word.  The lemmas fix the bit-exact register map: offsets,
  alignment, the extent of the block, the four addresses, and the meaning of
  the mask as bit 3.  The theory \<open>Mmio\<close> turns an access to a member into a
  transaction on the bus at the member's address, and the theory \<open>Steps\<close>
  shows which transactions the program makes.
\<close>

section \<open>The register block\<close>

record XUartLite =
  RX_FIFO :: u32
  TX_FIFO :: u32
  STAT_REG :: u32
  CTRL_REG :: u32

definition XUART0 :: u32 where
  "XUART0 = 0x40000000"

definition XUART_STAT_TX_FULL :: u32 where
  "XUART_STAT_TX_FULL = 0x08"

text \<open>The members of the struct, in declaration order.\<close>

datatype reg = RX | TX | STAT | CTRL

fun reg_offset :: "reg \<Rightarrow> u32" where
  "reg_offset RX = 0"
| "reg_offset TX = 4"
| "reg_offset STAT = 8"
| "reg_offset CTRL = 12"

definition reg_addr :: "reg \<Rightarrow> u32" where
  "reg_addr r = XUART0 + reg_offset r"

text \<open>Reading a member from a snapshot of the block: \<open>p->r\<close>.\<close>

fun reg_val :: "reg \<Rightarrow> XUartLite \<Rightarrow> u32" where
  "reg_val RX b = RX_FIFO b"
| "reg_val TX b = TX_FIFO b"
| "reg_val STAT b = STAT_REG b"
| "reg_val CTRL b = CTRL_REG b"

text \<open>
  The condition of the polling loop, \<open>XUART0->STAT_REG & XUART_STAT_TX_FULL\<close>,
  read as a C truth value.
\<close>

definition tx_full :: "u32 \<Rightarrow> bool" where
  "tx_full s \<longleftrightarrow> s AND XUART_STAT_TX_FULL \<noteq> 0"

section \<open>The members are ordered by their offsets\<close>

instantiation reg :: linorder
begin

definition less_eq_reg :: "reg \<Rightarrow> reg \<Rightarrow> bool" where
  "less_eq_reg r r' \<longleftrightarrow> reg_offset r \<le> reg_offset r'"

definition less_reg :: "reg \<Rightarrow> reg \<Rightarrow> bool" where
  "less_reg r r' \<longleftrightarrow> reg_offset r < reg_offset r'"

instance
proof
  fix x y z :: reg
  show "(x < y) = (x \<le> y \<and> \<not> y \<le> x)"
    by (auto simp add: less_eq_reg_def less_reg_def)
  show "x \<le> x"
    by (simp add: less_eq_reg_def)
  show "x \<le> y \<Longrightarrow> y \<le> z \<Longrightarrow> x \<le> z"
    by (simp add: less_eq_reg_def)
  show "x \<le> y \<Longrightarrow> y \<le> x \<Longrightarrow> x = y"
    by (cases x; cases y) (simp_all add: less_eq_reg_def)
  show "x \<le> y \<or> y \<le> x"
    by (auto simp add: less_eq_reg_def)
qed

end

section \<open>The register map\<close>

lemma reg_exhaust_UNIV: "(UNIV :: reg set) = {RX, TX, STAT, CTRL}"
  by (auto intro: reg.exhaust)

lemma reg_offset_inj [simp]: "reg_offset r = reg_offset r' \<longleftrightarrow> r = r'"
  by (cases r; cases r') simp_all

lemma reg_addr_inj [simp]: "reg_addr r = reg_addr r' \<longleftrightarrow> r = r'"
  by (simp add: reg_addr_def)

lemma reg_addr_values:
  "reg_addr RX = 0x40000000" "reg_addr TX = 0x40000004"
  "reg_addr STAT = 0x40000008" "reg_addr CTRL = 0x4000000C"
  by (simp_all add: reg_addr_def XUART0_def)

lemma reg_offset_less_16: "reg_offset r < 16"
  by (cases r) simp_all

lemma reg_offset_aligned: "reg_offset r AND 3 = 0"
  by (cases r) simp_all

lemma tx_full_simps [simp]: "\<not> tx_full 0" "tx_full 8" "\<not> tx_full 4" "tx_full 12"
  by (simp_all add: tx_full_def XUART_STAT_TX_FULL_def)

section \<open>The status mask\<close>

text \<open>
  The driver's test of a status word looks at bit 3 and at nothing else: the
  word tests as full exactly when that bit is set.
\<close>

lemma tx_full_iff_bit: "tx_full s \<longleftrightarrow> bit s 3"
  using and_8_eq_0_iff [of s] by (auto simp add: tx_full_def XUART_STAT_TX_FULL_def)

end
