(* ===== verification/Mmio.thy ===== *)
theory Mmio
  imports UartLite
begin

text \<open>
  Volatile access to the register block.  The firmware never owns the
  registers: every read of \<open>XUART0->STAT_REG\<close> asks the device, and every
  write of \<open>XUART0->TX_FIFO\<close> tells it something
  (\<open>src/firmware/main.c\<close>, lines 16 and 17).  The device is therefore a
  parameter of the model, a record of functions over a state type \<open>'d\<close>
  (a \<open>platform\<close>), and the machine state is the device's state together with
  the trace of volatile accesses made so far, in program order.  The C
  standard makes exactly these accesses the observable behaviour of the
  program.  Between accesses the device goes on working: \<open>idle\<close> lets it
  make steps of its own that leave no event on the trace.

  The second half of the theory holds the observers of a trace (the words
  and bytes sent, the polling discipline, the transactions on the bus at
  the addresses of the register map) and what a run of consecutive status
  polls does, which is all a client needs to know of a device.
\<close>

section \<open>Events, platforms and machines\<close>

datatype event = Load reg u32 | Store reg u32

record 'd platform =
  char_signed :: bool
  hw_regs :: "'d \<Rightarrow> XUartLite"
  hw_load :: "reg \<Rightarrow> 'd \<Rightarrow> 'd"
  hw_store :: "reg \<Rightarrow> u32 \<Rightarrow> 'd \<Rightarrow> 'd"
  hw_idle :: "'d \<Rightarrow> 'd"

record 'd machine =
  dev :: 'd
  trace :: "event list"

definition vload :: "'d platform \<Rightarrow> reg \<Rightarrow> 'd machine \<Rightarrow> u32 \<times> 'd machine" where
  "vload P r m =
     (let v = reg_val r (hw_regs P (dev m))
      in (v, \<lparr>dev = hw_load P r (dev m), trace = trace m @ [Load r v]\<rparr>))"

definition vstore :: "'d platform \<Rightarrow> reg \<Rightarrow> u32 \<Rightarrow> 'd machine \<Rightarrow> 'd machine" where
  "vstore P r v m = \<lparr>dev = hw_store P r v (dev m), trace = trace m @ [Store r v]\<rparr>"

text \<open>
  Time that passes without an access: the device makes \<open>n\<close> steps of its
  own and the trace stays as it is.
\<close>

definition idle :: "'d platform \<Rightarrow> nat \<Rightarrow> 'd machine \<Rightarrow> 'd machine" where
  "idle P n m = m\<lparr>dev := (hw_idle P ^^ n) (dev m)\<rparr>"

section \<open>Observers of a trace\<close>

text \<open>The words stored to \<open>TX_FIFO\<close>, oldest first, and their low bytes.\<close>

fun tx_words :: "event list \<Rightarrow> u32 list" where
  "tx_words [] = []"
| "tx_words (Store TX v # es) = v # tx_words es"
| "tx_words (e # es) = tx_words es"

definition tx_bytes :: "event list \<Rightarrow> u8 list" where
  "tx_bytes es = map ucast (tx_words es)"

text \<open>
  The polling discipline: a store to \<open>TX_FIFO\<close> needs a credit, which a load
  of \<open>STAT_REG\<close> with the full bit clear gives and the store itself takes.
  \<open>tx_credit c es\<close> is the credit left after \<open>es\<close>, starting with \<open>c\<close>.
\<close>

fun tx_credit :: "bool \<Rightarrow> event list \<Rightarrow> bool" where
  "tx_credit c [] = c"
| "tx_credit c (Load STAT v # es) = tx_credit (c \<or> \<not> tx_full v) es"
| "tx_credit c (Store TX v # es) = tx_credit False es"
| "tx_credit c (e # es) = tx_credit c es"

fun disciplined :: "bool \<Rightarrow> event list \<Rightarrow> bool" where
  "disciplined c [] = True"
| "disciplined c (Load STAT v # es) = disciplined (c \<or> \<not> tx_full v) es"
| "disciplined c (Store TX v # es) = (c \<and> disciplined False es)"
| "disciplined c (e # es) = disciplined c es"

text \<open>
  The same discipline said with positions in the trace, as a requirement on
  a driver is usually written: \<open>polled_before es i\<close> holds when some load of
  the status register before position \<open>i\<close> read the full bit clear and no
  store to \<open>TX_FIFO\<close> lies between that load and position \<open>i\<close>.
\<close>

fun is_tx_store :: "event \<Rightarrow> bool" where
  "is_tx_store (Store TX v) = True"
| "is_tx_store e = False"

fun is_clear_poll :: "event \<Rightarrow> bool" where
  "is_clear_poll (Load STAT v) = (\<not> tx_full v)"
| "is_clear_poll e = False"

definition polled_before :: "event list \<Rightarrow> nat \<Rightarrow> bool" where
  "polled_before es i \<longleftrightarrow>
     (\<exists>j<i. is_clear_poll (es ! j) \<and> (\<forall>k. j < k \<and> k < i \<longrightarrow> \<not> is_tx_store (es ! k)))"

text \<open>
  The two accesses the driver makes: a trace made of loads of the status
  register and stores to the transmit register only.
\<close>

fun is_stat_load :: "event \<Rightarrow> bool" where
  "is_stat_load (Load STAT v) = True"
| "is_stat_load e = False"

definition driver_events :: "event list \<Rightarrow> bool" where
  "driver_events es \<longleftrightarrow> list_all (\<lambda>e. is_stat_load e \<or> is_tx_store e) es"

section \<open>Transactions on the bus\<close>

text \<open>
  What the device sees of an access: a read or a write of a 32-bit word at
  an address.  The expression \<open>XUART0->r\<close> of lines 16 and 17 names the word
  at the address of the member \<open>r\<close> of the block at \<open>XUART0\<close>, which
  \<open>reg_addr\<close> computes, so an event of the trace is seen on the bus as
  \<open>on_bus\<close> says.
\<close>

datatype bus = Read u32 u32 | Write u32 u32

fun on_bus :: "event \<Rightarrow> bus" where
  "on_bus (Load r v) = Read (reg_addr r) v"
| "on_bus (Store r v) = Write (reg_addr r) v"

text \<open>
  The protocol of the hardware interface, in the numbers of the register
  map: every read is a read of the word at \<open>0x40000008\<close>, every write is a
  write of the word at \<open>0x40000004\<close>, and the transaction just before a
  write is a read that returned a word with bit 3 clear.  The flag of
  \<open>handshake\<close> says whether the transaction before the list was such a
  read; \<open>ready\<close> is the flag after the list.
\<close>

fun handshake :: "bool \<Rightarrow> bus list \<Rightarrow> bool" where
  "handshake ok [] = True"
| "handshake ok (Read a v # bs) = (a = 0x40000008 \<and> handshake (\<not> bit v 3) bs)"
| "handshake ok (Write a v # bs) = (a = 0x40000004 \<and> ok \<and> handshake False bs)"

fun ready :: "bool \<Rightarrow> bus list \<Rightarrow> bool" where
  "ready ok [] = ok"
| "ready ok (Read a v # bs) = ready (\<not> bit v 3) bs"
| "ready ok (Write a v # bs) = ready False bs"

section \<open>Consecutive polls of the status register\<close>

text \<open>
  \<open>stat_at P d n\<close> is the status word that the poll number \<open>n\<close> (from 0)
  reads when polling starts in device state \<open>d\<close>; \<open>polled P n m\<close> is the
  machine after \<open>n\<close> polls; \<open>first_clear P d n\<close> says that poll \<open>n\<close> is the
  first to read the full bit clear.
\<close>

definition stat_at :: "'d platform \<Rightarrow> 'd \<Rightarrow> nat \<Rightarrow> u32" where
  "stat_at P d n = reg_val STAT (hw_regs P ((hw_load P STAT ^^ n) d))"

primrec polled :: "'d platform \<Rightarrow> nat \<Rightarrow> 'd machine \<Rightarrow> 'd machine" where
  "polled P 0 m = m"
| "polled P (Suc n) m = polled P n (snd (vload P STAT m))"

primrec first_clear :: "'d platform \<Rightarrow> 'd \<Rightarrow> nat \<Rightarrow> bool" where
  "first_clear P d 0 \<longleftrightarrow> \<not> tx_full (stat_at P d 0)"
| "first_clear P d (Suc n) \<longleftrightarrow>
     tx_full (stat_at P d 0) \<and> first_clear P (hw_load P STAT d) n"

text \<open>
  A device is responsive under an invariant \<open>I\<close> of its states when polling
  from any state in \<open>I\<close> reads the full bit clear after finitely many polls.
\<close>

definition responsive :: "'d platform \<Rightarrow> ('d \<Rightarrow> bool) \<Rightarrow> bool" where
  "responsive P I \<longleftrightarrow>
     (\<forall>d. I d \<longrightarrow> (\<exists>n. first_clear P d n)) \<and>
     (\<forall>d r. I d \<longrightarrow> I (hw_load P r d)) \<and>
     (\<forall>d r v. I d \<longrightarrow> I (hw_store P r v d)) \<and>
     (\<forall>d. I d \<longrightarrow> I (hw_idle P d))"

text \<open>
  The opposite contract, the hardware fault of the specification: a device is
  jammed in a set \<open>J\<close> of its states when in every state of \<open>J\<close> the status
  register reads full and neither a load of the status register nor the
  passing of time leads out of \<open>J\<close>.
\<close>

definition jammed :: "'d platform \<Rightarrow> ('d \<Rightarrow> bool) \<Rightarrow> bool" where
  "jammed P J \<longleftrightarrow>
     (\<forall>d. J d \<longrightarrow> tx_full (reg_val STAT (hw_regs P d)) \<and> J (hw_load P STAT d) \<and> J (hw_idle P d))"

text \<open>
  A transmitter takes a byte: what a store to the transmit register does to
  the device depends on the low byte of the word stored only.
\<close>

definition low_byte_only :: "'d platform \<Rightarrow> bool" where
  "low_byte_only P \<longleftrightarrow>
     (\<forall>v d. hw_store P TX v d = hw_store P TX (ucast (ucast v :: u8)) d)"

section \<open>Lemmas: accesses\<close>

declare polled.simps(2) [simp del]

lemmas polled_Suc = polled.simps(2)

lemma vload_simps [simp]:
  "fst (vload P r m) = reg_val r (hw_regs P (dev m))"
  "dev (snd (vload P r m)) = hw_load P r (dev m)"
  "trace (snd (vload P r m)) = trace m @ [Load r (reg_val r (hw_regs P (dev m)))]"
  by (simp_all add: vload_def Let_def)

lemma vstore_simps [simp]:
  "dev (vstore P r v m) = hw_store P r v (dev m)"
  "trace (vstore P r v m) = trace m @ [Store r v]"
  by (simp_all add: vstore_def)

lemma idle_simps [simp]:
  "dev (idle P n m) = (hw_idle P ^^ n) (dev m)"
  "trace (idle P n m) = trace m"
  "idle P 0 m = m"
  by (simp_all add: idle_def)

lemma idle_add: "idle P n (idle P k m) = idle P (n + k) m"
  by (simp add: idle_def funpow_add)

lemma vload_STAT: "vload P STAT m = (stat_at P (dev m) 0, polled P (Suc 0) m)"
  by (simp add: vload_def stat_at_def polled_Suc Let_def)

section \<open>Lemmas: observers\<close>

lemma tx_words_append [simp, trace_simps]:
  "tx_words (xs @ ys) = tx_words xs @ tx_words ys"
  by (induction xs rule: tx_words.induct) simp_all

lemma tx_bytes_append [simp, trace_simps]:
  "tx_bytes (xs @ ys) = tx_bytes xs @ tx_bytes ys"
  by (simp add: tx_bytes_def)

lemma tx_bytes_simps [simp]:
  "tx_bytes [] = []"
  "tx_bytes (Store TX v # es) = ucast v # tx_bytes es"
  "tx_bytes (Load r v # es) = tx_bytes es"
  by (simp_all add: tx_bytes_def)

lemma tx_credit_append [simp, trace_simps]:
  "tx_credit c (xs @ ys) = tx_credit (tx_credit c xs) ys"
  by (induction c xs rule: tx_credit.induct) simp_all

lemma disciplined_append [simp, trace_simps]:
  "disciplined c (xs @ ys) \<longleftrightarrow> disciplined c xs \<and> disciplined (tx_credit c xs) ys"
  by (induction c xs rule: disciplined.induct) simp_all

lemma length_tx_bytes [simp]: "length (tx_bytes es) = length (tx_words es)"
  by (simp add: tx_bytes_def)

text \<open>Loads of the status register send nothing and never break the discipline.\<close>

lemma tx_words_stat_loads [simp]: "tx_words (map (Load STAT) vs) = []"
  by (induction vs) simp_all

lemma disciplined_stat_loads [simp]: "disciplined c (map (Load STAT) vs)"
  by (induction vs arbitrary: c) simp_all

lemma tx_credit_stat_loads:
  "tx_credit c (map (Load STAT) vs) \<longleftrightarrow> c \<or> (\<exists>v \<in> set vs. \<not> tx_full v)"
  by (induction vs arbitrary: c) auto

lemma disciplined_mono: "disciplined c es \<Longrightarrow> disciplined True es"
  and tx_credit_mono: "tx_credit c es \<Longrightarrow> tx_credit True es"
  by (induction c es rule: disciplined.induct) auto

text \<open>
  The credit counter agrees with the reading by positions: a trace is
  disciplined exactly when every store to \<open>TX_FIFO\<close> in it has a clear poll
  before it with no other store in between.
\<close>

lemma tx_credit_single: "tx_credit c [e] \<longleftrightarrow> \<not> is_tx_store e \<and> (c \<or> is_clear_poll e)"
  by (cases e rule: is_tx_store.cases; cases e rule: is_clear_poll.cases) auto

lemma disciplined_single: "disciplined c [e] \<longleftrightarrow> (is_tx_store e \<longrightarrow> c)"
proof (cases e)
  case (Load r v)
  then show ?thesis by (cases r) simp_all
next
  case (Store r v)
  then show ?thesis by (cases r) simp_all
qed

lemma clear_poll_not_store: "is_clear_poll e \<Longrightarrow> \<not> is_tx_store e"
  by (cases e rule: is_tx_store.cases) auto

lemma polled_before_snoc:
  "polled_before (es @ [e]) (Suc (length es)) \<longleftrightarrow>
     is_clear_poll e \<or> (\<not> is_tx_store e \<and> polled_before es (length es))"
  (is "?L \<longleftrightarrow> ?R")
proof
  assume ?L
  then obtain j where j: "j < Suc (length es)" "is_clear_poll ((es @ [e]) ! j)"
    and later: "\<forall>k. j < k \<and> k < Suc (length es) \<longrightarrow> \<not> is_tx_store ((es @ [e]) ! k)"
    by (auto simp add: polled_before_def)
  show ?R
  proof (cases "j = length es")
    case True
    with j show ?thesis by simp
  next
    case False
    with j have lt: "j < length es" by simp
    with later have "\<not> is_tx_store e"
      by (auto dest: spec [of _ "length es"])
    moreover have "\<not> is_tx_store (es ! k)" if "j < k" "k < length es" for k
      using later [rule_format, of k] that by (simp add: nth_append)
    ultimately show ?thesis
      using j(2) lt by (auto simp add: polled_before_def nth_append)
  qed
next
  assume ?R
  then show ?L
  proof
    assume "is_clear_poll e"
    then show ?L
      by (auto simp add: polled_before_def intro!: exI [of _ "length es"])
  next
    assume *: "\<not> is_tx_store e \<and> polled_before es (length es)"
    then obtain j where "j < length es" "is_clear_poll (es ! j)"
      "\<forall>k. j < k \<and> k < length es \<longrightarrow> \<not> is_tx_store (es ! k)"
      by (auto simp add: polled_before_def)
    with * show ?L
      unfolding polled_before_def
      by (intro exI [of _ j]) (auto simp add: nth_append less_Suc_eq)
  qed
qed

lemma tx_credit_iff_polled_before: "tx_credit False es \<longleftrightarrow> polled_before es (length es)"
proof (induction es rule: rev_induct)
  case Nil
  show ?case by (simp add: polled_before_def)
next
  case (snoc e es)
  then show ?case
    using clear_poll_not_store [of e] by (auto simp add: tx_credit_single polled_before_snoc)
qed

lemma disciplined_iff_credit:
  "disciplined c es \<longleftrightarrow> (\<forall>i<length es. is_tx_store (es ! i) \<longrightarrow> tx_credit c (take i es))"
proof (induction es rule: rev_induct)
  case Nil
  show ?case by simp
next
  case (snoc e es)
  then show ?case
    by (auto simp add: disciplined_single All_less_Suc nth_append cong: conj_cong imp_cong)
qed

lemma polled_before_take: "i \<le> length es \<Longrightarrow> polled_before (take i es) i \<longleftrightarrow> polled_before es i"
  by (auto simp add: polled_before_def)

lemma disciplined_iff_polled_before:
  "disciplined False es \<longleftrightarrow> (\<forall>i<length es. is_tx_store (es ! i) \<longrightarrow> polled_before es i)"
proof -
  have "tx_credit False (take i es) \<longleftrightarrow> polled_before es i" if "i < length es" for i
    using that polled_before_take [of i es]
    by (simp add: tx_credit_iff_polled_before min_absorb2)
  then show ?thesis
    by (simp add: disciplined_iff_credit cong: imp_cong)
qed

lemma driver_events_simps [simp]:
  "driver_events []"
  "driver_events (es @ es') \<longleftrightarrow> driver_events es \<and> driver_events es'"
  "driver_events [Load r v] \<longleftrightarrow> r = STAT"
  "driver_events [Store r v] \<longleftrightarrow> r = TX"
  by (cases r; simp add: driver_events_def)+

section \<open>Lemmas: the bus\<close>

lemma on_bus_driver [simp]:
  "on_bus (Load STAT v) = Read 0x40000008 v" "on_bus (Store TX v) = Write 0x40000004 v"
  by (simp_all add: reg_addr_values)

lemma handshake_append [simp]:
  "handshake ok (bs @ bs') \<longleftrightarrow> handshake ok bs \<and> handshake (ready ok bs) bs'"
  by (induction ok bs rule: handshake.induct) simp_all

lemma ready_append [simp]: "ready ok (bs @ bs') = ready (ready ok bs) bs'"
  by (induction ok bs rule: ready.induct) simp_all

text \<open>
  The protocol said with positions: a write at position \<open>i\<close> goes to
  \<open>0x40000004\<close> and the transaction at position \<open>i - 1\<close> is a read of
  \<open>0x40000008\<close> that found bit 3 clear.
\<close>

lemma handshake_nth:
  assumes "handshake ok bs" and "i < length bs"
  shows "case bs ! i of
      Read a v \<Rightarrow> a = 0x40000008
    | Write a v \<Rightarrow> a = 0x40000004 \<and>
        (if i = 0 then ok else \<exists>w. bs ! (i - 1) = Read 0x40000008 w \<and> \<not> bit w 3)"
  using assms
proof (induction ok bs arbitrary: i rule: handshake.induct)
  case (2 ok a v bs)
  show ?case
  proof (cases i)
    case 0
    with "2.prems" show ?thesis by simp
  next
    case (Suc j)
    with "2.prems" "2.IH" [of j] show ?thesis
      by (cases j) (auto split: bus.splits)
  qed
next
  case (3 ok a v bs)
  show ?case
  proof (cases i)
    case 0
    with "3.prems" show ?thesis by simp
  next
    case (Suc j)
    with "3.prems" "3.IH" [of j] show ?thesis
      by (cases j) (auto split: bus.splits)
  qed
qed simp

section \<open>Lemmas: polls\<close>

lemma stat_at_Suc: "stat_at P d (Suc n) = stat_at P (hw_load P STAT d) n"
  by (simp add: stat_at_def funpow_swap1)

lemma polled_Suc_right: "polled P (Suc n) m = snd (vload P STAT (polled P n m))"
  by (induction n arbitrary: m) (simp_all add: polled_Suc)

lemma polled_add: "polled P (n + k) m = polled P k (polled P n m)"
  by (induction n arbitrary: m) (simp_all add: polled_Suc)

lemma polled_Suc_shift: "polled P (Suc n) m = polled P n (polled P (Suc 0) m)"
  by (simp add: polled_Suc)

lemma dev_polled [simp]: "dev (polled P n m) = (hw_load P STAT ^^ n) (dev m)"
  by (induction n arbitrary: m) (simp_all add: funpow_swap1 polled_Suc)

lemma trace_polled:
  "trace (polled P n m) = trace m @ map (\<lambda>k. Load STAT (stat_at P (dev m) k)) [0..<n]"
proof (induction n)
  case 0
  show ?case by simp
next
  case (Suc n)
  then show ?case
    by (simp add: polled_Suc_right stat_at_def)
qed

lemma length_trace_polled [simp]: "length (trace (polled P n m)) = length (trace m) + n"
  by (simp add: trace_polled)

lemma stat_at_polled: "stat_at P (dev (polled P j m)) 0 = stat_at P (dev m) j"
  by (simp add: stat_at_def)

lemma tx_words_polled [simp]: "tx_words (trace (polled P n m)) = tx_words (trace m)"
proof -
  have "map (\<lambda>k. Load STAT (stat_at P (dev m) k)) [0..<n] =
        map (Load STAT) (map (stat_at P (dev m)) [0..<n])"
    by simp
  then show ?thesis
    by (simp only: trace_polled tx_words_append tx_words_stat_loads append_Nil2)
qed

text \<open>Counting polls with numerals, for evaluation.\<close>

lemma polled_numeral:
  "polled P (numeral k) m = polled P (pred_numeral k) (snd (vload P STAT m))"
  by (simp add: numeral_eq_Suc polled_Suc)

lemma first_clear_numeral [simp]:
  "first_clear P d (numeral k) \<longleftrightarrow>
     tx_full (stat_at P d 0) \<and> first_clear P (hw_load P STAT d) (pred_numeral k)"
  by (simp add: numeral_eq_Suc)

lemmas polled_eval = polled_Suc polled_numeral vload_def vstore_def Let_def

lemma first_clear_iff:
  "first_clear P d n \<longleftrightarrow> \<not> tx_full (stat_at P d n) \<and> (\<forall>k<n. tx_full (stat_at P d k))"
  by (induction n arbitrary: d) (auto simp add: stat_at_Suc All_less_Suc2)

lemma least_first_clear:
  "first_clear P d n \<Longrightarrow> (LEAST k. \<not> tx_full (stat_at P d k)) = n"
  by (rule Least_equality) (auto simp add: first_clear_iff not_less [symmetric])

lemma first_clear_unique: "first_clear P d n \<Longrightarrow> first_clear P d n' \<Longrightarrow> n = n'"
  by (metis first_clear_iff linorder_neqE_nat)

lemma ex_first_clear_iff:
  "(\<exists>n. first_clear P d n) \<longleftrightarrow> (\<exists>n. \<not> tx_full (stat_at P d n))"
proof
  assume "\<exists>n. \<not> tx_full (stat_at P d n)"
  then obtain n where n: "\<not> tx_full (stat_at P d n)" ..
  define k where "k = (LEAST n. \<not> tx_full (stat_at P d n))"
  have "\<not> tx_full (stat_at P d k)"
    unfolding k_def using n by (rule LeastI)
  moreover have "tx_full (stat_at P d j)" if "j < k" for j
    using that not_less_Least [of j "\<lambda>n. \<not> tx_full (stat_at P d n)"] by (auto simp add: k_def)
  ultimately show "\<exists>n. first_clear P d n"
    by (auto simp add: first_clear_iff)
qed (auto simp add: first_clear_iff)

text \<open>What the polls up to the first clear one do to the credit.\<close>

lemma tx_credit_polled [simp]:
  "first_clear P (dev m) n \<Longrightarrow> tx_credit c (trace (polled P (Suc n) m))"
proof -
  assume "first_clear P (dev m) n"
  then have "\<not> tx_full (stat_at P (dev m) n)"
    by (simp add: first_clear_iff)
  then have "\<exists>v \<in> set (map (stat_at P (dev m)) [0..<Suc n]). \<not> tx_full v"
    by (intro bexI [of _ "stat_at P (dev m) n"]) simp_all
  then have "tx_credit (tx_credit c (trace m)) (map (Load STAT) (map (stat_at P (dev m)) [0..<Suc n]))"
    by (simp only: tx_credit_stat_loads) simp
  then show ?thesis
    by (simp add: trace_polled comp_def del: upt_Suc)
qed

lemma disciplined_polled [simp]:
  "disciplined c (trace (polled P n m)) \<longleftrightarrow> disciplined c (trace m)"
proof -
  have "disciplined c' (map (\<lambda>k. Load STAT (stat_at P (dev m) k)) [0..<n])" for c'
    using disciplined_stat_loads [of c' "map (stat_at P (dev m)) [0..<n]"]
    by (simp add: comp_def)
  then show ?thesis
    by (simp add: trace_polled)
qed

text \<open>A store to the transmit register right after such a run of polls.\<close>

lemma disciplined_store_after_polls [simp]:
  "first_clear P (dev m) n \<Longrightarrow>
     disciplined c (trace (vstore P TX v (polled P (Suc n) m))) \<longleftrightarrow> disciplined c (trace m)"
  by simp

lemma tx_credit_after_store [simp]: "\<not> tx_credit c (trace (vstore P TX v m))"
  by simp

lemma tx_words_store_after_polls [simp]:
  "tx_words (trace (vstore P TX v (polled P n m))) = tx_words (trace m) @ [v]"
  by simp

section \<open>Lemmas: responsive devices\<close>

lemma responsiveD:
  assumes "responsive P I" and "I d"
  shows "\<exists>n. first_clear P d n" and "I (hw_load P r d)" and "I (hw_store P r v d)"
    and "I (hw_idle P d)"
  using assms by (auto simp add: responsive_def)

lemma responsive_funpow: "responsive P I \<Longrightarrow> I d \<Longrightarrow> I ((hw_load P r ^^ n) d)"
  by (induction n) (auto dest: responsiveD(2))

lemma responsive_idle: "responsive P I \<Longrightarrow> I (dev m) \<Longrightarrow> I (dev (idle P n m))"
  by (induction n) (auto dest: responsiveD(4))

lemma jammedD:
  assumes "jammed P J" and "J d"
  shows "tx_full (reg_val STAT (hw_regs P d))" and "J (hw_load P STAT d)" and "J (hw_idle P d)"
  using assms by (auto simp add: jammed_def)

end
