(* ===== verification/Devices.thy ===== *)
theory Devices
  imports Mmio
begin

text \<open>
  Two devices behind the register block, written from the description of the
  UART-Lite peripheral (a transmit FIFO and a status register whose bit
  \<open>0x08\<close> means that the FIFO is full): a transmitter whose FIFO never
  drains, which is the hardware fault the driver cannot recover from, and a
  working transmitter with a FIFO of sixteen bytes that shifts one byte out
  every \<open>T\<close> steps, a step being a bus access or an idle tick, and drops a
  byte written while the FIFO is full.  The lemmas give each device's answer
  to consecutive polls, which is what the driver's theorems ask of a
  platform, and the time the working transmitter needs to drain its FIFO.

  Neither device is code of the repository.  The depth of sixteen bytes,
  the one step of the transmitter per access or idle tick, and the loss of
  a byte written to a full FIFO are those of the peripheral as its data
  sheet describes it; the firmware and its specification fix the full bit
  and nothing else.  The theorems on the driver alone hold on every
  platform and do not depend on them.
\<close>

section \<open>A transmitter that never drains\<close>

definition stuck_uart :: "bool \<Rightarrow> unit platform" where
  "stuck_uart sg =
     \<lparr>char_signed = sg,
      hw_regs = (\<lambda>d. \<lparr>RX_FIFO = 0, TX_FIFO = 0, STAT_REG = 0x08, CTRL_REG = 0\<rparr>),
      hw_load = (\<lambda>r d. d),
      hw_store = (\<lambda>r v d. d),
      hw_idle = (\<lambda>d. d)\<rparr>"

section \<open>A working transmitter\<close>

record uart =
  txq :: "u8 list"
  wire :: "u8 list"
  phase :: nat

definition fifo_depth :: nat where
  "fifo_depth = 16"

definition uart_status :: "uart \<Rightarrow> u32" where
  "uart_status d =
     (if fifo_depth \<le> length (txq d) then 0x08 else if txq d = [] then 0x04 else 0)"

definition uart_tick :: "nat \<Rightarrow> uart \<Rightarrow> uart" where
  "uart_tick T d =
     (if txq d = [] then d\<lparr>phase := 0\<rparr>
      else if T \<le> Suc (phase d)
        then d\<lparr>txq := tl (txq d), wire := wire d @ [hd (txq d)], phase := 0\<rparr>
      else d\<lparr>phase := Suc (phase d)\<rparr>)"

definition uart_push :: "u32 \<Rightarrow> uart \<Rightarrow> uart" where
  "uart_push v d = (if length (txq d) < fifo_depth then d\<lparr>txq := txq d @ [ucast v]\<rparr> else d)"

definition uartlite :: "bool \<Rightarrow> nat \<Rightarrow> uart platform" where
  "uartlite sg T =
     \<lparr>char_signed = sg,
      hw_regs = (\<lambda>d. \<lparr>RX_FIFO = 0, TX_FIFO = 0, STAT_REG = uart_status d, CTRL_REG = 0\<rparr>),
      hw_load = (\<lambda>r d. uart_tick T d),
      hw_store = (\<lambda>r v d. uart_tick T (if r = TX then uart_push v d else d)),
      hw_idle = uart_tick T\<rparr>"

definition uart_idle :: uart where
  "uart_idle = \<lparr>txq = [], wire = [], phase = 0\<rparr>"

text \<open>A transmitter whose FIFO is full, the byte in flight just started.\<close>

definition full_uart :: uart where
  "full_uart = \<lparr>txq = replicate 16 0x2E, wire = [], phase = 0\<rparr>"

text \<open>Everything the transmitter has accepted, in order; and its invariant.\<close>

definition sent :: "uart \<Rightarrow> u8 list" where
  "sent d = wire d @ txq d"

definition uart_ok :: "uart \<Rightarrow> bool" where
  "uart_ok d \<longleftrightarrow> length (txq d) \<le> fifo_depth"

text \<open>
  A full FIFO has room again after \<open>T - phase\<close> accesses (one, when the byte
  in flight is already due); a FIFO with room answers the first poll.
\<close>

definition polls_needed :: "nat \<Rightarrow> uart \<Rightarrow> nat" where
  "polls_needed T d = (if fifo_depth \<le> length (txq d) then Suc (T - Suc (phase d)) else 0)"

text \<open>
  The steps the transmitter needs to shift out everything in its FIFO: a
  whole byte time for each byte but the one in flight, and what is left of
  the byte time of that one.
\<close>

definition ticks_left :: "nat \<Rightarrow> uart \<Rightarrow> nat" where
  "ticks_left T d =
     (if txq d = [] then 0
      else (length (txq d) - 1) * max 1 T + (max 1 T - min (phase d) (max 1 T - 1)))"

text \<open>
  Two transmitters that differ at most in what is already on the line: they
  answer every access alike from now on.
\<close>

definition same_fifo :: "uart \<Rightarrow> uart \<Rightarrow> bool" where
  "same_fifo d d' \<longleftrightarrow> txq d = txq d' \<and> phase d = phase d'"

section \<open>Lemmas: the stuck transmitter\<close>

lemma stuck_uart_sel [simp]:
  "char_signed (stuck_uart sg) = sg"
  "STAT_REG (hw_regs (stuck_uart sg) d) = 0x08"
  "hw_load (stuck_uart sg) r d = d"
  "hw_store (stuck_uart sg) r v d = d"
  "hw_idle (stuck_uart sg) d = d"
  by (simp_all add: stuck_uart_def)

lemma stat_at_stuck [simp]: "stat_at (stuck_uart sg) d n = 0x08"
  by (simp add: stat_at_def)

lemma stuck_uart_always_full: "tx_full (stat_at (stuck_uart sg) d n)"
  by simp

lemma stuck_uart_never_clear: "\<not> first_clear (stuck_uart sg) d n"
  by (simp add: first_clear_iff)

lemma jammed_stuck_uart: "jammed (stuck_uart sg) (\<lambda>d. True)"
  by (simp add: jammed_def)

section \<open>Lemmas: the working transmitter\<close>

lemma uartlite_sel [simp]:
  "char_signed (uartlite sg T) = sg"
  "STAT_REG (hw_regs (uartlite sg T) d) = uart_status d"
  "hw_load (uartlite sg T) r d = uart_tick T d"
  "hw_store (uartlite sg T) r v d = uart_tick T (if r = TX then uart_push v d else d)"
  "hw_idle (uartlite sg T) = uart_tick T"
  by (simp_all add: uartlite_def)

lemma stat_at_uartlite_0 [simp]: "stat_at (uartlite sg T) d 0 = uart_status d"
  by (simp add: stat_at_def)

lemma tx_full_uart_status [simp]:
  "tx_full (uart_status d) \<longleftrightarrow> fifo_depth \<le> length (txq d)"
  by (simp add: uart_status_def)

lemma uart_ok_idle [simp]: "uart_ok uart_idle"
  by (simp add: uart_ok_def uart_idle_def)

lemma uart_ok_full [simp]: "uart_ok full_uart"
  by (simp add: uart_ok_def full_uart_def fifo_depth_def)

lemma uart_ok_tick [simp]: "uart_ok d \<Longrightarrow> uart_ok (uart_tick T d)"
  by (auto simp add: uart_ok_def uart_tick_def)

lemma uart_ok_push [simp]: "uart_ok d \<Longrightarrow> uart_ok (uart_push v d)"
  by (simp add: uart_ok_def uart_push_def)

lemma uart_ok_funpow [simp]: "uart_ok d \<Longrightarrow> uart_ok ((uart_tick T ^^ n) d)"
  by (induction n) simp_all

lemma sent_tick [simp]: "sent (uart_tick T d) = sent d"
  by (cases "txq d") (simp_all add: sent_def uart_tick_def)

lemma sent_funpow_tick [simp]: "sent ((uart_tick T ^^ n) d) = sent d"
  by (induction n) simp_all

lemma sent_push:
  "sent (uart_push v d) = (if length (txq d) < fifo_depth then sent d @ [ucast v] else sent d)"
  by (simp add: sent_def uart_push_def)

lemma length_txq_tick: "length (txq (uart_tick T d)) \<le> length (txq d)"
  by (simp add: uart_tick_def)

lemma polls_needed_le: "polls_needed T d \<le> max 1 T"
  by (auto simp add: polls_needed_def)

lemma polls_needed_room [simp]: "length (txq d) < fifo_depth \<Longrightarrow> polls_needed T d = 0"
  by (simp add: polls_needed_def)

lemma first_clear_uartlite_full:
  assumes "length (txq d) = fifo_depth" and "T - Suc (phase d) = k"
  shows "first_clear (uartlite sg T) d (Suc k)"
  using assms
proof (induction k arbitrary: d)
  case 0
  then show ?case
    by (simp add: uart_tick_def fifo_depth_def)
next
  case (Suc k)
  then have "length (txq (uart_tick T d)) = fifo_depth"
    and "T - Suc (phase (uart_tick T d)) = k"
    by (auto simp add: uart_tick_def fifo_depth_def)
  then have "first_clear (uartlite sg T) (uart_tick T d) (Suc k)"
    by (rule Suc.IH)
  with Suc.prems show ?case
    by simp
qed

lemma first_clear_uartlite:
  "uart_ok d \<Longrightarrow> first_clear (uartlite sg T) d (polls_needed T d)"
  using first_clear_uartlite_full [of d T "T - Suc (phase d)" sg]
  by (auto simp add: polls_needed_def uart_ok_def)

lemma low_byte_only_uartlite: "low_byte_only (uartlite sg T)"
  by (simp add: low_byte_only_def uart_push_def)

lemma responsive_uartlite: "responsive (uartlite sg T) uart_ok"
  unfolding responsive_def
  by (auto intro: first_clear_uartlite)

section \<open>Lemmas: draining the FIFO\<close>

lemma ticks_left_eq_0 [simp]: "ticks_left T d = 0 \<longleftrightarrow> txq d = []"
  by (auto simp add: ticks_left_def)

lemma ticks_left_tick: "ticks_left T (uart_tick T d) = ticks_left T d - 1"
proof (cases "txq d")
  case Nil
  then show ?thesis
    by (simp add: ticks_left_def uart_tick_def)
next
  case (Cons b bs)
  then show ?thesis
    by (cases bs) (auto simp add: ticks_left_def uart_tick_def max_def min_def)
qed

lemma ticks_left_funpow: "ticks_left T ((uart_tick T ^^ n) d) = ticks_left T d - n"
  by (induction n) (simp_all add: ticks_left_tick)

lemma ticks_left_le: "ticks_left T d \<le> length (txq d) * max 1 T"
  by (cases "txq d") (simp_all add: ticks_left_def)

lemma drained:
  assumes "length (txq d) * max 1 T \<le> n"
  shows "txq ((uart_tick T ^^ n) d) = []" and "wire ((uart_tick T ^^ n) d) = sent d"
proof -
  from assms ticks_left_le [of T d] have "ticks_left T ((uart_tick T ^^ n) d) = 0"
    by (simp add: ticks_left_funpow)
  then show "txq ((uart_tick T ^^ n) d) = []"
    by simp
  with sent_funpow_tick [where T = T and n = n and d = d] show "wire ((uart_tick T ^^ n) d) = sent d"
    by (simp add: sent_def)
qed

text \<open>Once the FIFO has drained the transmitter is as after reset, but for the line.\<close>

lemma tick_empty_phase: "txq (uart_tick T d) = [] \<Longrightarrow> phase (uart_tick T d) = 0"
  by (auto simp add: uart_tick_def split: if_splits)

lemma drained_idle:
  assumes "length (txq d) * max 1 T \<le> Suc n"
  shows "same_fifo ((uart_tick T ^^ Suc n) d) uart_idle"
  using drained(1) [OF assms] tick_empty_phase [of T "(uart_tick T ^^ n) d"]
  by (simp add: same_fifo_def uart_idle_def)

section \<open>Lemmas: transmitters with the same FIFO\<close>

lemma same_fifo_tick: "same_fifo d d' \<Longrightarrow> same_fifo (uart_tick T d) (uart_tick T d')"
  by (simp add: same_fifo_def uart_tick_def)

lemma same_fifo_funpow: "same_fifo d d' \<Longrightarrow> same_fifo ((uart_tick T ^^ n) d) ((uart_tick T ^^ n) d')"
  by (induction n) (simp_all add: same_fifo_tick)

lemma same_fifo_push: "same_fifo d d' \<Longrightarrow> same_fifo (uart_push v d) (uart_push v d')"
  by (simp add: same_fifo_def uart_push_def)

lemma same_fifo_status: "same_fifo d d' \<Longrightarrow> uart_status d = uart_status d'"
  by (simp add: same_fifo_def uart_status_def)

lemma same_fifo_polls_needed: "same_fifo d d' \<Longrightarrow> polls_needed T d = polls_needed T d'"
  by (simp add: same_fifo_def polls_needed_def)

lemma same_fifo_ok: "same_fifo d d' \<Longrightarrow> uart_ok d \<Longrightarrow> uart_ok d'"
  by (simp add: same_fifo_def uart_ok_def)

end
