(* ===== verification/Putchar.thy ===== *)
theory Putchar
  imports Devices
begin

text \<open>
  The byte writer \<open>putchar\<close> of \<open>src/firmware/main.c\<close>, lines 14 to 18: the
  busy-wait on the transmit-full bit as a function that may not return
  (\<open>None\<close> is the loop that never ends), the conversion of the \<open>char\<close>
  argument to the 32-bit register, and the store that follows the loop.  The
  lemmas characterise exactly when the loop returns and with which machine,
  and derive the driver's contract: one store per call, made only after a
  status read with the full bit clear.
\<close>

section \<open>Definitions\<close>

text \<open>
  The implicit conversion in \<open>XUART0->TX_FIFO = ch\<close>: sign extension where
  the compiler's plain \<open>char\<close> is signed, zero extension where it is not.
\<close>

definition char_to_u32 :: "bool \<Rightarrow> u8 \<Rightarrow> u32" where
  "char_to_u32 sg ch = (if sg then scast ch else ucast ch)"

text \<open>The loop \<open>while (XUART0->STAT_REG & XUART_STAT_TX_FULL);\<close>\<close>

partial_function (option) poll_tx :: "'d platform \<Rightarrow> 'd machine \<Rightarrow> 'd machine option" where
  "poll_tx P m =
     (case vload P STAT m of
        (s, m') \<Rightarrow> if tx_full s then poll_tx P m' else Some m')"

definition putchar :: "'d platform \<Rightarrow> u8 \<Rightarrow> 'd machine \<Rightarrow> 'd machine option" where
  "putchar P ch m =
     do { m' \<leftarrow> poll_tx P m;
          Some (vstore P TX (char_to_u32 (char_signed P) ch) m') }"

section \<open>The polling loop\<close>

lemma poll_tx_unfold:
  "poll_tx P m =
     (if tx_full (stat_at P (dev m) 0) then poll_tx P (polled P (Suc 0) m) else Some (polled P (Suc 0) m))"
  by (subst poll_tx.simps) (simp add: vload_STAT)

lemma poll_tx_first_clear:
  "first_clear P (dev m) n \<Longrightarrow> poll_tx P m = Some (polled P (Suc n) m)"
proof (induction n arbitrary: m)
  case 0
  then show ?case by (subst poll_tx_unfold) simp
next
  case (Suc n)
  then have full: "tx_full (stat_at P (dev m) 0)"
    and rest: "first_clear P (dev (polled P (Suc 0) m)) n"
    by simp_all
  from rest have "poll_tx P (polled P (Suc 0) m) = Some (polled P (Suc n) (polled P (Suc 0) m))"
    by (rule Suc.IH)
  with full show ?case
    by (subst poll_tx_unfold) (simp add: polled_Suc_shift [of P "Suc n"])
qed

lemma poll_tx_SomeD:
  assumes "poll_tx P m = Some m'"
  shows "\<exists>n. first_clear P (dev m) n \<and> m' = polled P (Suc n) m"
proof -
  let ?Q = "\<lambda>(P :: 'a platform, m) m'. \<exists>n. first_clear P (dev m) n \<and> m' = polled P (Suc n) m"
  have "?Q (P, m) m'"
  proof (rule poll_tx.raw_induct [OF _ assms])
    fix f and P :: "'a platform" and m m'
    assume IH: "\<And>P m m'. f P m = Some m' \<Longrightarrow> ?Q (P, m) m'"
      and eq: "(case vload P STAT m of
          (s, m') \<Rightarrow> if tx_full s then f P m' else Some m') = Some m'"
    show "?Q (P, m) m'"
    proof (cases "tx_full (stat_at P (dev m) 0)")
      case False
      with eq have "m' = polled P (Suc 0) m" by (simp add: vload_STAT)
      with False show ?thesis by (auto intro: exI [of _ 0])
    next
      case True
      with eq have "f P (polled P (Suc 0) m) = Some m'" by (simp add: vload_STAT)
      then obtain n where "first_clear P (dev (polled P (Suc 0) m)) n"
        and "m' = polled P (Suc n) (polled P (Suc 0) m)"
        using IH by fastforce
      with True show ?thesis
        by (auto intro!: exI [of _ "Suc n"] simp add: polled_Suc_shift [of P "Suc n"])
    qed
  qed
  then show ?thesis by simp
qed

lemma poll_tx_Some_iff:
  "poll_tx P m = Some m' \<longleftrightarrow> (\<exists>n. first_clear P (dev m) n \<and> m' = polled P (Suc n) m)"
  by (auto dest: poll_tx_SomeD simp add: poll_tx_first_clear)

lemma poll_tx_None_iff: "poll_tx P m = None \<longleftrightarrow> (\<forall>n. tx_full (stat_at P (dev m) n))"
proof -
  have "(\<exists>m'. poll_tx P m = Some m') \<longleftrightarrow> (\<exists>n. first_clear P (dev m) n)"
    by (auto simp add: poll_tx_Some_iff)
  then show ?thesis
    by (cases "poll_tx P m") (auto simp add: ex_first_clear_iff)
qed

section \<open>The byte writer\<close>

lemma putchar_Some_iff:
  "putchar P ch m = Some m' \<longleftrightarrow>
     (\<exists>n. first_clear P (dev m) n \<and>
          m' = vstore P TX (char_to_u32 (char_signed P) ch) (polled P (Suc n) m))"
  by (auto simp add: putchar_def bind_eq_Some_conv poll_tx_Some_iff)

lemma putchar_None_iff: "putchar P ch m = None \<longleftrightarrow> poll_tx P m = None"
  by (simp add: putchar_def bind_eq_None_conv)

lemma putchar_SomeE:
  assumes "putchar P ch m = Some m'"
  obtains n where "first_clear P (dev m) n"
    and "m' = vstore P TX (char_to_u32 (char_signed P) ch) (polled P (Suc n) m)"
  using assms by (auto simp add: putchar_Some_iff)

lemma putchar_responsive:
  assumes "responsive P I" and "I (dev m)"
  shows "\<exists>m'. putchar P ch m = Some m' \<and> I (dev m')"
proof -
  from assms obtain n where "first_clear P (dev m) n"
    by (auto dest: responsiveD(1))
  moreover have "I (dev (vstore P TX v (polled P (Suc n) m)))" for v
    using assms by (simp add: responsiveD(3) responsive_funpow del: funpow.simps)
  ultimately show ?thesis
    by (auto simp add: putchar_Some_iff)
qed

text \<open>Running the byte writer on a concrete device.\<close>

lemmas putchar_eval =
  putchar_def poll_tx_unfold polled_eval stat_at_def char_to_u32_def
  uart_tick_def uart_push_def uart_status_def fifo_depth_def

section \<open>The contract of the byte writer\<close>

text \<open>
  C1.  When the first status read with the full bit clear is read number
  \<open>n\<close> (counting from 0), \<open>putchar\<close> returns, having loaded the status
  register exactly \<open>n + 1\<close> times and then stored the converted character to
  the transmit register once.
\<close>

theorem putchar_first_clear:
  "first_clear P (dev m) n \<Longrightarrow>
     putchar P ch m = Some (vstore P TX (char_to_u32 (char_signed P) ch) (polled P (Suc n) m))"
  by (simp add: putchar_def poll_tx_first_clear)

theorem putchar_first_clear_witness:
  "first_clear (uartlite False 3) full_uart 3 \<and>
   map_option trace (putchar (uartlite False 3) 0x41 \<lparr>dev = full_uart, trace = []\<rparr>) =
     Some [Load STAT 8, Load STAT 8, Load STAT 8, Load STAT 0, Store TX 0x41]"
proof -
  have fc: "first_clear (uartlite False 3) (dev \<lparr>dev = full_uart, trace = []\<rparr>) 3"
    by (simp add: full_uart_def uart_tick_def fifo_depth_def)
  from putchar_first_clear [OF fc, where ch = "0x41"] fc show ?thesis
    by (simp add: polled_eval full_uart_def uart_tick_def uart_status_def
        fifo_depth_def char_to_u32_def)
qed


text \<open>
  C2.  \<open>putchar\<close> returns if and only if some status read sees the full bit
  clear: the busy-wait has no timeout and no other exit.
\<close>

theorem putchar_returns_iff:
  "(\<exists>m'. putchar P ch m = Some m') \<longleftrightarrow> (\<exists>n. \<not> tx_full (stat_at P (dev m) n))"
  by (simp add: putchar_def bind_eq_Some_conv poll_tx_Some_iff ex_first_clear_iff [symmetric])

text \<open>
  C3.  \<open>putchar\<close> keeps the polling discipline: if every store to the
  transmit register so far was preceded, since the store before it, by a
  status read with the full bit clear, the same holds after the call, and the
  call leaves no credit behind for a later store.
\<close>

theorem putchar_disciplined:
  assumes "putchar P ch m = Some m'" and "disciplined c (trace m)"
  shows "disciplined c (trace m') \<and> \<not> tx_credit c (trace m')"
proof -
  from assms(1) obtain m1 where poll: "poll_tx P m = Some m1"
    and m': "m' = vstore P TX (char_to_u32 (char_signed P) ch) m1"
    by (auto simp add: putchar_def bind_eq_Some_conv)
  from poll obtain n where n: "first_clear P (dev m) n" and m1: "m1 = polled P (Suc n) m"
    by (auto dest: poll_tx_SomeD)
  from n have "tx_credit c (trace (polled P (Suc n) m))"
    by (rule tx_credit_polled)
  with assms(2) show ?thesis
    by (simp add: m' m1)
qed

theorem putchar_disciplined_witness:
  "putchar (uartlite False 3) 0x41 \<lparr>dev = uart_idle, trace = []\<rparr> =
     Some \<lparr>dev = \<lparr>txq = [0x41], wire = [], phase = 1\<rparr>,
           trace = [Load STAT 4, Store TX 0x41]\<rparr> \<and>
   disciplined False [] \<and>
   disciplined False [Load STAT 4, Store TX 0x41] \<and>
   \<not> tx_credit False [Load STAT 4, Store TX 0x41]"
proof -
  have fc: "first_clear (uartlite False 3) (dev \<lparr>dev = uart_idle, trace = []\<rparr>) 0"
    by (simp add: uart_idle_def fifo_depth_def)
  have run: "putchar (uartlite False 3) 0x41 \<lparr>dev = uart_idle, trace = []\<rparr> =
     Some \<lparr>dev = \<lparr>txq = [0x41], wire = [], phase = 1\<rparr>,
           trace = [Load STAT 4, Store TX 0x41]\<rparr>"
    using poll_tx_first_clear [OF fc]
    by (simp add: putchar_def polled_eval uart_idle_def uart_tick_def
        uart_push_def uart_status_def fifo_depth_def char_to_u32_def)
  from putchar_disciplined [OF run, of False] run show ?thesis
    by simp
qed

text \<open>
  C4.  Each call of \<open>putchar\<close> that returns has stored to the transmit
  register exactly once, and the word stored is the converted character.
\<close>

theorem putchar_sends_once:
  assumes "putchar P ch m = Some m'"
  shows "tx_words (trace m') = tx_words (trace m) @ [char_to_u32 (char_signed P) ch]"
  using assms by (auto simp add: putchar_def bind_eq_Some_conv dest!: poll_tx_SomeD)

theorem putchar_sends_once_witness:
  "putchar (uartlite True 3) 0x41 \<lparr>dev = full_uart, trace = [Store TX 0x40]\<rparr> =
     Some \<lparr>dev = \<lparr>txq = replicate 15 0x2E @ [0x41], wire = [0x2E], phase = 2\<rparr>,
           trace = [Store TX 0x40, Load STAT 8, Load STAT 8, Load STAT 8, Load STAT 0,
                    Store TX 0x41]\<rparr> \<and>
   tx_words [Store TX 0x40, Load STAT 8, Load STAT 8, Load STAT 8, Load STAT 0, Store TX 0x41] =
     tx_words [Store TX 0x40] @ [char_to_u32 True 0x41]"
proof -
  have fc: "first_clear (uartlite True 3) (dev \<lparr>dev = full_uart, trace = [Store TX 0x40]\<rparr>) 3"
    by (simp add: full_uart_def uart_tick_def fifo_depth_def)
  have run: "putchar (uartlite True 3) 0x41 \<lparr>dev = full_uart, trace = [Store TX 0x40]\<rparr> =
     Some \<lparr>dev = \<lparr>txq = replicate 15 0x2E @ [0x41], wire = [0x2E], phase = 2\<rparr>,
           trace = [Store TX 0x40, Load STAT 8, Load STAT 8, Load STAT 8, Load STAT 0,
                    Store TX 0x41]\<rparr>"
    using poll_tx_first_clear [OF fc]
    by (simp add: putchar_def polled_eval full_uart_def uart_tick_def
        uart_push_def uart_status_def fifo_depth_def char_to_u32_def)
  from putchar_sends_once [OF run] run show ?thesis
    by simp
qed

text \<open>
  C5.  When the transmit-full bit never clears, \<open>putchar\<close> never returns:
  a stuck transmitter hangs the caller, and no byte is written.
\<close>

theorem putchar_hangs:
  "(\<forall>n. tx_full (stat_at P (dev m) n)) \<Longrightarrow> putchar P ch m = None"
  by (simp add: putchar_def bind_eq_None_conv poll_tx_None_iff)

theorem putchar_hangs_witness:
  "(\<forall>n. tx_full (stat_at (stuck_uart False) () n)) \<and>
   putchar (stuck_uart False) 0x41 \<lparr>dev = (), trace = []\<rparr> = None"
proof -
  have stuck: "\<forall>n. tx_full (stat_at (stuck_uart False) (dev \<lparr>dev = (), trace = []\<rparr>) n)"
    by simp
  from putchar_hangs [OF stuck] stuck show ?thesis
    by simp
qed

text \<open>
  Whatever the signedness of \<open>char\<close>, the low byte of the word stored to
  the transmit register is the character passed to \<open>putchar\<close>.
\<close>

lemma char_to_u32_low_byte: "ucast (char_to_u32 sg ch) = ch"
  by (simp add: char_to_u32_def)

text \<open>
  For the characters below \<open>0x80\<close> the word stored is the character
  itself, zero in its upper 24 bits, whatever the signedness of \<open>char\<close>;
  where \<open>char\<close> is signed, a character from \<open>0x80\<close> on is stored
  sign-extended.
\<close>

lemma char_to_u32_ascii: "ch < 0x80 \<Longrightarrow> char_to_u32 sg ch = ucast ch"
  by (simp add: char_to_u32_def scast_eq_ucast_byte byte_less_128_iff)

lemma char_to_u32_signed_high:
  "0x80 \<le> ch \<Longrightarrow> char_to_u32 True ch = ucast ch OR 0xFFFFFF00"
proof -
  assume "0x80 \<le> ch"
  then have "\<not> ch < 0x80"
    by (simp add: not_less)
  then have "bit ch 7"
    by (simp add: byte_less_128_iff)
  then show ?thesis
    by (simp add: char_to_u32_def scast_high_byte not_mask_8)
qed

lemma char_to_u32_unsigned: "char_to_u32 False ch = ucast ch"
  by (simp add: char_to_u32_def)

text \<open>
  C24.  The word stored to the transmit register, for every character and
  either signedness of \<open>char\<close>: the character itself with the upper 24
  bits clear, except where \<open>char\<close> is signed and the character is \<open>0x80\<close>
  or above, where the upper 24 bits are all set.
\<close>

theorem char_to_u32_cases:
  "char_to_u32 sg ch = (if sg \<and> 0x80 \<le> ch then ucast ch OR 0xFFFFFF00 else ucast ch)"
proof (cases "sg \<and> 0x80 \<le> ch")
  case True
  then show ?thesis
    by (simp add: char_to_u32_signed_high)
next
  case False
  then have "char_to_u32 sg ch = ucast ch"
    by (cases sg) (simp_all add: char_to_u32_ascii char_to_u32_unsigned not_le)
  with False show ?thesis
    by auto
qed

theorem char_to_u32_cases_witness:
  "char_to_u32 True 0xE9 = 0xFFFFFFE9 \<and> char_to_u32 False 0xE9 = 0xE9 \<and>
   char_to_u32 True 0x41 = 0x41"
  using char_to_u32_cases [of True "0xE9"] char_to_u32_cases [of False "0xE9"]
    char_to_u32_cases [of True "0x41"]
  by simp

end
