(* ===== verification/Print.thy ===== *)
theory Print
  imports CString Putchar
begin

text \<open>
  The string writer \<open>print\<close> of \<open>src/firmware/main.c\<close>, lines 20 to 25, as
  the pointer walk the code makes, and its specification \<open>puts\<close> over the
  list of bytes the pointer points at.\<close>

section \<open>Definitions\<close>

text \<open>The loop \<open>for (; *str; str++) putchar(*str);\<close> over a flat memory.\<close>

partial_function (option)
  print :: "'d platform \<Rightarrow> memory \<Rightarrow> u32 \<Rightarrow> 'd machine \<Rightarrow> 'd machine option" where
  "print P mem str m =
     (if mem str \<noteq> 0
      then do { m' \<leftarrow> putchar P (mem str) m; print P mem (str + 1) m' }
      else Some m)"

text \<open>The specification: \<open>putchar\<close> for each byte of a list, in order.\<close>

fun puts :: "'d platform \<Rightarrow> u8 list \<Rightarrow> 'd machine \<Rightarrow> 'd machine option" where
  "puts P [] m = Some m"
| "puts P (c # cs) m = do { m' \<leftarrow> putchar P c m; puts P cs m' }"

section \<open>The specification\<close>

lemma puts_append: "puts P (xs @ ys) m = do { m' \<leftarrow> puts P xs m; puts P ys m' }"
  by (induction xs arbitrary: m) (simp_all cong: Option.bind_cong)

lemma puts_tx_words:
  "puts P s m = Some m' \<Longrightarrow>
     tx_words (trace m') = tx_words (trace m) @ map (char_to_u32 (char_signed P)) s"
proof (induction s arbitrary: m)
  case Nil
  then show ?case by simp
next
  case (Cons c cs)
  then obtain m1 where "putchar P c m = Some m1" and "puts P cs m1 = Some m'"
    by (auto simp add: bind_eq_Some_conv)
  then show ?case
    using Cons.IH [of m1] by (auto elim!: putchar_SomeE)
qed

lemma puts_tx_bytes:
  "puts P s m = Some m' \<Longrightarrow> tx_bytes (trace m') = tx_bytes (trace m) @ s"
  by (simp add: tx_bytes_def puts_tx_words char_to_u32_def comp_def)

lemma puts_disciplined:
  "puts P s m = Some m' \<Longrightarrow> disciplined c (trace m') \<longleftrightarrow> disciplined c (trace m)"
proof (induction s arbitrary: m)
  case Nil
  then show ?case by simp
next
  case (Cons x xs)
  then obtain m1 where "putchar P x m = Some m1" and "puts P xs m1 = Some m'"
    by (auto simp add: bind_eq_Some_conv)
  then show ?case
    using Cons.IH [of m1] by (auto elim!: putchar_SomeE)
qed

lemma puts_tx_credit:
  "puts P s m = Some m' \<Longrightarrow> tx_credit c (trace m') \<longleftrightarrow> s = [] \<and> tx_credit c (trace m)"
proof (induction s arbitrary: m rule: rev_induct)
  case Nil
  then show ?case by simp
next
  case (snoc x xs)
  then obtain m1 where "puts P xs m = Some m1" and "putchar P x m1 = Some m'"
    by (auto simp add: puts_append bind_eq_Some_conv)
  then show ?case
    by (auto elim!: putchar_SomeE)
qed

lemma puts_responsive:
  assumes "responsive P I"
  shows "I (dev m) \<Longrightarrow> \<exists>m'. puts P s m = Some m' \<and> I (dev m')"
proof (induction s arbitrary: m)
  case Nil
  then show ?case by simp
next
  case (Cons c cs)
  from assms Cons.prems obtain m1 where "putchar P c m = Some m1" and "I (dev m1)"
    using putchar_responsive by blast
  then show ?case
    using Cons.IH [of m1] by simp
qed

lemma puts_keeps:
  assumes "responsive P I" and "I (dev m)" and "puts P s m = Some m'"
  shows "I (dev m')"
  using puts_responsive [OF assms(1,2), of s] assms(3) by simp

section \<open>The pointer walk implements the specification\<close>

lemma print_unfold:
  "print P mem str m =
     (if mem str \<noteq> 0 then Option.bind (putchar P (mem str) m) (print P mem (str + 1)) else Some m)"
  by (subst print.simps) simp

lemma print_cstring: "cstring_at mem p s \<Longrightarrow> print P mem p m = puts P s m"
proof (induction s arbitrary: p m)
  case Nil
  then show ?case by (subst print_unfold) simp
next
  case (Cons c cs)
  then have "print P mem (p + 1) m1 = puts P cs m1" for m1
    by simp
  with Cons.prems show ?case
    by (subst print_unfold) (simp cong: Option.bind_cong)
qed

lemma print_SomeD:
  assumes "print P mem p m = Some m'"
  shows "\<exists>s. cstring_at mem p s \<and> puts P s m = Some m'"
proof -
  let ?Q = "\<lambda>(((P :: 'a platform, mem), p), m) m'.
      \<exists>s. cstring_at mem p s \<and> puts P s m = Some m'"
  have "?Q (((P, mem), p), m) m'"
  proof (rule print.raw_induct [OF _ assms])
    fix f and P :: "'a platform" and mem p m m'
    assume IH: "\<And>P mem p m m'. f P mem p m = Some m' \<Longrightarrow> ?Q (((P, mem), p), m) m'"
      and eq: "(if mem p \<noteq> 0
          then do { m' \<leftarrow> putchar P (mem p) m; f P mem (p + 1) m' }
          else Some m) = Some m'"
    show "?Q (((P, mem), p), m) m'"
    proof (cases "mem p = 0")
      case True
      with eq show ?thesis by (auto intro: exI [of _ "[]"])
    next
      case False
      with eq obtain m1 where m1: "putchar P (mem p) m = Some m1"
        and "f P mem (p + 1) m1 = Some m'"
        by (auto simp add: bind_eq_Some_conv)
      then obtain s where "cstring_at mem (p + 1) s" and "puts P s m1 = Some m'"
        using IH by fastforce
      with False m1 show ?thesis
        by (auto intro!: exI [of _ "mem p # s"])
    qed
  qed
  then show ?thesis by simp
qed

lemma print_Some_iff:
  "print P mem p m = Some m' \<longleftrightarrow> (\<exists>s. cstring_at mem p s \<and> puts P s m = Some m')"
  by (auto dest: print_SomeD simp add: print_cstring)


lemma print_disciplined:
  "print P mem p m = Some m' \<Longrightarrow> disciplined c (trace m') \<longleftrightarrow> disciplined c (trace m)"
  by (auto dest!: print_SomeD simp add: puts_disciplined)

lemma print_responsive:
  "responsive P I \<Longrightarrow> I (dev m) \<Longrightarrow> cstring_at mem p s \<Longrightarrow>
     \<exists>m'. print P mem p m = Some m' \<and> I (dev m')"
  by (simp add: print_cstring puts_responsive)

section \<open>The contract of the string writer\<close>

text \<open>
  C8.  \<open>print\<close> implements \<open>puts\<close>: a call returns a machine if and only
  if its pointer points at a null-terminated string and writing the bytes of
  that string, one \<open>putchar\<close> each and in order, returns that machine.
\<close>

theorem print_refines_puts:
  "print P mem p m = Some m' \<longleftrightarrow> (\<exists>s. cstring_at mem p s \<and> puts P s m = Some m')"
  by (auto dest: print_SomeD simp add: print_cstring)

text \<open>
  C9.  Called on a string of \<open>n\<close> bytes, \<open>print\<close> stores to the transmit
  register exactly \<open>n\<close> times, and the low bytes of the words stored are the
  bytes of the string in order: the terminator is not written and nothing is
  appended.
\<close>

theorem print_sends_string:
  assumes "cstring_at mem p s" and "print P mem p m = Some m'"
  shows "tx_bytes (trace m') = tx_bytes (trace m) @ s \<and>
         length (tx_words (trace m')) = length (tx_words (trace m)) + length s"
proof -
  from assms have "puts P s m = Some m'"
    by (simp add: print_cstring)
  then show ?thesis
    by (simp add: puts_tx_bytes puts_tx_words)
qed

theorem print_sends_string_witness:
  "cstring_at mem01 0x1000 [0x30, 0x31] \<and>
   print (uartlite False 3) mem01 0x1000 \<lparr>dev = uart_idle, trace = []\<rparr> =
     Some \<lparr>dev = \<lparr>txq = [0x31], wire = [0x30], phase = 0\<rparr>,
           trace = [Load STAT 4, Store TX 0x30, Load STAT 0, Store TX 0x31]\<rparr> \<and>
   tx_bytes [Load STAT 4, Store TX 0x30, Load STAT 0, Store TX 0x31] = [0x30, 0x31]"
proof -
  have str: "cstring_at mem01 0x1000 [0x30, 0x31]"
    by (simp add: mem01_def)
  have run: "print (uartlite False 3) mem01 0x1000 \<lparr>dev = uart_idle, trace = []\<rparr> =
     Some \<lparr>dev = \<lparr>txq = [0x31], wire = [0x30], phase = 0\<rparr>,
           trace = [Load STAT 4, Store TX 0x30, Load STAT 0, Store TX 0x31]\<rparr>"
    by (simp add: print_cstring [OF str] putchar_eval uart_idle_def)
  from print_sends_string [OF str run] str run show ?thesis
    by simp
qed

text \<open>
  C10.  On a responsive device \<open>print\<close> returns for every null-terminated
  string, and leaves the device in a state from which it is responsive again.
\<close>

theorem print_returns:
  assumes "responsive P I" and "I (dev m)" and "cstring_at mem p s"
  shows "\<exists>m'. print P mem p m = Some m' \<and> I (dev m')"
  using assms by (rule print_responsive)

theorem print_returns_witness:
  "responsive (uartlite False 3) uart_ok \<and> uart_ok full_uart \<and>
   cstring_at mem01 0x1000 [0x30, 0x31] \<and>
   (\<exists>m'. print (uartlite False 3) mem01 0x1000 \<lparr>dev = full_uart, trace = []\<rparr> = Some m' \<and>
      uart_ok (dev m'))"
proof -
  have str: "cstring_at mem01 0x1000 [0x30, 0x31]"
    by (simp add: mem01_def)
  have ok: "uart_ok (dev \<lparr>dev = full_uart, trace = []\<rparr>)"
    by simp
  from print_returns [OF responsive_uartlite ok str] str show ?thesis
    by (simp add: responsive_uartlite)
qed

text \<open>
  C11.  Called on memory that holds no zero byte from the pointer on,
  \<open>print\<close> never returns: it walks the whole address space again and again.
\<close>

theorem print_unterminated:
  assumes "\<forall>k. mem (p + of_nat k) \<noteq> 0"
  shows "print P mem p m = None"
proof (rule ccontr)
  assume "print P mem p m \<noteq> None"
  then obtain m' s where "cstring_at mem p s"
    by (auto dest: print_SomeD)
  then have "mem (p + of_nat (length s)) = 0"
    by (rule cstring_at_terminator)
  with assms show False by simp
qed

theorem print_unterminated_witness:
  "(\<forall>k. (\<lambda>a. 0x41 :: u8) (0x1000 + of_nat k) \<noteq> 0) \<and>
   print (uartlite False 3) (\<lambda>a. 0x41) 0x1000 \<lparr>dev = uart_idle, trace = []\<rparr> = None"
proof -
  have "\<forall>k. (\<lambda>a :: u32. 0x41 :: u8) (0x1000 + of_nat k) \<noteq> 0"
    by simp
  from print_unterminated [OF this] show ?thesis
    by simp
qed

text \<open>
  C34.  Storing a string with its terminator and printing it from the same
  address sends the string: for every string without a zero byte that fits
  into the address space, wherever it is stored, also across the wrap-around
  of the address at \<open>2^32\<close>.
\<close>

theorem print_place:
  assumes "0 \<notin> set s" and "length s < 2 ^ 32 - 1"
  shows "print P (place mem p s) p m = puts P s m"
  using assms by (intro print_cstring cstring_at_place)

theorem print_place_witness:
  "0 \<notin> set (c_literal ''01'') \<and> length (c_literal ''01'') < 2 ^ 32 - 1 \<and>
   print (uartlite False 3) (place (\<lambda>a. 0xFF) 0xFFFFFFFF (c_literal ''01'')) 0xFFFFFFFF
       \<lparr>dev = uart_idle, trace = []\<rparr> =
     Some \<lparr>dev = \<lparr>txq = [0x31], wire = [0x30], phase = 0\<rparr>,
           trace = [Load STAT 4, Store TX 0x30, Load STAT 0, Store TX 0x31]\<rparr>"
proof -
  have "puts (uartlite False 3) (c_literal ''01'') \<lparr>dev = uart_idle, trace = []\<rparr> =
     Some \<lparr>dev = \<lparr>txq = [0x31], wire = [0x30], phase = 0\<rparr>,
           trace = [Load STAT 4, Store TX 0x30, Load STAT 0, Store TX 0x31]\<rparr>"
    by (simp add: putchar_eval uart_idle_def)
  with print_place [of "c_literal ''01''" "uartlite False 3" "\<lambda>a. 0xFF" "0xFFFFFFFF"
      "\<lparr>dev = uart_idle, trace = []\<rparr>"]
  show ?thesis by simp
qed

end
