(* ===== verification/Delay.thy ===== *)
theory Delay
  imports Pico_Prelude
begin

text \<open>
  The delay loop \<open>for (i = 0; i < 1000000; i++);\<close> of
  \<open>src/firmware/main.c\<close>, line 38, on the \<open>volatile int i\<close> of line 31.
  Because \<open>i\<close> is volatile the compiler must perform every iteration, so the
  model runs the loop as written: \<open>int\<close> is a 32-bit word read as a signed
  number, \<open>i++\<close> is word addition, and the comparison is the signed one.
\<close>

section \<open>Definitions\<close>

function delay_loop :: "s32 \<Rightarrow> s32" where
  "delay_loop i = (if i <s 1000000 then delay_loop (i + 1) else i)"
  by pat_completeness auto
termination
  by (relation "measure (\<lambda>i. nat (1000000 - sint i))")
     (simp_all add: word_sless_alt sint_less_numeral_succ)

definition delay :: s32 where
  "delay = delay_loop 0"

text \<open>
  The same loop, counting how often its body runs: the time the loop takes,
  in increments of \<open>i\<close>.
\<close>

function delay_ticks :: "s32 \<Rightarrow> nat" where
  "delay_ticks i = (if i <s 1000000 then Suc (delay_ticks (i + 1)) else 0)"
  by pat_completeness auto
termination
  by (relation "measure (\<lambda>i. nat (1000000 - sint i))")
     (simp_all add: word_sless_alt sint_less_numeral_succ)

section \<open>Lemmas\<close>

declare delay_loop.simps [simp del]

declare delay_ticks.simps [simp del]

lemma sint_million [simp]: "sint (1000000 :: s32) = 1000000"
  by simp

lemma delay_loop_less: "i <s 1000000 \<Longrightarrow> delay_loop i = 1000000"
proof (induction i rule: delay_loop.induct)
  case (1 i)
  show ?case
  proof (cases "i + 1 <s 1000000")
    case True
    with "1.prems" "1.IH" show ?thesis
      by (subst delay_loop.simps) simp
  next
    case False
    with "1.prems" have "sint (i + 1) = 1000000"
      by (simp add: word_sless_alt sint_less_numeral_succ)
    then have "i + 1 = 1000000"
      by (intro signed_word_eqI) simp
    with "1.prems" show ?thesis
      by (subst delay_loop.simps, subst delay_loop.simps) simp
  qed
qed


lemma delay_loop_ge: "\<not> i <s 1000000 \<Longrightarrow> delay_loop i = i"
  by (subst delay_loop.simps) simp

lemma delay_eq [simp]: "delay = 1000000"
proof -
  have "(0 :: s32) <s 1000000"
    by (simp add: word_sless_alt)
  then show ?thesis
    by (simp add: delay_def delay_loop_less)
qed

lemma delay_ticks_eq: "delay_ticks i = nat (1000000 - sint i)"
proof (induction i rule: delay_ticks.induct)
  case (1 i)
  show ?case
  proof (cases "i <s 1000000")
    case True
    then have "sint (i + 1) = sint i + 1"
      by (intro sint_less_numeral_succ) (simp add: word_sless_alt)
    with True "1.IH" show ?thesis
      by (subst delay_ticks.simps) (simp add: word_sless_alt nat_diff_distrib)
  next
    case False
    then show ?thesis
      by (subst delay_ticks.simps) (simp add: word_sless_alt)
  qed
qed

lemma delay_ticks_0 [simp]: "delay_ticks 0 = 1000000"
  by (simp add: delay_ticks_eq)

text \<open>Counting up from \<open>i\<close> without wrapping.\<close>

lemma funpow_inc: "((\<lambda>j :: s32. j + 1) ^^ k) i = i + of_nat k"
  by (induction k) simp_all

lemma sint_add_of_nat:
  "sint i + int k < 2147483648 \<Longrightarrow> sint (i + of_nat k :: s32) = sint i + int k"
proof (induction k)
  case 0
  show ?case by simp
next
  case (Suc k)
  then have "sint (i + of_nat k) = sint i + int k"
    by simp
  moreover from this Suc.prems have "sint (i + of_nat k + 1) = sint (i + of_nat k) + 1"
    by (intro sint_less_numeral_succ) simp
  ultimately show ?case
    by (simp add: ac_simps)
qed

section \<open>The contract of the delay loop\<close>

text \<open>
  C12.  The delay loop terminates from every value of \<open>i\<close>, and leaves
  \<open>i\<close> at one million when it starts below that and unchanged otherwise.
\<close>

theorem delay_loop_value: "delay_loop i = (if i <s 1000000 then 1000000 else i)"
  by (simp add: delay_loop_less delay_loop_ge)

text \<open>
  C13.  Started at \<open>i\<close> not above one million, the loop makes exactly
  \<open>1000000 - i\<close> increments, and no increment overflows the 32-bit \<open>int\<close>:
  after \<open>k\<close> of them the counter reads \<open>i + k\<close> as a signed number.
\<close>

theorem delay_loop_iterations:
  assumes "i \<le>s 1000000"
  shows "delay_loop i = ((\<lambda>j. j + 1) ^^ nat (1000000 - sint i)) i \<and>
         (\<forall>k \<le> nat (1000000 - sint i). sint (((\<lambda>j. j + 1) ^^ k) i) = sint i + int k)"
proof -
  from assms have le: "sint i \<le> 1000000"
    by (simp add: word_sle_eq)
  have count: "sint (i + of_nat k) = sint i + int k" if "k \<le> nat (1000000 - sint i)" for k
    using that le by (intro sint_add_of_nat) linarith
  have "sint (i + of_nat (nat (1000000 - sint i))) = 1000000"
    using le by (simp add: count)
  then have "i + of_nat (nat (1000000 - sint i)) = 1000000"
    by (intro signed_word_eqI) simp
  moreover have "delay_loop i = 1000000"
  proof (cases "i <s 1000000")
    case True
    then show ?thesis by (rule delay_loop_less)
  next
    case False
    with le have "sint i = sint (1000000 :: s32)"
      by (simp add: word_sless_alt)
    then have "i = 1000000" by (rule signed_word_eqI)
    then show ?thesis by (simp add: delay_loop_ge)
  qed
  ultimately show ?thesis
    by (simp add: funpow_inc count)
qed

theorem delay_loop_iterations_witness:
  "(0 :: s32) \<le>s 1000000 \<and> delay_loop 0 = ((\<lambda>j. j + 1) ^^ 1000000) 0 \<and>
   sint (((\<lambda>j :: s32. j + 1) ^^ 999999) 0) = 999999"
proof -
  have le: "(0 :: s32) \<le>s 1000000"
    by (simp add: word_sle_eq)
  from delay_loop_iterations [OF le] have
    "delay_loop 0 = ((\<lambda>j. j + 1) ^^ 1000000) 0"
    "\<forall>k \<le> 1000000. sint (((\<lambda>j :: s32. j + 1) ^^ k) 0) = int k"
    by simp_all
  from this(1) this(2) [rule_format, of 999999] le show ?thesis
    by simp
qed

end
