(* ===== verification/Main_Loop.thy ===== *)
theory Main_Loop
  imports Print Delay
begin

text \<open>
  The program: the key code of \<open>src/firmware/main.c\<close>, line 27, and
  \<open>main\<close>, lines 29 to 40.  The strings live in a read-only memory image
  and \<open>main\<close> passes their addresses to \<open>print\<close>; the state of \<open>main\<close> is
  the machine and the loop counter \<open>i\<close>.  The endless loop is given three
  ways, which the lemmas relate: the function \<open>main\<close> itself, which never
  returns a value; its first \<open>n\<close> iterations \<open>main_iter\<close>, which is what an
  observer with a bounded window sees; and the loop heads \<open>reach\<close> that a run
  passes, for invariants.
\<close>

section \<open>Definitions\<close>

text \<open>The string literals of \<open>main\<close> and the key code of line 27.\<close>

definition banner :: "u8 list" where
  "banner = c_literal ''\<newline>Pico-ISP Test\<newline>''"

definition label_text :: "u8 list" where
  "label_text = c_literal ''Current Key Code is: ''"

definition key_code_01 :: "u8 list" where
  "key_code_01 = c_literal ''01''"

definition newlines :: "u8 list" where
  "newlines = c_literal ''\<newline>\<newline>''"

text \<open>What one iteration writes, for a key code \<open>key\<close>.\<close>

definition period_text :: "u8 list \<Rightarrow> u8 list" where
  "period_text key = banner @ label_text @ key @ newlines"

text \<open>
  The program image: the read-only memory with the four strings, the
  addresses the compiler gave the three literals of \<open>main\<close>, and the value of
  the global pointer \<open>key_code\<close>.
\<close>

record image =
  rodata :: memory
  lit_banner :: u32
  lit_label :: u32
  lit_newlines :: u32
  key_code :: u32

definition image_ok :: "image \<Rightarrow> u8 list \<Rightarrow> bool" where
  "image_ok img key \<longleftrightarrow>
     cstring_at (rodata img) (lit_banner img) banner \<and>
     cstring_at (rodata img) (lit_label img) label_text \<and>
     cstring_at (rodata img) (key_code img) key \<and>
     cstring_at (rodata img) (lit_newlines img) newlines"

text \<open>
  An image with the three literals laid out one after the other from
  \<open>0x1000\<close> and the key code after them, in a memory that is otherwise
  \<open>0xFF\<close>.
\<close>

definition demo_image :: "u8 list \<Rightarrow> image" where
  "demo_image key =
     \<lparr>rodata = place (place (place (place (\<lambda>a. 0xFF)
                  0x1000 banner) 0x1010 label_text) 0x1026 newlines) 0x1029 key,
      lit_banner = 0x1000, lit_label = 0x1010, lit_newlines = 0x1026, key_code = 0x1029\<rparr>"

text \<open>The state of \<open>main\<close>: the machine and the local variable \<open>i\<close>.\<close>

record 'd frame =
  mach :: "'d machine"
  var_i :: s32

text \<open>The frame at reset: nothing sent yet, \<open>i\<close> not yet assigned.\<close>

definition boot :: "'d \<Rightarrow> 'd frame" where
  "boot d = \<lparr>mach = \<lparr>dev = d, trace = []\<rparr>, var_i = 0\<rparr>"

text \<open>
  The body of \<open>for (;;)\<close>, lines 34 to 38.  The delay loop makes no
  access; what it does to the world is that time passes, one step of the
  device for each time its body runs.
\<close>

definition main_body :: "'d platform \<Rightarrow> image \<Rightarrow> 'd frame \<Rightarrow> 'd frame option" where
  "main_body P img s =
     do { m1 \<leftarrow> print P (rodata img) (lit_banner img) (mach s);
          m2 \<leftarrow> print P (rodata img) (lit_label img) m1;
          m3 \<leftarrow> print P (rodata img) (key_code img) m2;
          m4 \<leftarrow> print P (rodata img) (lit_newlines img) m3;
          Some \<lparr>mach = idle P (delay_ticks 0) m4, var_i = delay\<rparr> }"

text \<open>\<open>main\<close>: the body, forever.  The result would be the exit status.\<close>

partial_function (option) main :: "'d platform \<Rightarrow> image \<Rightarrow> 'd frame \<Rightarrow> int option" where
  "main P img s = do { s' \<leftarrow> main_body P img s; main P img s' }"

text \<open>The first \<open>n\<close> iterations, for an observer with a bounded window.\<close>

primrec main_iter :: "'d platform \<Rightarrow> image \<Rightarrow> nat \<Rightarrow> 'd frame \<Rightarrow> 'd frame option" where
  "main_iter P img 0 s = Some s"
| "main_iter P img (Suc n) s = do { s' \<leftarrow> main_body P img s; main_iter P img n s' }"

text \<open>The states at the head of the loop that a run from \<open>s0\<close> passes.\<close>

inductive reach :: "'d platform \<Rightarrow> image \<Rightarrow> 'd frame \<Rightarrow> 'd frame \<Rightarrow> bool"
  for P img s0 where
  reach_start: "reach P img s0 s0"
| reach_iter: "reach P img s0 s \<Longrightarrow> main_body P img s = Some s' \<Longrightarrow> reach P img s0 s'"

code_pred (modes: i \<Rightarrow> i \<Rightarrow> i \<Rightarrow> o \<Rightarrow> bool) reach .

section \<open>Lemmas\<close>

lemma texts_eval:
  "banner = [0x0A, 0x50, 0x69, 0x63, 0x6F, 0x2D, 0x49, 0x53, 0x50, 0x20, 0x54, 0x65, 0x73, 0x74, 0x0A]"
  "label_text = [0x43, 0x75, 0x72, 0x72, 0x65, 0x6E, 0x74, 0x20, 0x4B, 0x65, 0x79, 0x20,
                 0x43, 0x6F, 0x64, 0x65, 0x20, 0x69, 0x73, 0x3A, 0x20]"
  "key_code_01 = [0x30, 0x31]"
  "newlines = [0x0A, 0x0A]"
  by (simp_all add: banner_def label_text_def key_code_01_def newlines_def)

lemma texts_nonzero [simp]:
  "0 \<notin> set banner" "0 \<notin> set label_text" "0 \<notin> set key_code_01" "0 \<notin> set newlines"
  by (simp_all add: texts_eval)

lemma texts_length [simp]:
  "length banner = 15" "length label_text = 21" "length key_code_01 = 2" "length newlines = 2"
  by (simp_all add: texts_eval)

lemma image_ok_demo:
  assumes "0 \<notin> set key" and "length key < 2 ^ 32 - 0x102A"
  shows "image_ok (demo_image key) key"
proof -
  from assms(2) have len: "length key < 2 ^ 32 - 1" "unat (0x1029 :: u32) + length key < 2 ^ 32"
    by simp_all
  then show ?thesis
    using assms(1)
    by (simp add: image_ok_def demo_image_def cstring_at_place cstring_at_place_other)
qed

lemma image_ok_demo_01 [simp]: "image_ok (demo_image key_code_01) key_code_01"
  by (rule image_ok_demo) simp_all


lemma period_text_01:
  "period_text key_code_01 =
     c_literal ''\<newline>Pico-ISP Test\<newline>Current Key Code is: 01\<newline>\<newline>''"
  by (simp add: period_text_def banner_def label_text_def key_code_01_def newlines_def)

text \<open>One iteration is one \<open>puts\<close> of the period text, then the delay.\<close>

lemma main_body_puts:
  assumes "image_ok img key"
  shows "main_body P img s =
     do { m \<leftarrow> puts P (period_text key) (mach s);
          Some \<lparr>mach = idle P 1000000 m, var_i = delay\<rparr> }"
proof -
  from assms have
    "print P (rodata img) (lit_banner img) = puts P banner"
    "print P (rodata img) (lit_label img) = puts P label_text"
    "print P (rodata img) (key_code img) = puts P key"
    "print P (rodata img) (lit_newlines img) = puts P newlines"
    by (auto simp add: image_ok_def intro!: ext print_cstring)
  then show ?thesis
    by (simp add: main_body_def period_text_def puts_append)
qed

text \<open>
  The local \<open>i\<close> is not initialised at its declaration; the body of the loop
  assigns it before it reads it, so the value it has on entry is of no
  consequence.
\<close>

lemma main_body_ignores_i: "main_body P img (s\<lparr>var_i := v\<rparr>) = main_body P img s"
  by (simp add: main_body_def)

lemma main_body_SomeD:
  assumes "image_ok img key" and "main_body P img s = Some s'"
  shows "\<exists>m. puts P (period_text key) (mach s) = Some m \<and> mach s' = idle P 1000000 m"
    and "var_i s' = 1000000"
  using assms by (auto simp add: main_body_puts bind_eq_Some_conv)

lemma main_body_tx_bytes:
  assumes "image_ok img key" and "main_body P img s = Some s'"
  shows "tx_bytes (trace (mach s')) = tx_bytes (trace (mach s)) @ period_text key"
  using main_body_SomeD(1) [OF assms] by (auto simp add: puts_tx_bytes)

lemma main_body_responsive:
  assumes "responsive P I" and "I (dev (mach s))" and "image_ok img key"
  shows "\<exists>s'. main_body P img s = Some s' \<and> I (dev (mach s'))"
proof -
  from assms(1,2) obtain m where "puts P (period_text key) (mach s) = Some m" and "I (dev m)"
    using puts_responsive by blast
  with assms(3) responsive_idle [OF assms(1), of m 1000000] show ?thesis
    by (simp add: main_body_puts)
qed

lemma main_body_disciplined:
  assumes "main_body P img s = Some s'"
  shows "disciplined c (trace (mach s')) \<longleftrightarrow> disciplined c (trace (mach s))"
  using assms
  by (auto simp add: main_body_def bind_eq_Some_conv print_disciplined)

text \<open>Iterations compose.\<close>

lemma main_iter_add:
  "main_iter P img (n + k) s = do { s' \<leftarrow> main_iter P img n s; main_iter P img k s' }"
  by (induction n arbitrary: s) (simp_all cong: Option.bind_cong)

lemma main_iter_Suc_right:
  "main_iter P img (Suc n) s = do { s' \<leftarrow> main_iter P img n s; main_body P img s' }"
  using main_iter_add [of P img n 1 s] by simp

lemma main_iter_tx_bytes:
  assumes "image_ok img key"
  shows "main_iter P img n s = Some s' \<Longrightarrow>
     tx_bytes (trace (mach s')) = tx_bytes (trace (mach s)) @ concat (replicate n (period_text key))"
proof (induction n arbitrary: s)
  case 0
  then show ?case by simp
next
  case (Suc n)
  then obtain s1 where s1: "main_body P img s = Some s1" and "main_iter P img n s1 = Some s'"
    by (auto simp add: bind_eq_Some_conv)
  with Suc.IH [of s1] main_body_tx_bytes [OF assms s1] show ?case
    by simp
qed

lemma main_iter_responsive:
  assumes "responsive P I" and "image_ok img key"
  shows "I (dev (mach s)) \<Longrightarrow> \<exists>s'. main_iter P img n s = Some s' \<and> I (dev (mach s'))"
proof (induction n arbitrary: s)
  case 0
  then show ?case by simp
next
  case (Suc n)
  with assms obtain s1 where "main_body P img s = Some s1" and "I (dev (mach s1))"
    using main_body_responsive by blast
  then show ?case
    using Suc.IH [of s1] by simp
qed

lemma main_iter_keeps:
  assumes "responsive P I" and "image_ok img key" and "I (dev (mach s))"
    and "main_iter P img n s = Some s'"
  shows "I (dev (mach s'))"
  using main_iter_responsive [OF assms(1,2,3), of n] assms(4) by simp

text \<open>The reachable loop heads are the results of the bounded runs.\<close>

inductive_cases reach_cases: "reach P img s0 s"

lemma reach_iff_main_iter: "reach P img s0 s \<longleftrightarrow> (\<exists>n. main_iter P img n s0 = Some s)"
proof
  assume "reach P img s0 s"
  then show "\<exists>n. main_iter P img n s0 = Some s"
  proof (induction rule: reach.induct)
    case reach_start
    have "main_iter P img 0 s0 = Some s0" by simp
    then show ?case ..
  next
    case (reach_iter s s')
    then obtain n where "main_iter P img n s0 = Some s" by blast
    with reach_iter.hyps(2) have "main_iter P img (Suc n) s0 = Some s'"
      by (simp add: main_iter_Suc_right del: main_iter.simps)
    then show ?case ..
  qed
next
  assume "\<exists>n. main_iter P img n s0 = Some s"
  then obtain n where "main_iter P img n s0 = Some s" ..
  then show "reach P img s0 s"
  proof (induction n arbitrary: s)
    case 0
    then show ?case by (simp add: reach_start)
  next
    case (Suc n)
    then obtain s1 where "main_iter P img n s0 = Some s1" and "main_body P img s1 = Some s"
      by (auto simp add: main_iter_Suc_right bind_eq_Some_conv simp del: main_iter.simps)
    then show ?case
      using Suc.IH by (blast intro: reach_iter)
  qed
qed

lemma reach_trans: "reach P img s1 s2 \<Longrightarrow> reach P img s0 s1 \<Longrightarrow> reach P img s0 s2"
  by (induction rule: reach.induct) (auto intro: reach.intros)


lemma boot_simps [simp]:
  "dev (mach (boot d)) = d" "trace (mach (boot d)) = []" "var_i (boot d) = 0"
  by (simp_all add: boot_def)

lemma main_never_Some: "main P img s \<noteq> Some r"
proof
  assume ret: "main P img s = Some r"
  let ?Q = "\<lambda>(x :: ('a platform \<times> image) \<times> 'a frame) (r :: int). False"
  have "?Q ((P, img), s) r"
  proof (rule main.raw_induct [OF _ ret])
    fix f and P :: "'a platform" and img s r
    assume IH: "\<And>P img s r. f P img s = Some r \<Longrightarrow> ?Q ((P, img), s) r"
      and eq: "do { s' \<leftarrow> main_body P img s; f P img s' } = Some r"
    from eq obtain s' where "f P img s' = Some r"
      by (auto simp add: bind_eq_Some_conv)
    then show "?Q ((P, img), s) r" by (rule IH)
  qed
  then show False by simp
qed

section \<open>The contract of the main loop\<close>

text \<open>
  C14.  With the key code \<open>"01"\<close>, one iteration of the main loop that
  completes has sent exactly the bytes of
  \<open>"\nPico-ISP Test\nCurrent Key Code is: 01\n\n"\<close>, in this order.
\<close>

theorem main_body_output:
  assumes "image_ok img key_code_01" and "main_body P img s = Some s'"
  shows "tx_bytes (trace (mach s')) = tx_bytes (trace (mach s)) @
     c_literal ''\<newline>Pico-ISP Test\<newline>Current Key Code is: 01\<newline>\<newline>''"
  using main_body_tx_bytes [OF assms] by (simp add: period_text_01)

theorem main_body_output_witness:
  "image_ok (demo_image key_code_01) key_code_01 \<and>
   (\<exists>s'. main_body (uartlite False 3) (demo_image key_code_01) (boot uart_idle) = Some s' \<and>
      tx_bytes (trace (mach s')) =
        c_literal ''\<newline>Pico-ISP Test\<newline>Current Key Code is: 01\<newline>\<newline>'')"
proof -
  obtain s' where run:
    "main_body (uartlite False 3) (demo_image key_code_01) (boot uart_idle) = Some s'"
    using main_body_responsive [OF responsive_uartlite _ image_ok_demo_01, of "boot uart_idle"]
    by auto
  from main_body_output [OF image_ok_demo_01 run] run show ?thesis
    by auto
qed

text \<open>
  C15.  The output is periodic: \<open>n\<close> completed iterations have sent \<open>n\<close>
  copies of the same period text, whatever the device did in between.
\<close>

theorem main_iter_periodic:
  assumes "image_ok img key" and "main_iter P img n s = Some s'"
  shows "tx_bytes (trace (mach s')) =
     tx_bytes (trace (mach s)) @ concat (replicate n (period_text key))"
  using main_iter_tx_bytes [OF assms] by simp

theorem main_iter_periodic_witness:
  "image_ok (demo_image key_code_01) key_code_01 \<and>
   (\<exists>s'. main_iter (uartlite True 5) (demo_image key_code_01) 3 (boot full_uart) = Some s' \<and>
      tx_bytes (trace (mach s')) =
        period_text key_code_01 @ period_text key_code_01 @ period_text key_code_01)"
proof -
  obtain s' where run:
    "main_iter (uartlite True 5) (demo_image key_code_01) 3 (boot full_uart) = Some s'"
    using main_iter_responsive [OF responsive_uartlite image_ok_demo_01, of "boot full_uart" True 5 3]
    by auto
  from main_iter_periodic [OF image_ok_demo_01 run] run show ?thesis
    by (auto simp add: numeral_3_eq_3)
qed

text \<open>
  \<open>main\<close> has no \<open>return\<close> and its loop has no exit, so as a function
  it has no result, whatever the device does.  Whether the program then goes
  on printing or hangs in the driver is what the theorems on \<open>main_iter\<close>
  say.
\<close>

lemma main_never_returns: "main P img s = None"
  using main_never_Some [of P img s] by (cases "main P img s") auto

text \<open>
  C17.  Changing the key code changes only the key code in the output: for
  any key the bytes of one iteration are the banner, the label, the key and
  two newlines, and the delay leaves \<open>i\<close> at one million.
\<close>

theorem main_body_key_code:
  assumes "image_ok img key" and "main_body P img s = Some s'"
  shows "tx_bytes (trace (mach s')) =
           tx_bytes (trace (mach s)) @ banner @ label_text @ key @ newlines \<and>
         var_i s' = 1000000"
  using main_body_tx_bytes [OF assms] main_body_SomeD(2) [OF assms]
  by (simp add: period_text_def)

theorem main_body_key_code_witness:
  "image_ok (demo_image (c_literal ''A7-F3'')) (c_literal ''A7-F3'') \<and>
   (\<exists>s'. main_body (uartlite False 3) (demo_image (c_literal ''A7-F3'')) (boot uart_idle) = Some s' \<and>
      tx_bytes (trace (mach s')) = banner @ label_text @ c_literal ''A7-F3'' @ newlines \<and>
      var_i s' = 1000000)"
proof -
  have ok: "image_ok (demo_image (c_literal ''A7-F3'')) (c_literal ''A7-F3'')"
    by (rule image_ok_demo) simp_all
  obtain s' where run:
    "main_body (uartlite False 3) (demo_image (c_literal ''A7-F3'')) (boot uart_idle) = Some s'"
    using main_body_responsive [OF responsive_uartlite _ ok, of "boot uart_idle"]
    by auto
  from main_body_key_code [OF ok run] ok run show ?thesis
    by auto
qed

text \<open>
  The polling discipline is an invariant of the main loop: at every loop
  head that a run reaches the trace is disciplined.
\<close>

lemma reach_disciplined:
  assumes "reach P img s0 s" and "disciplined c (trace (mach s0))"
  shows "disciplined c (trace (mach s))"
  using assms
proof (induction rule: reach.induct)
  case reach_start
  then show ?case .
next
  case (reach_iter s s')
  then show ?case
    by (simp add: main_body_disciplined)
qed

text \<open>
  C19.  On a responsive device every iteration completes: for each \<open>n\<close>
  the firmware reaches the head of the loop for the \<open>n\<close>-th time, so an
  observer sees output without end.
\<close>

theorem main_iter_progress:
  assumes "responsive P I" and "I (dev (mach s))" and "image_ok img key"
  shows "\<exists>s'. main_iter P img n s = Some s' \<and> I (dev (mach s')) \<and>
     length (tx_bytes (trace (mach s'))) =
       length (tx_bytes (trace (mach s))) + n * length (period_text key)"
proof -
  from assms obtain s' where run: "main_iter P img n s = Some s'" and "I (dev (mach s'))"
    using main_iter_responsive by blast
  moreover have "length (concat (replicate n xs)) = n * length xs" for xs :: "u8 list"
    by (induction n) simp_all
  ultimately show ?thesis
    using main_iter_tx_bytes [OF assms(3) run]
    by (auto simp del: length_tx_bytes)
qed

theorem main_iter_progress_witness:
  "responsive (uartlite False 3) uart_ok \<and> uart_ok full_uart \<and>
   image_ok (demo_image key_code_01) key_code_01 \<and>
   (\<exists>s'. main_iter (uartlite False 3) (demo_image key_code_01) 1000 (boot full_uart) = Some s' \<and>
      uart_ok (dev (mach s')) \<and> length (tx_bytes (trace (mach s'))) = 40000)"
proof -
  have ok: "uart_ok (dev (mach (boot full_uart)))"
    by (simp add: boot_def)
  from main_iter_progress [OF responsive_uartlite ok image_ok_demo_01, of False 3 1000]
  show ?thesis
    by (simp add: responsive_uartlite boot_def period_text_def)
qed


text \<open>
  C21.  A transmitter whose full bit never clears halts the program in its
  first iteration: the body does not complete, so no later iteration starts.
\<close>

theorem main_body_hangs:
  assumes "\<forall>n. tx_full (stat_at P (dev (mach s)) n)" and "image_ok img key"
  shows "main_body P img s = None \<and> main_iter P img (Suc n) s = None"
proof -
  from assms(1) have "putchar P 0x0A (mach s) = None"
    by (simp add: putchar_None_iff poll_tx_None_iff)
  then have "puts P (period_text key) (mach s) = None"
    by (simp add: period_text_def texts_eval)
  with assms(2) show ?thesis
    by (simp add: main_body_puts)
qed

theorem main_body_hangs_witness:
  "(\<forall>n. tx_full (stat_at (stuck_uart False) () n)) \<and>
   image_ok (demo_image key_code_01) key_code_01 \<and>
   main_body (stuck_uart False) (demo_image key_code_01) (boot ()) = None \<and>
   main_iter (stuck_uart False) (demo_image key_code_01) 5 (boot ()) = None"
proof -
  have stuck: "\<forall>n. tx_full (stat_at (stuck_uart False) (dev (mach (boot ()))) n)"
    by simp
  from main_body_hangs [OF stuck image_ok_demo_01, of 4] show ?thesis
    by simp
qed

end
