(* ===== verification/Steps.thy ===== *)
theory Steps
  imports Main_Loop
begin

text \<open>
  The program of \<open>src/firmware/main.c\<close> as a machine that makes one step at
  a time: a step is one test of a loop condition, one volatile access, or one
  assignment to \<open>i\<close>.  A configuration is a program point together with the
  frame of \<open>main\<close>.  This theory holds the machine and what can be said of
  its runs step by step, on any device and also inside a call that never
  returns: the configurations are well formed, the trace holds the driver's
  two kinds of access only and keeps the polling discipline, a transmitter
  that stays full or jams keeps the machine in the polling loop, and the
  pause takes a fixed number of steps.  On the bus the accesses are reads
  and writes at the two addresses of the register map, each write directly
  after a read that found the full bit clear.  Two runs side by side show
  what has no effect on a run: the value of \<open>i\<close> before it is assigned,
  and the signedness of \<open>char\<close> for a transmitter that takes bytes.  The
  theory \<open>Simulation\<close> ties the machine to the functional model.
\<close>

section \<open>Program points\<close>

text \<open>The four calls of \<open>print\<close> in the body of the loop, lines 34 to 37.\<close>

datatype site = Banner | Label | Key | Newlines

fun site_ptr :: "image \<Rightarrow> site \<Rightarrow> u32" where
  "site_ptr img Banner = lit_banner img"
| "site_ptr img Label = lit_label img"
| "site_ptr img Key = key_code img"
| "site_ptr img Newlines = lit_newlines img"

text \<open>
  The program points: before the call at a site; in \<open>print\<close> at the test of
  \<open>*str\<close>; in \<open>putchar\<close> at the load of the status register and at the
  store to the transmit register, with the argument \<open>ch\<close>; at \<open>i = 0\<close>; and
  at the test \<open>i < 1000000\<close>.  The points inside a call carry the site it
  returns to and the pointer \<open>str\<close>.
\<close>

datatype ctl =
    Enter site
  | Test site u32
  | Poll site u32 u8
  | Send site u32 u8
  | Init
  | Count

text \<open>Where \<open>print\<close> returns to.\<close>

fun leave :: "site \<Rightarrow> ctl" where
  "leave Banner = Enter Label"
| "leave Label = Enter Key"
| "leave Key = Enter Newlines"
| "leave Newlines = Init"

type_synonym 'd config = "ctl \<times> 'd frame"

text \<open>
  The string a site prints when the key code is \<open>key\<close>, and what the
  iteration has printed before it comes to the site.
\<close>

fun site_text :: "u8 list \<Rightarrow> site \<Rightarrow> u8 list" where
  "site_text key Banner = banner"
| "site_text key Label = label_text"
| "site_text key Key = key"
| "site_text key Newlines = newlines"

fun sent_before :: "u8 list \<Rightarrow> site \<Rightarrow> u8 list" where
  "sent_before key Banner = []"
| "sent_before key Label = banner"
| "sent_before key Key = banner @ label_text"
| "sent_before key Newlines = banner @ label_text @ key"

section \<open>The step function\<close>

fun step :: "'d platform \<Rightarrow> image \<Rightarrow> 'd config \<Rightarrow> 'd config" where
  "step P img (Enter k, s) = (Test k (site_ptr img k), s)"
| "step P img (Test k p, s) =
     (if rodata img p \<noteq> 0 then (Poll k p (rodata img p), s) else (leave k, s))"
| "step P img (Poll k p ch, s) =
     (case vload P STAT (mach s) of
        (v, m') \<Rightarrow> (if tx_full v then Poll k p ch else Send k p ch, s\<lparr>mach := m'\<rparr>))"
| "step P img (Send k p ch, s) =
     (Test k (p + 1), s\<lparr>mach := vstore P TX (char_to_u32 (char_signed P) ch) (mach s)\<rparr>)"
| "step P img (Init, s) = (Count, s\<lparr>var_i := 0\<rparr>)"
| "step P img (Count, s) =
     (if var_i s <s 1000000
      then (Count, s\<lparr>mach := idle P 1 (mach s), var_i := var_i s + 1\<rparr>)
      else (Enter Banner, s))"

text \<open>The configurations a run from \<open>c0\<close> passes.\<close>

inductive run :: "'d platform \<Rightarrow> image \<Rightarrow> 'd config \<Rightarrow> 'd config \<Rightarrow> bool"
  for P img c0 where
  run_start: "run P img c0 c0"
| run_step: "run P img c0 c \<Longrightarrow> run P img c0 (step P img c)"

code_pred (modes: i \<Rightarrow> i \<Rightarrow> i \<Rightarrow> o \<Rightarrow> bool) run .

text \<open>The program point at which the next step stores to the transmit register.\<close>

fun at_send :: "ctl \<Rightarrow> bool" where
  "at_send (Send k p ch) = True"
| "at_send c = False"

text \<open>
  Well-formed configurations.  Inside \<open>print\<close> the pointer \<open>str\<close> is at an
  offset into the string of the site, the terminator included; inside
  \<open>putchar\<close> the argument \<open>ch\<close> is the byte of the string at that offset
  and is not the terminator; in the delay loop the counter is between 0 and
  one million.
\<close>

definition str_off :: "image \<Rightarrow> site \<Rightarrow> u32 \<Rightarrow> nat" where
  "str_off img k p = unat (p - site_ptr img k)"

fun wf_conf :: "image \<Rightarrow> u8 list \<Rightarrow> 'd config \<Rightarrow> bool" where
  "wf_conf img key (Test k p, f) \<longleftrightarrow> str_off img k p \<le> length (site_text key k)"
| "wf_conf img key (Poll k p ch, f) \<longleftrightarrow>
     str_off img k p < length (site_text key k) \<and> ch = site_text key k ! str_off img k p \<and> ch \<noteq> 0"
| "wf_conf img key (Send k p ch, f) \<longleftrightarrow>
     str_off img k p < length (site_text key k) \<and> ch = site_text key k ! str_off img k p \<and> ch \<noteq> 0"
| "wf_conf img key (Count, f) \<longleftrightarrow> 0 \<le>s var_i f \<and> var_i f \<le>s 1000000"
| "wf_conf img key (Enter k, f) \<longleftrightarrow> True"
| "wf_conf img key (Init, f) \<longleftrightarrow> True"

text \<open>
  What a jammed transmitter does to a run from \<open>c\<close>: the device stays
  jammed, the program never comes to the store, nothing more is sent, and a
  polling loop that has been entered is never left.
\<close>

definition held :: "'d platform \<Rightarrow> ('d \<Rightarrow> bool) \<Rightarrow> 'd config \<Rightarrow> 'd config \<Rightarrow> bool" where
  "held P J c c' \<longleftrightarrow>
     J (dev (mach (snd c'))) \<and> \<not> at_send (fst c') \<and>
     tx_words (trace (mach (snd c'))) = tx_words (trace (mach (snd c))) \<and>
     (\<forall>k p ch. fst c = Poll k p ch \<longrightarrow> fst c' = fst c)"

text \<open>
  Two configurations that differ at most in the value of \<open>i\<close>, and there
  only where the program is not about to read it: the test \<open>i < 1000000\<close>
  is the one point at which \<open>i\<close> is read.
\<close>

definition same_but_i :: "'d config \<Rightarrow> 'd config \<Rightarrow> bool" where
  "same_but_i c c' \<longleftrightarrow>
     fst c = fst c' \<and> mach (snd c) = mach (snd c') \<and>
     (fst c = Count \<longrightarrow> var_i (snd c) = var_i (snd c'))"

text \<open>
  Two configurations that a transmitter cannot tell apart: the same program
  point, the same \<open>i\<close>, the same state of the device and the same bytes
  sent; the words stored may differ above their low bytes.
\<close>

definition same_line :: "'d config \<Rightarrow> 'd config \<Rightarrow> bool" where
  "same_line c c' \<longleftrightarrow>
     fst c = fst c' \<and> var_i (snd c) = var_i (snd c') \<and>
     dev (mach (snd c)) = dev (mach (snd c')) \<and>
     tx_bytes (trace (mach (snd c))) = tx_bytes (trace (mach (snd c')))"

section \<open>Runs\<close>

lemma frame_update_all [simp]:
  "(s :: 'd frame)\<lparr>mach := m, var_i := v\<rparr> = \<lparr>mach = m, var_i = v\<rparr>"
  by (cases s) simp

lemma run_iff_funpow: "run P img c0 c \<longleftrightarrow> (\<exists>n. c = (step P img ^^ n) c0)"
proof
  assume "run P img c0 c"
  then show "\<exists>n. c = (step P img ^^ n) c0"
  proof (induction rule: run.induct)
    case run_start
    show ?case by (rule exI [of _ 0]) simp
  next
    case (run_step c)
    from run_step.IH obtain n where "c = (step P img ^^ n) c0" ..
    then show ?case by (intro exI [of _ "Suc n"]) simp
  qed
next
  assume "\<exists>n. c = (step P img ^^ n) c0"
  then obtain n where "c = (step P img ^^ n) c0" ..
  then show "run P img c0 c"
    by (induction n arbitrary: c) (auto intro: run.intros)
qed

lemma run_funpowI: "(step P img ^^ n) c0 = c \<Longrightarrow> run P img c0 c"
  unfolding run_iff_funpow by blast

lemma run_trans: "run P img c1 c2 \<Longrightarrow> run P img c0 c1 \<Longrightarrow> run P img c0 c2"
  by (induction rule: run.induct) (auto intro: run.intros)

lemma run_step1: "run P img c0 (step P img c0)"
  by (intro run.intros)

lemma run_step_left: "run P img (step P img c0) c \<Longrightarrow> run P img c0 c"
  by (rule run_trans [OF _ run_step1])

lemma run_invariant:
  assumes "run P img c0 c" and "I c0" and "\<And>c. I c \<Longrightarrow> I (step P img c)"
  shows "I c"
  using assms by (induction rule: run.induct) simp_all

section \<open>Well-formed configurations\<close>

lemma image_ok_site:
  "image_ok img key \<Longrightarrow> cstring_at (rodata img) (site_ptr img k) (site_text key k)"
  by (cases k) (simp_all add: image_ok_def)

lemma str_off_start [simp]: "str_off img k (site_ptr img k) = 0"
  by (simp add: str_off_def)

lemma str_off_ptr: "site_ptr img k + of_nat (str_off img k p) = p"
  by (simp add: str_off_def)

lemma str_off_succ:
  "str_off img k p < n \<Longrightarrow> n < 2 ^ 32 \<Longrightarrow> str_off img k (p + 1) = Suc (str_off img k p)"
proof -
  assume "str_off img k p < n" and "n < 2 ^ 32"
  then have "unat (p - site_ptr img k) + 1 < 2 ^ 32"
    by (simp add: str_off_def)
  from unat_add_of_nat [OF this] have "unat (p - site_ptr img k + 1) = unat (p - site_ptr img k) + 1"
    by simp
  moreover have "p + 1 - site_ptr img k = p - site_ptr img k + 1"
    by simp
  ultimately show ?thesis
    by (simp only: str_off_def Suc_eq_plus1)
qed

lemma wf_test:
  assumes "image_ok img key" and "str_off img k p \<le> length (site_text key k)"
  shows "wf_conf img key (step P img (Test k p, f))"
proof (cases "rodata img p = 0")
  case True
  then show ?thesis by (cases k) simp_all
next
  case False
  note str = image_ok_site [OF assms(1), of k]
  from False cstring_at_terminator [OF str] have "str_off img k p \<noteq> length (site_text key k)"
    by (metis str_off_ptr)
  with assms(2) have lt: "str_off img k p < length (site_text key k)"
    by simp
  from cstring_at_nth [OF str lt] have "rodata img p = site_text key k ! str_off img k p"
    by (simp add: str_off_ptr)
  with lt False show ?thesis by simp
qed

lemma wf_count:
  assumes "0 \<le>s var_i f" and "var_i f \<le>s 1000000"
  shows "wf_conf img key (step P img (Count, f))"
proof (cases "var_i f <s 1000000")
  case True
  then have "sint (var_i f + 1) = sint (var_i f) + 1"
    by (intro sint_less_numeral_succ) (simp add: word_sless_alt)
  with True assms show ?thesis
    by (simp add: word_sless_alt word_sle_eq)
next
  case False
  then show ?thesis by simp
qed

lemma wf_step:
  assumes "image_ok img key" and "wf_conf img key c"
  shows "wf_conf img key (step P img c)"
proof (cases c)
  case (Pair ctl f)
  from image_ok_site [OF assms(1)] have len: "length (site_text key k) < 2 ^ 32" for k
    by (rule cstring_at_length)
  show ?thesis
  proof (cases ctl)
    case (Test k p)
    with Pair assms show ?thesis by (simp only: wf_test wf_conf.simps)
  next
    case (Send k p ch)
    with Pair assms(2) str_off_succ [OF _ len [of k], of img k p] show ?thesis by simp
  next
    case Count
    with Pair assms(2) show ?thesis by (simp only: wf_count wf_conf.simps)
  qed (use Pair assms(2) in \<open>simp_all add: vload_def Let_def word_sle_eq\<close>)
qed

section \<open>The polling discipline at every program point\<close>

lemma not_at_send_leave [simp]: "\<not> at_send (leave k)"
  by (cases k) simp_all

lemma disciplined_step:
  assumes "disciplined cr (trace (mach (snd c))) \<and>
    (at_send (fst c) \<longrightarrow> tx_credit cr (trace (mach (snd c))))"
  shows "disciplined cr (trace (mach (snd (step P img c)))) \<and>
    (at_send (fst (step P img c)) \<longrightarrow> tx_credit cr (trace (mach (snd (step P img c)))))"
proof (cases c)
  case (Pair ctl f)
  with assms show ?thesis
    by (cases ctl) (simp_all add: vload_def Let_def)
qed

section \<open>The accesses of a step\<close>

lemma step_trace:
  "\<exists>es. trace (mach (snd (step P img c))) = trace (mach (snd c)) @ es \<and> driver_events es"
proof (cases c)
  case (Pair ctl f)
  then show ?thesis
    by (cases ctl) (simp_all add: vload_def Let_def)
qed

lemma accesses_step:
  assumes "\<exists>es. trace (mach (snd c)) = t @ es \<and> driver_events es"
  shows "\<exists>es. trace (mach (snd (step P img c))) = t @ es \<and> driver_events es"
proof -
  from assms obtain es where "trace (mach (snd c)) = t @ es" "driver_events es"
    by blast
  moreover from step_trace [of P img c] obtain es'
    where "trace (mach (snd (step P img c))) = trace (mach (snd c)) @ es'" "driver_events es'"
    by blast
  ultimately have "trace (mach (snd (step P img c))) = t @ (es @ es') \<and> driver_events (es @ es')"
    by simp
  then show ?thesis ..
qed

text \<open>
  The same on the bus: a step adds reads of \<open>0x40000008\<close> and writes of
  \<open>0x40000004\<close> only, and a write only directly after a read that found
  bit 3 clear.
\<close>

lemma handshake_step:
  assumes "\<exists>es. trace (mach (snd c)) = t @ es \<and> handshake False (map on_bus es) \<and>
    (at_send (fst c) \<longrightarrow> ready False (map on_bus es))"
  shows "\<exists>es. trace (mach (snd (step P img c))) = t @ es \<and> handshake False (map on_bus es) \<and>
    (at_send (fst (step P img c)) \<longrightarrow> ready False (map on_bus es))"
proof -
  from assms obtain es where es: "trace (mach (snd c)) = t @ es"
    "handshake False (map on_bus es)" "at_send (fst c) \<longrightarrow> ready False (map on_bus es)"
    by blast
  obtain ctl f where c: "c = (ctl, f)"
    by (cases c)
  with es show ?thesis
    by (cases ctl) (auto simp add: vload_def Let_def tx_full_iff_bit reg_addr_values)
qed

section \<open>Two runs side by side\<close>

lemma leave_not_count [simp]: "leave k \<noteq> Count"
  by (cases k) simp_all

lemma same_but_i_step:
  assumes "same_but_i c c'"
  shows "same_but_i (step P img c) (step P img c')"
proof -
  obtain ctl f f' where c: "c = (ctl, f)" "c' = (ctl, f')"
    using assms by (cases c; cases c') (simp add: same_but_i_def)
  with assms show ?thesis
    by (cases ctl) (auto simp add: same_but_i_def vload_def Let_def split: prod.splits)
qed

lemma low_byte_onlyD:
  "low_byte_only P \<Longrightarrow> hw_store P TX (char_to_u32 sg ch) d = hw_store P TX (ucast ch) d"
  unfolding low_byte_only_def by (metis char_to_u32_low_byte)

lemma same_line_step:
  assumes "low_byte_only P" and "same_line c c'"
  shows "same_line (step P img c) (step (P\<lparr>char_signed := sg\<rparr>) img c')"
proof -
  obtain ctl f f' where c: "c = (ctl, f)" "c' = (ctl, f')"
    using assms(2) by (cases c; cases c') (simp add: same_line_def)
  note low_byte_onlyD [OF assms(1)]
  with c assms(2) show ?thesis
    by (cases ctl)
      (auto simp add: same_line_def vload_def vstore_def Let_def idle_def char_to_u32_low_byte
        split: prod.splits)
qed

section \<open>A run on the working transmitter\<close>

text \<open>
  The first steps of the program on the working transmitter, from reset with
  the demonstration image: the call of \<open>print\<close>, the test of the first
  character, one poll that finds the FIFO empty, and the store of the line
  feed.
\<close>

lemma image_ok_first_byte: "image_ok img key \<Longrightarrow> rodata img (lit_banner img) = 0x0A"
proof -
  assume "image_ok img key"
  then have "cstring_at (rodata img) (lit_banner img) banner"
    by (simp add: image_ok_def)
  then show ?thesis
    by (simp add: texts_eval(1))
qed

lemma lit_banner_demo [simp]: "lit_banner (demo_image key) = 0x1000"
  by (simp add: demo_image_def)

lemma demo_first_byte [simp]: "rodata (demo_image key_code_01) 0x1000 = 0x0A"
  using image_ok_first_byte [OF image_ok_demo_01] by simp

lemma demo_step_1: "step P (demo_image key_code_01) (Enter Banner, s) = (Test Banner 0x1000, s)"
  by simp

lemma demo_step_2:
  "step P (demo_image key_code_01) (Test Banner 0x1000, s) = (Poll Banner 0x1000 0x0A, s)"
  by simp

lemma demo_step_3:
  "step (uartlite False 3) (demo_image key_code_01) (Poll Banner 0x1000 0x0A, boot uart_idle) =
     (Send Banner 0x1000 0x0A, \<lparr>mach = \<lparr>dev = uart_idle, trace = [Load STAT 4]\<rparr>, var_i = 0\<rparr>)"
  by (simp add: boot_def vload_def Let_def uart_idle_def uart_status_def uart_tick_def fifo_depth_def)

lemma demo_step_4:
  "step (uartlite False 3) (demo_image key_code_01)
     (Send Banner 0x1000 0x0A, \<lparr>mach = \<lparr>dev = uart_idle, trace = [Load STAT 4]\<rparr>, var_i = 0\<rparr>) =
     (Test Banner 0x1001,
      \<lparr>mach = \<lparr>dev = \<lparr>txq = [0x0A], wire = [], phase = 1\<rparr>,
              trace = [Load STAT 4, Store TX 0x0A]\<rparr>, var_i = 0\<rparr>)"
  by (simp add: vstore_def char_to_u32_def uart_idle_def uart_push_def uart_tick_def fifo_depth_def)

lemmas demo_steps = demo_step_1 demo_step_2 demo_step_3 demo_step_4

lemma funpow_3_4: "(f ^^ 3) x = f (f (f x))" "(f ^^ 4) x = f (f (f (f x)))"
  by (simp_all add: eval_nat_numeral)

lemma demo_steps_3:
  "(step (uartlite False 3) (demo_image key_code_01) ^^ 3) (Enter Banner, boot uart_idle) =
     (Send Banner 0x1000 0x0A, \<lparr>mach = \<lparr>dev = uart_idle, trace = [Load STAT 4]\<rparr>, var_i = 0\<rparr>)"
  by (simp only: funpow_3_4 demo_steps)

lemma demo_steps_4:
  "(step (uartlite False 3) (demo_image key_code_01) ^^ 4) (Enter Banner, boot uart_idle) =
     (Test Banner 0x1001,
      \<lparr>mach = \<lparr>dev = \<lparr>txq = [0x0A], wire = [], phase = 1\<rparr>,
              trace = [Load STAT 4, Store TX 0x0A]\<rparr>, var_i = 0\<rparr>)"
  by (simp only: funpow_3_4 demo_steps)

lemma run_demo_3:
  "run (uartlite False 3) (demo_image key_code_01) (Enter Banner, boot uart_idle)
     (Send Banner 0x1000 0x0A, \<lparr>mach = \<lparr>dev = uart_idle, trace = [Load STAT 4]\<rparr>, var_i = 0\<rparr>)"
  unfolding run_iff_funpow by (rule exI [of _ 3]) (simp only: demo_steps_3)

lemma run_demo_4:
  "run (uartlite False 3) (demo_image key_code_01) (Enter Banner, boot uart_idle)
     (Test Banner 0x1001,
      \<lparr>mach = \<lparr>dev = \<lparr>txq = [0x0A], wire = [], phase = 1\<rparr>,
              trace = [Load STAT 4, Store TX 0x0A]\<rparr>, var_i = 0\<rparr>)"
  unfolding run_iff_funpow by (rule exI [of _ 4]) (simp only: demo_steps_4)

section \<open>What holds at every program point\<close>

text \<open>
  C26.  The polling discipline holds at every program point of every run, on
  any device, also in a run that is caught in the polling loop: the trace of
  accesses is disciplined, and whenever the program is about to store to the
  transmit register it holds a credit from a status read with the full bit
  clear.
\<close>

theorem run_disciplined:
  assumes "run P img (Enter Banner, s) c" and "disciplined cr (trace (mach s))"
  shows "disciplined cr (trace (mach (snd c))) \<and>
    (at_send (fst c) \<longrightarrow> tx_credit cr (trace (mach (snd c))))"
  using assms(1) by (rule run_invariant) (simp_all add: assms(2) disciplined_step)

theorem run_disciplined_witness:
  "run (uartlite False 3) (demo_image key_code_01) (Enter Banner, boot uart_idle)
     (Send Banner 0x1000 0x0A, \<lparr>mach = \<lparr>dev = uart_idle, trace = [Load STAT 4]\<rparr>, var_i = 0\<rparr>) \<and>
   disciplined False (trace (mach (boot uart_idle))) \<and>
   disciplined False [Load STAT 4] \<and> at_send (Send Banner 0x1000 0x0A) \<and>
   tx_credit False [Load STAT 4]"
  using run_disciplined [OF run_demo_3, of False] run_demo_3 by simp

text \<open>
  C36.  Every configuration of every run is well formed: \<open>print\<close> reads
  only bytes of the string it was given, up to and including its terminator,
  \<open>putchar\<close> is only ever called with a byte of that string that is not
  the terminator, and the counter of the delay loop stays between 0 and one
  million, so the increment never overflows.
\<close>

theorem run_wf:
  assumes "image_ok img key" and "run P img (Enter Banner, s) c"
  shows "wf_conf img key c"
  using assms(2) by (rule run_invariant) (simp_all add: wf_step [OF assms(1)])

theorem run_wf_witness:
  "image_ok (demo_image key_code_01) key_code_01 \<and>
   run (uartlite False 3) (demo_image key_code_01) (Enter Banner, boot uart_idle)
     (Send Banner 0x1000 0x0A, \<lparr>mach = \<lparr>dev = uart_idle, trace = [Load STAT 4]\<rparr>, var_i = 0\<rparr>) \<and>
   wf_conf (demo_image key_code_01) key_code_01
     (Send Banner 0x1000 0x0A, \<lparr>mach = \<lparr>dev = uart_idle, trace = [Load STAT 4]\<rparr>, var_i = 0\<rparr>)"
  using run_wf [OF image_ok_demo_01 run_demo_3] run_demo_3 by simp

text \<open>
  C37.  Said with positions in the trace: in every run from reset, or from
  any head of the loop with a disciplined trace, every store to the
  transmit register is preceded by a load of the status register that read
  the full bit clear, with no other store to the transmit register between
  the two.
\<close>

theorem run_stores_polled:
  assumes "run P img (Enter Banner, s) c" and "disciplined False (trace (mach s))"
    and "i < length (trace (mach (snd c)))" and "is_tx_store (trace (mach (snd c)) ! i)"
  shows "polled_before (trace (mach (snd c))) i"
proof -
  have "disciplined False (trace (mach (snd c))) \<and>
    (at_send (fst c) \<longrightarrow> tx_credit False (trace (mach (snd c))))"
    using assms(1) by (rule run_invariant) (simp_all add: assms(2) disciplined_step)
  with assms(3,4) show ?thesis
    by (simp add: disciplined_iff_polled_before)
qed

theorem run_stores_polled_witness:
  "run (uartlite False 3) (demo_image key_code_01) (Enter Banner, boot uart_idle)
     (Test Banner 0x1001,
      \<lparr>mach = \<lparr>dev = \<lparr>txq = [0x0A], wire = [], phase = 1\<rparr>, trace = [Load STAT 4, Store TX 0x0A]\<rparr>,
       var_i = 0\<rparr>) \<and>
   disciplined False (trace (mach (boot uart_idle))) \<and>
   is_tx_store ([Load STAT 4, Store TX 0x0A] ! 1) \<and>
   polled_before [Load STAT 4, Store TX 0x0A] 1"
  using run_stores_polled [OF run_demo_4, of 1] run_demo_4 by simp

text \<open>
  C38.  The program touches the transmitter in two ways only: every access a
  run adds to the trace is a load of the status register or a store to the
  transmit register.  The receive register and the control register are
  never accessed, and the status register is never written.
\<close>

theorem run_accesses:
  assumes "run P img (Enter Banner, s) c"
  shows "\<exists>es. trace (mach (snd c)) = trace (mach s) @ es \<and> driver_events es"
  using assms by (rule run_invariant) (simp_all add: accesses_step)

theorem run_accesses_witness:
  "run (uartlite False 3) (demo_image key_code_01) (Enter Banner, boot uart_idle)
     (Test Banner 0x1001,
      \<lparr>mach = \<lparr>dev = \<lparr>txq = [0x0A], wire = [], phase = 1\<rparr>, trace = [Load STAT 4, Store TX 0x0A]\<rparr>,
       var_i = 0\<rparr>) \<and>
   driver_events [Load STAT 4, Store TX 0x0A]"
  using run_accesses [OF run_demo_4] run_demo_4 by simp

text \<open>
  C23.  The hardware interface is kept bit-exact by every run.  Seen on the
  bus, at the addresses that the struct and the base address give the
  registers, the accesses a run makes are reads of the word at
  \<open>0x40000008\<close> and writes of the word at \<open>0x40000004\<close> only, and the
  transaction directly before each write is a read of \<open>0x40000008\<close> that
  returned a word with bit 3, the mask \<open>0x08\<close>, clear.
\<close>

theorem run_bus:
  assumes "run P img (Enter Banner, s) c"
  shows "\<exists>es. trace (mach (snd c)) = trace (mach s) @ es \<and> handshake False (map on_bus es)"
proof -
  have "\<exists>es. trace (mach (snd c)) = trace (mach s) @ es \<and> handshake False (map on_bus es) \<and>
    (at_send (fst c) \<longrightarrow> ready False (map on_bus es))"
    using assms by (rule run_invariant) (simp_all add: handshake_step)
  then show ?thesis
    by blast
qed

theorem run_bus_witness:
  "run (uartlite False 3) (demo_image key_code_01) (Enter Banner, boot uart_idle)
     (Test Banner 0x1001,
      \<lparr>mach = \<lparr>dev = \<lparr>txq = [0x0A], wire = [], phase = 1\<rparr>, trace = [Load STAT 4, Store TX 0x0A]\<rparr>,
       var_i = 0\<rparr>) \<and>
   map on_bus [Load STAT 4, Store TX 0x0A] = [Read 0x40000008 4, Write 0x40000004 0x0A] \<and>
   handshake False [Read 0x40000008 4, Write 0x40000004 0x0A]"
  using run_bus [OF run_demo_4] run_demo_4 by (simp add: boot_def)

section \<open>The hang, step by step\<close>

lemma stuck_step:
  assumes "image_ok img key" and "\<forall>n. tx_full (stat_at P (dev (mach s)) n)"
    and "fst c \<in> {Enter Banner, Test Banner (lit_banner img), Poll Banner (lit_banner img) 0x0A}"
    and "\<exists>j. snd c = s\<lparr>mach := polled P j (mach s)\<rparr>"
  shows "fst (step P img c) \<in>
      {Enter Banner, Test Banner (lit_banner img), Poll Banner (lit_banner img) 0x0A} \<and>
    (\<exists>j. snd (step P img c) = s\<lparr>mach := polled P j (mach s)\<rparr>)"
proof -
  from assms(4) obtain j where j: "snd c = s\<lparr>mach := polled P j (mach s)\<rparr>" ..
  from assms(2) have full: "tx_full (stat_at P (dev (polled P j (mach s))) 0)"
    by (simp only: stat_at_polled)
  have next_poll: "s\<lparr>mach := polled P (Suc 0) (polled P j (mach s))\<rparr> =
      s\<lparr>mach := polled P (Suc j) (mach s)\<rparr>"
    using polled_add [of P j 1 "mach s"] by simp
  obtain ctl f where c: "c = (ctl, f)"
    by (cases c)
  with assms(3) consider "ctl = Enter Banner" | "ctl = Test Banner (lit_banner img)"
    | "ctl = Poll Banner (lit_banner img) 0x0A"
    by auto
  then show ?thesis
  proof cases
    case 1
    with c j show ?thesis by auto
  next
    case 2
    with c j image_ok_first_byte [OF assms(1)] show ?thesis by auto
  next
    case 3
    with c j full next_poll show ?thesis
      by (auto simp add: vload_STAT intro: exI [of _ "Suc j"])
  qed
qed

lemma run_stuck_3:
  "run (stuck_uart False) (demo_image key_code_01) (Enter Banner, boot ())
     (Poll Banner 0x1000 0x0A, \<lparr>mach = \<lparr>dev = (), trace = [Load STAT 8]\<rparr>, var_i = 0\<rparr>)"
proof -
  have "(step (stuck_uart False) (demo_image key_code_01) ^^ 3) (Enter Banner, boot ()) =
     (Poll Banner 0x1000 0x0A, \<lparr>mach = \<lparr>dev = (), trace = [Load STAT 8]\<rparr>, var_i = 0\<rparr>)"
    by (simp add: funpow_3_4 boot_def vload_def Let_def)
  then show ?thesis
    unfolding run_iff_funpow by (intro exI [of _ 3]) simp
qed

text \<open>
  C30.  On a transmitter whose full bit never clears the machine gets as far
  as the polling loop of the first character and stays there: every
  configuration of the run is at the first call, the first test or the first
  poll, and its frame differs from the initial one by loads of the status
  register only.  Nothing is ever stored.
\<close>

theorem run_stuck:
  assumes "image_ok img key" and "\<forall>n. tx_full (stat_at P (dev (mach s)) n)"
    and "run P img (Enter Banner, s) c"
  shows "fst c \<in> {Enter Banner, Test Banner (lit_banner img), Poll Banner (lit_banner img) 0x0A} \<and>
    (\<exists>j. snd c = s\<lparr>mach := polled P j (mach s)\<rparr>)"
  using assms(3)
proof (induction rule: run.induct)
  case run_start
  show ?case
    by (auto intro: exI [of _ 0])
next
  case (run_step c)
  then show ?case
    by (intro stuck_step [OF assms(1,2)]) simp_all
qed

theorem run_stuck_witness:
  "image_ok (demo_image key_code_01) key_code_01 \<and>
   (\<forall>n. tx_full (stat_at (stuck_uart False) (dev (mach (boot ()))) n)) \<and>
   run (stuck_uart False) (demo_image key_code_01) (Enter Banner, boot ())
     (Poll Banner 0x1000 0x0A, \<lparr>mach = \<lparr>dev = (), trace = [Load STAT 8]\<rparr>, var_i = 0\<rparr>) \<and>
   (\<exists>j. \<lparr>mach = \<lparr>dev = (), trace = [Load STAT 8]\<rparr>, var_i = 0\<rparr> =
      (boot ())\<lparr>mach := polled (stuck_uart False) j (mach (boot ()))\<rparr>)"
proof -
  have stuck: "\<forall>n. tx_full (stat_at (stuck_uart False) (dev (mach (boot ()))) n)"
    by simp
  from run_stuck [OF image_ok_demo_01 stuck run_stuck_3] stuck run_stuck_3 show ?thesis
    by simp
qed

section \<open>The hang at any program point\<close>

lemma held_step:
  assumes "jammed P J" and "held P J c c'"
  shows "held P J c (step P img c')"
proof (cases c')
  case (Pair ctl f)
  with assms(2) have J: "J (dev (mach f))"
    by (simp add: held_def)
  note jammedD [OF assms(1) J]
  with Pair assms(2) show ?thesis
    by (cases ctl) (auto simp add: held_def vload_def Let_def idle_def)
qed

text \<open>
  C7.  The one failure the driver has: once the transmitter is jammed, with
  its full bit set for good, the program sends nothing more, from whatever
  program point it is at (unless it is already at the store, with the full
  bit read clear before).  It never reaches a store again, and once it is
  in a polling loop it stays at that load forever; there is no timeout and
  no diagnostic.
\<close>

theorem run_jammed:
  assumes "jammed P J" and "J (dev (mach (snd c)))" and "\<not> at_send (fst c)"
    and "run P img c c'"
  shows "J (dev (mach (snd c'))) \<and> \<not> at_send (fst c') \<and>
     tx_words (trace (mach (snd c'))) = tx_words (trace (mach (snd c))) \<and>
     (\<forall>k p ch. fst c = Poll k p ch \<longrightarrow> fst c' = fst c)"
proof -
  have "held P J c c'"
    using assms(4)
  proof (rule run_invariant)
    show "held P J c c"
      by (simp add: held_def assms(2,3))
  qed (rule held_step [OF assms(1)])
  then show ?thesis
    by (simp add: held_def)
qed

theorem run_jammed_witness:
  "jammed (stuck_uart False) (\<lambda>d. True) \<and>
   \<not> at_send (Enter Banner) \<and>
   run (stuck_uart False) (demo_image key_code_01) (Enter Banner, boot ())
     (Poll Banner 0x1000 0x0A, \<lparr>mach = \<lparr>dev = (), trace = [Load STAT 8]\<rparr>, var_i = 0\<rparr>) \<and>
   tx_words [Load STAT 8] = tx_words (trace (mach (boot ())))"
  using run_jammed [OF jammed_stuck_uart _ _ run_stuck_3] run_stuck_3
  by (simp add: jammed_stuck_uart)

section \<open>The pause, step by step\<close>

lemma count_steps:
  "sint (var_i s) + int k \<le> 1000000 \<Longrightarrow>
     (step P img ^^ k) (Count, s) =
       (Count, \<lparr>mach = idle P k (mach s), var_i = var_i s + of_nat k\<rparr>)"
proof (induction k)
  case 0
  show ?case by simp
next
  case (Suc k)
  then have "sint (var_i s + of_nat k) = sint (var_i s) + int k"
    by (intro sint_add_of_nat) simp
  with Suc.prems have "var_i s + of_nat k <s 1000000"
    by (simp add: word_sless_alt)
  with Suc show ?case
    by (simp add: ac_simps idle_add)
qed

lemma pause_steps:
  assumes "k \<le> 1000000"
  shows "(step P img ^^ Suc k) (Init, f) = (Count, \<lparr>mach = idle P k (mach f), var_i = of_nat k\<rparr>)"
  using assms count_steps [of "f\<lparr>var_i := 0\<rparr>" k P img]
  by (simp add: funpow_Suc_shift del: funpow.simps)

lemma pause_whole:
  "(step P img ^^ 1000002) (Init, f) =
     (Enter Banner, \<lparr>mach = idle P 1000000 (mach f), var_i = 1000000\<rparr>)"
proof -
  have "(1000002 :: nat) = Suc (Suc 1000000)"
    by simp
  then have "(step P img ^^ 1000002) (Init, f) = step P img ((step P img ^^ Suc 1000000) (Init, f))"
    by (simp only: funpow.simps o_apply)
  also have "\<dots> = step P img (Count, \<lparr>mach = idle P 1000000 (mach f), var_i = 1000000\<rparr>)"
    using pause_steps [of 1000000 P img f] by simp
  also have "\<dots> = (Enter Banner, \<lparr>mach = idle P 1000000 (mach f), var_i = 1000000\<rparr>)"
    by (simp add: word_sless_alt)
  finally show ?thesis .
qed

text \<open>
  C31.  The pause between two periods is a fixed number of steps: from the
  assignment \<open>i = 0\<close> the machine is back at the head of the loop after
  exactly 1000002 steps (the assignment, one million increments, and the
  test that fails), and every configuration in between is at the test of
  \<open>i\<close>; the trace is untouched, so the program makes no access to the
  transmitter during the pause, and the device has made one step of its own
  for each increment.
\<close>

theorem run_pause:
  "(step P img ^^ 1000002) (Init, f) =
     (Enter Banner, \<lparr>mach = idle P 1000000 (mach f), var_i = 1000000\<rparr>) \<and>
   (\<forall>k. 0 < k \<and> k < 1000002 \<longrightarrow>
      (step P img ^^ k) (Init, f) =
        (Count, \<lparr>mach = idle P (k - 1) (mach f), var_i = of_nat (k - 1)\<rparr>))"
proof
  show "(step P img ^^ 1000002) (Init, f) =
      (Enter Banner, \<lparr>mach = idle P 1000000 (mach f), var_i = 1000000\<rparr>)"
    by (rule pause_whole)
next
  show "\<forall>k. 0 < k \<and> k < 1000002 \<longrightarrow>
      (step P img ^^ k) (Init, f) =
        (Count, \<lparr>mach = idle P (k - 1) (mach f), var_i = of_nat (k - 1)\<rparr>)"
  proof (intro allI impI)
    fix k :: nat
    assume "0 < k \<and> k < 1000002"
    then obtain j where "k = Suc j" and "j \<le> 1000000"
      by (cases k) auto
    then show "(step P img ^^ k) (Init, f) =
        (Count, \<lparr>mach = idle P (k - 1) (mach f), var_i = of_nat (k - 1)\<rparr>)"
      using pause_steps [of j P img f] by simp
  qed
qed

theorem run_pause_witness:
  "(0 :: nat) < 3 \<and> (3 :: nat) < 1000002 \<and>
   (step (uartlite False 3) (demo_image key_code_01) ^^ 3) (Init, boot uart_idle) =
     (Count, \<lparr>mach = \<lparr>dev = uart_idle, trace = []\<rparr>, var_i = 2\<rparr>)"
proof -
  have "idle (uartlite False 3) 2 (mach (boot uart_idle)) = \<lparr>dev = uart_idle, trace = []\<rparr>"
    by (simp add: idle_def numeral_2_eq_2 boot_def uart_tick_def uart_idle_def)
  with run_pause [of "uartlite False 3" "demo_image key_code_01" "boot uart_idle"]
  show ?thesis
    by (auto dest!: spec [of _ 3])
qed

section \<open>What does not show in a run\<close>

text \<open>
  C33.  The local \<open>i\<close>, declared without a value in line 31, is assigned
  before it is read.  Two executions that differ only in the value \<open>i\<close>
  happens to hold, started anywhere but at the test of \<open>i\<close>, go through the
  same program points with the same device and the same trace of accesses
  after any number of steps, and whenever they are at the test
  \<open>i < 1000000\<close> they hold the same \<open>i\<close>.
\<close>

theorem run_i_assigned:
  assumes "k \<noteq> Count"
  shows "same_but_i ((step P img ^^ n) (k, s)) ((step P img ^^ n) (k, s\<lparr>var_i := v\<rparr>))"
proof (induction n)
  case 0
  from assms show ?case
    by (simp add: same_but_i_def)
next
  case (Suc n)
  then show ?case
    by (simp add: same_but_i_step)
qed

theorem run_i_assigned_witness:
  "Init \<noteq> Count \<and>
   (step (uartlite False 3) (demo_image key_code_01) ^^ 3) (Init, boot uart_idle) =
     (Count, \<lparr>mach = \<lparr>dev = uart_idle, trace = []\<rparr>, var_i = 2\<rparr>) \<and>
   (step (uartlite False 3) (demo_image key_code_01) ^^ 3) (Init, (boot uart_idle)\<lparr>var_i := 7\<rparr>) =
     (Count, \<lparr>mach = \<lparr>dev = uart_idle, trace = []\<rparr>, var_i = 2\<rparr>)"
proof -
  have idle2: "idle (uartlite False 3) 2 \<lparr>dev = uart_idle, trace = []\<rparr> = \<lparr>dev = uart_idle, trace = []\<rparr>"
    by (simp add: idle_def numeral_2_eq_2 uart_tick_def uart_idle_def)
  have "(step (uartlite False 3) (demo_image key_code_01) ^^ 3) (Init, f) =
     (Count, \<lparr>mach = idle (uartlite False 3) 2 (mach f), var_i = 2\<rparr>)" for f
    using pause_steps [of 2 "uartlite False 3" "demo_image key_code_01" f]
    by (simp add: numeral_3_eq_3 numeral_2_eq_2)
  with idle2 run_i_assigned [where k = Init and P = "uartlite False 3" and img = "demo_image key_code_01"
      and n = 3 and s = "boot uart_idle" and v = 7]
  show ?thesis
    by (simp add: boot_def)
qed

text \<open>
  C6.  Whether the compiler's plain \<open>char\<close> is signed does not show on the
  line.  The conversion of line 17 is the one place where it matters, and a
  transmitter that takes the low byte of the word written cannot tell the
  two conversions apart: the program compiled either way, started in the
  same configuration, is after any number of steps at the same program
  point, with the device in the same state and the same bytes sent.
\<close>

theorem run_signedness:
  assumes "low_byte_only P"
  shows "same_line ((step P img ^^ n) c) ((step (P\<lparr>char_signed := sg\<rparr>) img ^^ n) c)"
proof (induction n)
  case 0
  show ?case
    by (simp add: same_line_def)
next
  case (Suc n)
  then show ?case
    by (simp add: same_line_step [OF assms])
qed

theorem run_signedness_witness:
  "low_byte_only (uartlite False 3) \<and>
   (step (uartlite False 3) (demo_image key_code_01) ^^ 4) (Enter Banner, boot uart_idle) =
     (Test Banner 0x1001,
      \<lparr>mach = \<lparr>dev = \<lparr>txq = [0x0A], wire = [], phase = 1\<rparr>,
              trace = [Load STAT 4, Store TX 0x0A]\<rparr>, var_i = 0\<rparr>) \<and>
   same_line
     (Test Banner 0x1001,
      \<lparr>mach = \<lparr>dev = \<lparr>txq = [0x0A], wire = [], phase = 1\<rparr>,
              trace = [Load STAT 4, Store TX 0x0A]\<rparr>, var_i = 0\<rparr>)
     ((step ((uartlite False 3)\<lparr>char_signed := True\<rparr>) (demo_image key_code_01) ^^ 4)
        (Enter Banner, boot uart_idle))"
  using run_signedness [OF low_byte_only_uartlite, where T1 = 3 and sg1 = False
      and img = "demo_image key_code_01" and n = 4 and c = "(Enter Banner, boot uart_idle)"
      and sg = True]
  by (simp add: low_byte_only_uartlite demo_steps_4)

end
