(* ===== verification/Output_Spec.thy ===== *)
theory Output_Spec
  imports Pico_Prelude
begin

text \<open>
  What the program is for, as an automaton of its own: a terminal on the
  serial line sees the bytes of one text again and again, with a pause after
  each copy.  The automaton has the one state "running" of the
  specification, refined by a cursor into the text; a step emits the byte at
  the cursor, or, at the end of the text, pauses and starts over.  It knows
  nothing of registers, polling or pointers; the theory \<open>Simulation\<close>
  shows that the program implements it.
\<close>

section \<open>The automaton\<close>

record spec_state =
  emitted :: "u8 list"
  cursor :: nat

definition spec_next :: "u8 list \<Rightarrow> spec_state \<Rightarrow> spec_state" where
  "spec_next per t =
     (if cursor t < length per
      then \<lparr>emitted = emitted t @ [per ! cursor t], cursor = Suc (cursor t)\<rparr>
      else t\<lparr>cursor := 0\<rparr>)"

inductive spec_run :: "u8 list \<Rightarrow> spec_state \<Rightarrow> spec_state \<Rightarrow> bool" for per t0 where
  spec_start: "spec_run per t0 t0"
| spec_step: "spec_run per t0 t \<Longrightarrow> spec_run per t0 (spec_next per t)"

code_pred spec_run .

section \<open>Lemmas\<close>

lemma spec_next_simps [simp]:
  "c < length per \<Longrightarrow>
     spec_next per \<lparr>emitted = es, cursor = c\<rparr> = \<lparr>emitted = es @ [per ! c], cursor = Suc c\<rparr>"
  "spec_next per \<lparr>emitted = es, cursor = length per\<rparr> = \<lparr>emitted = es, cursor = 0\<rparr>"
  by (simp_all add: spec_next_def)

lemma spec_run_trans: "spec_run per t1 t2 \<Longrightarrow> spec_run per t0 t1 \<Longrightarrow> spec_run per t0 t2"
  by (induction rule: spec_run.induct) (auto intro: spec_run.intros)

text \<open>
  What the terminal has seen at any moment: whole copies of the text and
  the part of the next copy up to the cursor.
\<close>

lemma spec_run_shown:
  assumes "spec_run per \<lparr>emitted = es, cursor = 0\<rparr> t"
  shows "cursor t \<le> length per \<and>
    (\<exists>n. emitted t = es @ concat (replicate n per) @ take (cursor t) per)"
  using assms
proof (induction rule: spec_run.induct)
  case spec_start
  show ?case by (simp add: exI [of _ 0])
next
  case (spec_step t)
  then obtain n where n: "emitted t = es @ concat (replicate n per) @ take (cursor t) per"
    and le: "cursor t \<le> length per"
    by blast
  show ?case
  proof (cases "cursor t < length per")
    case True
    with n show ?thesis
      by (auto simp add: spec_next_def take_Suc_conv_app_nth intro!: exI [of _ n])
  next
    case False
    with le n have "emitted t = es @ concat (replicate (Suc n) per) @ take 0 per"
      by (simp add: concat_replicate_snoc del: replicate_Suc replicate.simps)
    with False show ?thesis
      by (auto simp add: spec_next_def simp del: replicate_Suc)
  qed
qed

end
