(* ===== verification/Simulation.thy ===== *)
theory Simulation
  imports Steps Output_Spec
begin

text \<open>
  The step machine of \<open>Steps\<close> and the functional model of \<open>Putchar\<close>,
  \<open>Print\<close> and \<open>Main_Loop\<close> describe the same program.  The predicate
  \<open>within\<close> reads a program point in terms of the functional model, and
  every step of the machine keeps it; from this follow the agreement of the
  two models at the head of the main loop and that on a responsive device
  every program point leads back to the head of the loop.  The abstraction
  \<open>abs_conf\<close> reads a configuration as a state of the specification
  automaton of \<open>Output_Spec\<close>; every step of the machine is a step of the
  automaton or a stutter step, which gives the output at every program
  point.  The calls are run step by step with their steps counted.
\<close>

section \<open>The simulation invariant\<close>

text \<open>
  The big-step reading of a program point: \<open>within P img key s0 c f\<close> says
  that the frame \<open>f\<close> at point \<open>c\<close> is what the iteration that started at
  the loop head with frame \<open>s0\<close> has made of it so far.  Inside \<open>print\<close> the
  string of the site splits into the part sent and the part the pointer is
  at; inside \<open>putchar\<close> the polls made so far have read the full bit set
  and have sent nothing.
\<close>

fun within :: "'d platform \<Rightarrow> image \<Rightarrow> u8 list \<Rightarrow> 'd frame \<Rightarrow> ctl \<Rightarrow> 'd frame \<Rightarrow> bool" where
  "within P img key s0 (Enter k) f \<longleftrightarrow>
     puts P (sent_before key k) (mach s0) = Some (mach f) \<and> (k = Banner \<longrightarrow> f = s0)"
| "within P img key s0 (Test k p) f \<longleftrightarrow>
     (\<exists>pre rest. site_text key k = pre @ rest \<and> cstring_at (rodata img) p rest \<and>
        puts P (sent_before key k @ pre) (mach s0) = Some (mach f))"
| "within P img key s0 (Poll k p ch) f \<longleftrightarrow>
     (\<exists>pre rest m1. site_text key k = pre @ ch # rest \<and> cstring_at (rodata img) p (ch # rest) \<and>
        puts P (sent_before key k @ pre) (mach s0) = Some m1 \<and>
        poll_tx P (mach f) = poll_tx P m1 \<and> tx_words (trace (mach f)) = tx_words (trace m1))"
| "within P img key s0 (Send k p ch) f \<longleftrightarrow>
     (\<exists>pre rest m1. site_text key k = pre @ ch # rest \<and> cstring_at (rodata img) p (ch # rest) \<and>
        puts P (sent_before key k @ pre) (mach s0) = Some m1 \<and> poll_tx P m1 = Some (mach f))"
| "within P img key s0 Init f \<longleftrightarrow> puts P (period_text key) (mach s0) = Some (mach f)"
| "within P img key s0 Count f \<longleftrightarrow>
     (\<exists>m1 j. puts P (period_text key) (mach s0) = Some m1 \<and> j \<le> 1000000 \<and>
        mach f = idle P j m1 \<and> var_i f = of_nat j)"

text \<open>A configuration tracks the functional model from the loop head \<open>s\<close>.\<close>

definition tracks :: "'d platform \<Rightarrow> image \<Rightarrow> u8 list \<Rightarrow> 'd frame \<Rightarrow> 'd config \<Rightarrow> bool" where
  "tracks P img key s c \<longleftrightarrow> (\<exists>s0. reach P img s s0 \<and> within P img key s0 (fst c) (snd c))"

text \<open>
  The abstraction to the specification automaton of \<open>Output_Spec\<close>: what
  the terminal has seen are the low bytes of the words stored so far, and
  the cursor into the period text is read off the program point, as the
  text of the sites before the current one and the offset of the pointer
  into the string of the current one.
\<close>

fun cursor_of :: "image \<Rightarrow> u8 list \<Rightarrow> ctl \<Rightarrow> nat" where
  "cursor_of img key (Enter k) = length (sent_before key k)"
| "cursor_of img key (Test k p) = length (sent_before key k) + str_off img k p"
| "cursor_of img key (Poll k p ch) = length (sent_before key k) + str_off img k p"
| "cursor_of img key (Send k p ch) = length (sent_before key k) + str_off img k p"
| "cursor_of img key Init = length (period_text key)"
| "cursor_of img key Count = length (period_text key)"

definition abs_conf :: "image \<Rightarrow> u8 list \<Rightarrow> 'd config \<Rightarrow> spec_state" where
  "abs_conf img key c =
     \<lparr>emitted = tx_bytes (trace (mach (snd c))), cursor = cursor_of img key (fst c)\<rparr>"

section \<open>The calls, step by step\<close>

text \<open>The polling loop passes the load once for each poll and then the store.\<close>

lemma run_polls:
  "first_clear P (dev (mach s)) n \<Longrightarrow>
     (step P img ^^ Suc n) (Poll k p ch, s) = (Send k p ch, s\<lparr>mach := polled P (Suc n) (mach s)\<rparr>)"
proof (induction n arbitrary: s)
  case 0
  then show ?case by (simp add: vload_STAT)
next
  case (Suc n)
  let ?s = "s\<lparr>mach := polled P (Suc 0) (mach s)\<rparr>"
  from Suc.prems have full: "tx_full (stat_at P (dev (mach s)) 0)"
    and "first_clear P (dev (mach ?s)) n"
    by simp_all
  from Suc.IH [OF this(2)] full show ?case
    by (simp add: funpow_Suc_shift [where n = "Suc n"] vload_STAT polled_Suc_shift [of P "Suc n"]
        del: funpow.simps)
qed

text \<open>
  A call of \<open>putchar\<close> takes one step for each access it makes; the string
  loop takes these and one test for each character and one more; a call of
  \<open>print\<close> takes one step more.
\<close>

lemma steps_putchar:
  assumes "putchar P ch (mach s) = Some m'"
  shows "\<exists>n. length (trace m') = length (trace (mach s)) + n \<and>
    (step P img ^^ n) (Poll k p ch, s) = (Test k (p + 1), s\<lparr>mach := m'\<rparr>)"
proof -
  from assms obtain n where n: "first_clear P (dev (mach s)) n"
    and m': "m' = vstore P TX (char_to_u32 (char_signed P) ch) (polled P (Suc n) (mach s))"
    by (rule putchar_SomeE)
  have "(step P img ^^ Suc (Suc n)) (Poll k p ch, s) = (Test k (p + 1), s\<lparr>mach := m'\<rparr>)"
    using run_polls [OF n, of img k p ch] by (simp add: m' del: funpow.simps(2)) simp
  moreover have "length (trace m') = length (trace (mach s)) + Suc (Suc n)"
    by (simp add: m')
  ultimately show ?thesis
    by blast
qed

lemma steps_puts:
  assumes "cstring_at (rodata img) p str" and "puts P str (mach s) = Some m'"
  shows "\<exists>n. length (trace m') = length (trace (mach s)) + n \<and>
    (step P img ^^ (n + length str + 1)) (Test k p, s) = (leave k, s\<lparr>mach := m'\<rparr>)"
  using assms
proof (induction str arbitrary: p s)
  case Nil
  then show ?case by simp
next
  case (Cons c cs)
  from Cons.prems obtain m1 where m1: "putchar P c (mach s) = Some m1"
    and rest: "puts P cs m1 = Some m'"
    by (auto simp add: bind_eq_Some_conv)
  from Cons.prems have 1: "(step P img ^^ 1) (Test k p, s) = (Poll k p c, s)"
    by simp
  from steps_putchar [OF m1, of img k p] obtain a
    where a: "length (trace m1) = length (trace (mach s)) + a"
      and 2: "(step P img ^^ a) (Poll k p c, s) = (Test k (p + 1), s\<lparr>mach := m1\<rparr>)"
    by blast
  from Cons.IH [of "p + 1" "s\<lparr>mach := m1\<rparr>"] Cons.prems rest obtain b
    where b: "length (trace m') = length (trace m1) + b"
      and 3: "(step P img ^^ (b + length cs + 1)) (Test k (p + 1), s\<lparr>mach := m1\<rparr>) =
        (leave k, s\<lparr>mach := m'\<rparr>)"
    by auto
  from funpow_chain [OF funpow_chain [OF 1 2] 3]
  have "(step P img ^^ ((a + b) + length (c # cs) + 1)) (Test k p, s) = (leave k, s\<lparr>mach := m'\<rparr>)"
    by (simp add: ac_simps)
  with a b show ?case
    by (intro exI [of _ "a + b"]) simp
qed

lemma steps_site:
  assumes "image_ok img key" and "puts P (site_text key k) (mach s) = Some m'"
  shows "\<exists>n. length (trace m') = length (trace (mach s)) + n \<and>
    (step P img ^^ (n + length (site_text key k) + 2)) (Enter k, s) = (leave k, s\<lparr>mach := m'\<rparr>)"
proof -
  from steps_puts [OF image_ok_site [OF assms(1)] assms(2), of k] obtain n
    where n: "length (trace m') = length (trace (mach s)) + n"
      and 2: "(step P img ^^ (n + length (site_text key k) + 1)) (Test k (site_ptr img k), s) =
        (leave k, s\<lparr>mach := m'\<rparr>)"
    by blast
  have "(step P img ^^ 1) (Enter k, s) = (Test k (site_ptr img k), s)"
    by simp
  from funpow_chain [OF this 2] n show ?thesis
    by (intro exI [of _ n]) (simp add: ac_simps)
qed

lemma run_putchar:
  assumes "putchar P ch (mach s) = Some m'"
  shows "run P img (Poll k p ch, s) (Test k (p + 1), s\<lparr>mach := m'\<rparr>)"
  using steps_putchar [OF assms, of img k p] by (blast intro: run_funpowI)

lemma run_puts:
  assumes "cstring_at (rodata img) p str" and "puts P str (mach s) = Some m'"
  shows "run P img (Test k p, s) (leave k, s\<lparr>mach := m'\<rparr>)"
  using steps_puts [OF assms, of k] by (blast intro: run_funpowI)

text \<open>The delay loop passes its test once for each increment and once more.\<close>

lemma run_count:
  "run P img (Count, s)
     (Enter Banner, \<lparr>mach = idle P (delay_ticks (var_i s)) (mach s), var_i = delay_loop (var_i s)\<rparr>)"
proof (induction "var_i s" arbitrary: s rule: delay_loop.induct)
  case 1
  let ?s = "s\<lparr>mach := idle P 1 (mach s), var_i := var_i s + 1\<rparr>"
  show ?case
  proof (cases "var_i s <s 1000000")
    case True
    with "1.hyps" [of ?s] have "run P img (step P img (Count, s))
        (Enter Banner, \<lparr>mach = idle P (delay_ticks (var_i s)) (mach s), var_i = delay_loop (var_i s)\<rparr>)"
      by (simp add: delay_loop.simps [of "var_i s"] delay_ticks.simps [of "var_i s"] idle_add)
    then show ?thesis
      by (rule run_step_left)
  next
    case False
    then have "step P img (Count, s) =
        (Enter Banner, \<lparr>mach = idle P (delay_ticks (var_i s)) (mach s), var_i = delay_loop (var_i s)\<rparr>)"
      by (simp add: delay_loop_ge delay_ticks.simps [of "var_i s"])
    then show ?thesis
      using run_step1 [of P img "(Count, s)"] by simp
  qed
qed

lemma run_delay:
  "run P img (Init, s) (Enter Banner, \<lparr>mach = idle P 1000000 (mach s), var_i = delay\<rparr>)"
  using run_count [of P img "s\<lparr>var_i := 0\<rparr>"]
  by (auto intro: run_step_left simp add: delay_def simp del: delay_eq)

text \<open>One iteration of the loop, from head to head.\<close>

lemma period_text_sites:
  "period_text key = site_text key Banner @ site_text key Label @ site_text key Key @ site_text key Newlines"
  by (simp add: period_text_def)

text \<open>
  One iteration takes one step for each access, one for each of the four
  calls, one for each test of \<open>*str\<close>, and the 1000002 steps of the pause.
\<close>

lemma steps_main_body:
  assumes "image_ok img key" and "main_body P img s = Some s'"
  shows "\<exists>n. length (trace (mach s')) = length (trace (mach s)) + n \<and>
    (step P img ^^ (n + length (period_text key) + 1000010)) (Enter Banner, s) = (Enter Banner, s')"
proof -
  from assms obtain m1 m2 m3 m4 where
    p: "puts P (site_text key Banner) (mach s) = Some m1"
    "puts P (site_text key Label) m1 = Some m2"
    "puts P (site_text key Key) m2 = Some m3"
    "puts P (site_text key Newlines) m3 = Some m4"
    and s': "s' = \<lparr>mach = idle P 1000000 m4, var_i = 1000000\<rparr>"
    by (auto simp add: main_body_puts period_text_def puts_append bind_eq_Some_conv)
  from steps_site [OF assms(1) p(1)] obtain a where a: "length (trace m1) = length (trace (mach s)) + a"
    and 1: "(step P img ^^ (a + length (site_text key Banner) + 2)) (Enter Banner, s) =
      (Enter Label, s\<lparr>mach := m1\<rparr>)"
    by auto
  from steps_site [OF assms(1), of P Label "s\<lparr>mach := m1\<rparr>" m2] p(2) obtain b
    where b: "length (trace m2) = length (trace m1) + b"
    and 2: "(step P img ^^ (b + length (site_text key Label) + 2)) (Enter Label, s\<lparr>mach := m1\<rparr>) =
      (Enter Key, s\<lparr>mach := m2\<rparr>)"
    by auto
  from steps_site [OF assms(1), of P Key "s\<lparr>mach := m2\<rparr>" m3] p(3) obtain c
    where c: "length (trace m3) = length (trace m2) + c"
    and 3: "(step P img ^^ (c + length (site_text key Key) + 2)) (Enter Key, s\<lparr>mach := m2\<rparr>) =
      (Enter Newlines, s\<lparr>mach := m3\<rparr>)"
    by auto
  from steps_site [OF assms(1), of P Newlines "s\<lparr>mach := m3\<rparr>" m4] p(4) obtain d
    where d: "length (trace m4) = length (trace m3) + d"
    and 4: "(step P img ^^ (d + length (site_text key Newlines) + 2)) (Enter Newlines, s\<lparr>mach := m3\<rparr>) =
      (Init, s\<lparr>mach := m4\<rparr>)"
    by auto
  have 5: "(step P img ^^ 1000002) (Init, s\<lparr>mach := m4\<rparr>) = (Enter Banner, s')"
    by (simp add: pause_whole s')
  from funpow_chain [OF funpow_chain [OF funpow_chain [OF funpow_chain [OF 1 2] 3] 4] 5]
  have "(step P img ^^ ((a + b + c + d) + length (period_text key) + 1000010)) (Enter Banner, s) =
      (Enter Banner, s')"
    by (simp add: period_text_sites ac_simps)
  with a b c d show ?thesis
    by (intro exI [of _ "a + b + c + d"]) (simp add: s')
qed

lemma run_main_body:
  assumes "image_ok img key" and "main_body P img s = Some s'"
  shows "run P img (Enter Banner, s) (Enter Banner, s')"
  using steps_main_body [OF assms] by (blast intro: run_funpowI)

lemma reach_run:
  assumes "image_ok img key" and "reach P img s s'"
  shows "run P img (Enter Banner, s) (Enter Banner, s')"
  using assms(2)
  by (induction rule: reach.induct)
    (auto intro: run.intros run_trans [OF run_main_body [OF assms(1)]])

section \<open>Every step keeps track of the functional model\<close>

lemma sent_before_leave:
  assumes "puts P (sent_before key k @ site_text key k) (mach s0) = Some (mach f)"
  shows "within P img key s0 (leave k) f"
  using assms by (cases k) (simp_all add: period_text_def)

lemma within_enter:
  assumes "image_ok img key" and "within P img key s0 (Enter k) f"
  shows "within P img key s0 (fst (step P img (Enter k, f))) (snd (step P img (Enter k, f)))"
proof -
  from assms(2) have "puts P (sent_before key k @ []) (mach s0) = Some (mach f)"
    by simp
  with image_ok_site [OF assms(1), of k] have "within P img key s0 (Test k (site_ptr img k)) f"
    unfolding within.simps
    by (intro exI [of _ "[]", OF exI [of _ "site_text key k"]]) simp
  then show ?thesis
    by simp
qed

lemma within_test:
  assumes "within P img key s0 (Test k p) f"
  shows "within P img key s0 (fst (step P img (Test k p, f))) (snd (step P img (Test k p, f)))"
proof -
  from assms obtain pre rest where split: "site_text key k = pre @ rest"
    and str: "cstring_at (rodata img) p rest"
    and sent: "puts P (sent_before key k @ pre) (mach s0) = Some (mach f)"
    by auto
  show ?thesis
  proof (cases rest)
    case Nil
    with split str sent show ?thesis
      by (simp add: sent_before_leave)
  next
    case (Cons c cs)
    with split str sent show ?thesis
      by auto
  qed
qed

lemma within_poll:
  assumes "within P img key s0 (Poll k p ch) f"
  shows "within P img key s0 (fst (step P img (Poll k p ch, f))) (snd (step P img (Poll k p ch, f)))"
proof -
  from assms obtain pre rest m1 where *: "site_text key k = pre @ ch # rest"
    "cstring_at (rodata img) p (ch # rest)"
    "puts P (sent_before key k @ pre) (mach s0) = Some m1"
    and poll: "poll_tx P (mach f) = poll_tx P m1"
    and same: "tx_words (trace (mach f)) = tx_words (trace m1)"
    by auto
  from poll [symmetric] have
    "tx_full (stat_at P (dev (mach f)) 0) \<Longrightarrow> poll_tx P (polled P (Suc 0) (mach f)) = poll_tx P m1"
    "\<not> tx_full (stat_at P (dev (mach f)) 0) \<Longrightarrow> poll_tx P m1 = Some (polled P (Suc 0) (mach f))"
    by (subst (asm) poll_tx_unfold [of P "mach f"], simp)+
  with * same show ?thesis
    by (auto simp add: vload_STAT)
qed

lemma within_send:
  assumes "within P img key s0 (Send k p ch) f"
  shows "within P img key s0 (fst (step P img (Send k p ch, f))) (snd (step P img (Send k p ch, f)))"
proof -
  from assms obtain pre rest m1 where split: "site_text key k = pre @ ch # rest"
    and str: "cstring_at (rodata img) p (ch # rest)"
    and sent: "puts P (sent_before key k @ pre) (mach s0) = Some m1"
    and poll: "poll_tx P m1 = Some (mach f)"
    by auto
  from sent poll have
    "puts P (sent_before key k @ pre @ [ch]) (mach s0) =
       Some (vstore P TX (char_to_u32 (char_signed P) ch) (mach f))"
    by (simp add: puts_append [of P "sent_before key k @ pre" "[ch]", simplified] putchar_def)
  with split str have "within P img key s0 (Test k (p + 1))
      (f\<lparr>mach := vstore P TX (char_to_u32 (char_signed P) ch) (mach f)\<rparr>)"
    unfolding within.simps
    by (intro exI [of _ "pre @ [ch]", OF exI [of _ rest]]) simp
  then show ?thesis
    by simp
qed

lemma sint_of_nat_million: "j \<le> 1000000 \<Longrightarrow> sint (of_nat j :: s32) = int j"
  using sint_add_of_nat [of 0 j] by simp

lemma within_init:
  assumes "within P img key s0 Init f"
  shows "within P img key s0 (fst (step P img (Init, f))) (snd (step P img (Init, f)))"
  using assms by (auto intro!: exI [of _ 0])

lemma within_count:
  assumes "within P img key s0 Count f" and "var_i f <s 1000000"
  shows "within P img key s0 (fst (step P img (Count, f))) (snd (step P img (Count, f)))"
proof -
  from assms(1) obtain m1 j where sent: "puts P (period_text key) (mach s0) = Some m1"
    and j: "j \<le> 1000000" "mach f = idle P j m1" "var_i f = of_nat j"
    by auto
  from assms(2) j have "Suc j \<le> 1000000"
    by (simp add: word_sless_alt sint_of_nat_million)
  with sent j assms(2) show ?thesis
    by (auto simp add: idle_add intro!: exI [of _ "Suc j"])
qed

lemma within_step:
  assumes "image_ok img key" and "within P img key s0 c f"
    and "c = Count \<Longrightarrow> var_i f <s 1000000"
  shows "within P img key s0 (fst (step P img (c, f))) (snd (step P img (c, f)))"
proof (cases c)
  case (Enter k)
  with assms(2) show ?thesis
    by (simp only:) (rule within_enter [OF assms(1)])
next
  case (Test k p)
  with assms(2) show ?thesis
    by (simp only:) (rule within_test)
next
  case (Poll k p ch)
  with assms(2) show ?thesis
    by (simp only:) (rule within_poll)
next
  case (Send k p ch)
  with assms(2) show ?thesis
    by (simp only:) (rule within_send)
next
  case Init
  with assms(2) show ?thesis
    by (simp only:) (rule within_init)
next
  case Count
  with assms(2) assms(3) [OF Count] show ?thesis
    by (simp only:) (rule within_count)
qed

lemma within_back_edge:
  assumes "image_ok img key" and "within P img key s0 Count f" and "\<not> var_i f <s 1000000"
  shows "main_body P img s0 = Some f"
proof -
  from assms(2) obtain m1 j where sent: "puts P (period_text key) (mach s0) = Some m1"
    and j: "j \<le> 1000000" "mach f = idle P j m1" "var_i f = of_nat j"
    by auto
  from assms(3) j have "j = 1000000"
    by (simp add: word_sless_alt sint_of_nat_million)
  with sent j show ?thesis
    by (simp add: main_body_puts [OF assms(1)])
qed

lemma tracks_step:
  assumes "image_ok img key" and "tracks P img key s c"
  shows "tracks P img key s (step P img c)"
proof -
  from assms(2) obtain s0 where s0: "reach P img s s0"
    and w: "within P img key s0 (fst c) (snd c)"
    by (auto simp add: tracks_def)
  obtain ctl f where c: "c = (ctl, f)"
    by (cases c)
  show ?thesis
  proof (cases "ctl = Count \<and> \<not> var_i f <s 1000000")
    case True
    with w c have "within P img key s0 Count f" and "\<not> var_i f <s 1000000"
      by simp_all
    then have "main_body P img s0 = Some f"
      by (rule within_back_edge [OF assms(1)])
    with s0 have "reach P img s f"
      by (rule reach_iter)
    moreover have "within P img key f (Enter Banner) f"
      by simp
    ultimately show ?thesis
      using True c by (auto simp add: tracks_def)
  next
    case False
    with w c have "within P img key s0 (fst (step P img c)) (snd (step P img c))"
      by (auto intro!: within_step [OF assms(1)])
    with s0 show ?thesis
      by (auto simp add: tracks_def)
  qed
qed

lemma run_tracks:
  assumes "image_ok img key" and "run P img (Enter Banner, s) c"
  shows "tracks P img key s c"
  using assms(2)
proof (induction rule: run.induct)
  case run_start
  show ?case
    by (auto simp add: tracks_def intro: reach_start)
next
  case (run_step c)
  then show ?case
    by (intro tracks_step [OF assms(1)])
qed

section \<open>The period text, site by site\<close>

lemma period_text_split: "\<exists>suf. period_text key = sent_before key k @ site_text key k @ suf"
  by (cases k) (simp_all add: period_text_def)

section \<open>The machine refines the specification automaton\<close>

text \<open>
  Every step of the machine either leaves the abstraction as it is (a call,
  a test, a poll, an increment of \<open>i\<close>) or is a step of the
  specification automaton: the store emits the byte at the cursor, and the
  step from the delay loop back to the head of the loop is the pause.
\<close>

lemma cursor_of_leave:
  "cursor_of img key (leave k) = length (sent_before key k) + length (site_text key k)"
  by (cases k) (simp_all add: period_text_def)

lemma period_text_nth:
  assumes "j < length (site_text key k)"
  shows "length (sent_before key k) + j < length (period_text key)"
    and "period_text key ! (length (sent_before key k) + j) = site_text key k ! j"
proof -
  from period_text_split [of key k] obtain suf
    where "period_text key = sent_before key k @ site_text key k @ suf" ..
  with assms show "length (sent_before key k) + j < length (period_text key)"
    and "period_text key ! (length (sent_before key k) + j) = site_text key k ! j"
    by (simp_all add: nth_append)
qed

lemma abs_test:
  assumes "image_ok img key" and "str_off img k p \<le> length (site_text key k)"
  shows "abs_conf img key (step P img (Test k p, f)) = abs_conf img key (Test k p, f)"
proof (cases "rodata img p = 0")
  case True
  note str = image_ok_site [OF assms(1), of k]
  have "str_off img k p = length (site_text key k)"
  proof (rule ccontr)
    assume "str_off img k p \<noteq> length (site_text key k)"
    with assms(2) have lt: "str_off img k p < length (site_text key k)"
      by simp
    from cstring_at_nth [OF str lt] True have "site_text key k ! str_off img k p = 0"
      by (simp add: str_off_ptr)
    with cstring_at_nonzero [OF str] lt show False
      by (metis nth_mem)
  qed
  with True show ?thesis
    by (simp add: abs_conf_def cursor_of_leave)
next
  case False
  then show ?thesis
    by (simp add: abs_conf_def)
qed

lemma abs_step:
  assumes "image_ok img key" and "wf_conf img key c"
  shows "abs_conf img key (step P img c) = abs_conf img key c \<or>
    abs_conf img key (step P img c) = spec_next (period_text key) (abs_conf img key c)"
proof (cases c)
  case (Pair ctl f)
  from image_ok_site [OF assms(1)] have len: "length (site_text key k) < 2 ^ 32" for k
    by (rule cstring_at_length)
  show ?thesis
  proof (cases ctl)
    case (Test k p)
    with Pair assms abs_test [OF assms(1), of k p P f] show ?thesis
      by simp
  next
    case (Send k p ch)
    with Pair assms(2) have lt: "str_off img k p < length (site_text key k)"
      and ch: "ch = site_text key k ! str_off img k p"
      by simp_all
    from Send Pair lt ch period_text_nth [OF lt] str_off_succ [OF lt len [of k]] show ?thesis
      by (simp add: abs_conf_def vstore_def char_to_u32_def)
  qed (use Pair in \<open>simp_all add: abs_conf_def vload_def Let_def\<close>)
qed

lemma refines_step:
  assumes "image_ok img key"
    and "wf_conf img key c \<and> spec_run (period_text key) t0 (abs_conf img key c)"
  shows "wf_conf img key (step P img c) \<and>
    spec_run (period_text key) t0 (abs_conf img key (step P img c))"
  using abs_step [OF assms(1), of c P] assms wf_step [of img key c P]
  by (auto intro: spec_run.intros)

lemma run_simulates:
  assumes "image_ok img key" and "run P img (Enter Banner, s) c"
  shows "wf_conf img key c \<and>
    spec_run (period_text key) \<lparr>emitted = tx_bytes (trace (mach s)), cursor = 0\<rparr>
      (abs_conf img key c)"
  using assms(2)
proof (rule run_invariant)
  show "wf_conf img key (Enter Banner, s) \<and>
      spec_run (period_text key) \<lparr>emitted = tx_bytes (trace (mach s)), cursor = 0\<rparr>
        (abs_conf img key (Enter Banner, s))"
    by (simp add: abs_conf_def spec_run.intros)
qed (rule refines_step [OF assms(1)])

text \<open>The closed form of the output follows from the one of the automaton.\<close>

lemma run_shown:
  assumes "image_ok img key" and "run P img (Enter Banner, s) c"
  shows "\<exists>n. tx_bytes (trace (mach (snd c))) =
    tx_bytes (trace (mach s)) @ concat (replicate n (period_text key)) @
      take (cursor_of img key (fst c)) (period_text key)"
  using spec_run_shown [of "period_text key" "tx_bytes (trace (mach s))" "abs_conf img key c"]
    run_simulates [OF assms]
  by (simp add: abs_conf_def)

section \<open>Getting back to the head of the loop\<close>

lemma responsive_step:
  assumes "responsive P I" and "I (dev (mach (snd c)))"
  shows "I (dev (mach (snd (step P img c))))"
proof (cases c)
  case (Pair ctl f)
  with assms show ?thesis
    by (cases ctl) (auto simp add: vload_def Let_def dest: responsiveD)
qed

lemma run_responsive:
  assumes "responsive P I" and "I (dev (mach (snd c0)))" and "run P img c0 c"
  shows "I (dev (mach (snd c)))"
  using assms(3) by (induction rule: run.induct) (auto intro: assms responsive_step)

lemma head_from_init: "\<exists>s'. run P img (Init, f) (Enter Banner, s')"
  using run_delay by blast

lemma head_from_test:
  assumes "responsive P I" and "image_ok img key"
  shows "I (dev (mach f)) \<Longrightarrow> cstring_at (rodata img) p rest \<Longrightarrow>
    \<exists>f'. run P img (Test k p, f) (leave k, f') \<and> I (dev (mach f'))"
proof -
  assume "I (dev (mach f))" and str: "cstring_at (rodata img) p rest"
  with assms(1) obtain m' where "puts P rest (mach f) = Some m'" and "I (dev m')"
    using puts_responsive by blast
  with run_puts [OF str, of P f m' k] show ?thesis
    by (intro exI [of _ "f\<lparr>mach := m'\<rparr>"]) simp
qed

lemma head_from_enter:
  assumes "responsive P I" and "image_ok img key" and "I (dev (mach f))"
  shows "\<exists>f'. run P img (Enter k, f) (leave k, f') \<and> I (dev (mach f'))"
proof -
  from head_from_test [OF assms(1,2,3) image_ok_site [OF assms(2)], of k k]
  obtain f' where "run P img (step P img (Enter k, f)) (leave k, f')" and "I (dev (mach f'))"
    by auto
  then show ?thesis
    by (blast intro: run_step_left)
qed

lemma head_via:
  assumes "\<exists>f'. run P img c (c', f') \<and> I (dev (mach f'))"
    and "\<And>f'. I (dev (mach f')) \<Longrightarrow> \<exists>s'. run P img (c', f') (Enter Banner, s')"
  shows "\<exists>s'. run P img c (Enter Banner, s')"
proof -
  from assms(1) obtain f' where 1: "run P img c (c', f')" and "I (dev (mach f'))"
    by blast
  from assms(2) [OF this(2)] obtain s' where "run P img (c', f') (Enter Banner, s')" ..
  from run_trans [OF this 1] show ?thesis ..
qed

lemma head_from_leave:
  assumes "responsive P I" and "image_ok img key"
  shows "I (dev (mach f)) \<Longrightarrow> \<exists>s'. run P img (leave k, f) (Enter Banner, s')"
proof -
  note enter = head_from_enter [OF assms]
  have n: "\<exists>s'. run P img (leave Newlines, f) (Enter Banner, s')" for f
    by (simp add: head_from_init)
  have k: "\<exists>s'. run P img (leave Key, f) (Enter Banner, s')" if "I (dev (mach f))" for f
    using enter [OF that, of Newlines] n by (simp only: leave.simps) (rule head_via)
  have l: "\<exists>s'. run P img (leave Label, f) (Enter Banner, s')" if "I (dev (mach f))" for f
    using enter [OF that, of Key] k by (simp only: leave.simps) (rule head_via)
  have b: "\<exists>s'. run P img (leave Banner, f) (Enter Banner, s')" if "I (dev (mach f))" for f
    using enter [OF that, of Label] l by (simp only: leave.simps) (rule head_via)
  assume "I (dev (mach f))"
  with n k l b show ?thesis
    by (cases k) blast+
qed

lemma head_from_string:
  assumes "responsive P I" and "image_ok img key"
    and "I (dev (mach f))" and "cstring_at (rodata img) p rest"
  shows "\<exists>s'. run P img (Test k p, f) (Enter Banner, s')"
  using head_from_test [OF assms, of k] head_from_leave [OF assms(1,2), of _ k]
  by (rule head_via)

lemma head_from_send:
  assumes "responsive P I" and "image_ok img key"
    and "I (dev (mach f))" and "cstring_at (rodata img) (p + 1) rest"
  shows "\<exists>s'. run P img (Send k p ch, f) (Enter Banner, s')"
proof -
  let ?f = "f\<lparr>mach := vstore P TX (char_to_u32 (char_signed P) ch) (mach f)\<rparr>"
  from assms(1,3) have "I (dev (mach ?f))"
    by (simp add: responsiveD(3))
  from head_from_string [OF assms(1,2) this assms(4), of k]
  obtain s' where "run P img (Test k (p + 1), ?f) (Enter Banner, s')" ..
  then have "run P img (step P img (Send k p ch, f)) (Enter Banner, s')"
    by simp
  then show ?thesis
    by (blast intro: run_step_left)
qed

lemma head_from_poll:
  assumes "responsive P I" and "image_ok img key"
    and "I (dev (mach f))" and "cstring_at (rodata img) (p + 1) rest"
  shows "\<exists>s'. run P img (Poll k p ch, f) (Enter Banner, s')"
proof -
  from putchar_responsive [OF assms(1,3)] obtain m1
    where m1: "putchar P ch (mach f) = Some m1" and "I (dev m1)"
    by blast
  from head_from_string [OF assms(1,2) _ assms(4), of "f\<lparr>mach := m1\<rparr>" k] this(2)
  obtain s' where "run P img (Test k (p + 1), f\<lparr>mach := m1\<rparr>) (Enter Banner, s')"
    by auto
  from run_trans [OF this run_putchar [OF m1]] show ?thesis ..
qed

text \<open>From every program point of a run the head of the loop is reached.\<close>

lemma head_from_any:
  assumes "responsive P I" and "I (dev (mach s))" and "image_ok img key"
    and "run P img (Enter Banner, s) c"
  shows "\<exists>s'. run P img c (Enter Banner, s')"
proof -
  obtain ctl f where c: "c = (ctl, f)"
    by (cases c)
  from run_responsive [OF assms(1) _ assms(4)] assms(2) c have I: "I (dev (mach f))"
    by simp
  from run_tracks [OF assms(3,4)] c obtain s0 where w: "within P img key s0 ctl f"
    by (auto simp add: tracks_def)
  show ?thesis
  proof (cases ctl)
    case (Enter k)
    with head_from_enter [OF assms(1,3) I, of k] head_from_leave [OF assms(1,3), of _ k] c
    show ?thesis
      by (simp only:) (rule head_via)
  next
    case (Test k p)
    with w head_from_string [OF assms(1,3) I] c show ?thesis
      by auto
  next
    case (Poll k p ch)
    with w obtain rest where "cstring_at (rodata img) (p + 1) rest"
      by auto
    from head_from_poll [OF assms(1,3) I this] show ?thesis
      unfolding c Poll .
  next
    case (Send k p ch)
    with w obtain rest where "cstring_at (rodata img) (p + 1) rest"
      by auto
    from head_from_send [OF assms(1,3) I this] show ?thesis
      unfolding c Send .
  next
    case Init
    with c show ?thesis
      by (simp add: head_from_init)
  next
    case Count
    with c run_count [of P img f] show ?thesis
      by blast
  qed
qed

section \<open>The machine and the functional model\<close>

text \<open>
  C25.  The machine and the functional model agree at the head of the main
  loop: the frames with which a run of the machine from the head passes the
  head again are exactly the frames the iterations of \<open>main_body\<close> produce.
\<close>

theorem run_head_iff_reach:
  assumes "image_ok img key"
  shows "run P img (Enter Banner, s) (Enter Banner, s') \<longleftrightarrow> reach P img s s'"
proof
  assume "run P img (Enter Banner, s) (Enter Banner, s')"
  with assms have "tracks P img key s (Enter Banner, s')"
    by (rule run_tracks)
  then show "reach P img s s'"
    by (auto simp add: tracks_def)
next
  assume "reach P img s s'"
  with assms show "run P img (Enter Banner, s) (Enter Banner, s')"
    by (rule reach_run)
qed

theorem run_head_iff_reach_witness:
  "image_ok (demo_image key_code_01) key_code_01 \<and>
   (\<exists>s'. main_body (uartlite False 3) (demo_image key_code_01) (boot uart_idle) = Some s' \<and>
      reach (uartlite False 3) (demo_image key_code_01) (boot uart_idle) s' \<and>
      run (uartlite False 3) (demo_image key_code_01)
        (Enter Banner, boot uart_idle) (Enter Banner, s'))"
proof -
  obtain s' where
    body: "main_body (uartlite False 3) (demo_image key_code_01) (boot uart_idle) = Some s'"
    using main_body_responsive [OF responsive_uartlite _ image_ok_demo_01, of "boot uart_idle" False 3]
    by auto
  then have "reach (uartlite False 3) (demo_image key_code_01) (boot uart_idle) s'"
    by (intro reach_iter [OF reach_start])
  with run_head_iff_reach [OF image_ok_demo_01, of "uartlite False 3" "boot uart_idle" s'] body
  show ?thesis
    by auto
qed

text \<open>
  C27.  At every program point of every run the bytes sent so far are the
  bytes sent before the run, then whole copies of the period text, then a
  part of the period text from its beginning: the output is at every moment
  a prefix of the periodic stream.
\<close>

theorem run_output:
  assumes "image_ok img key" and "run P img (Enter Banner, s) c"
  shows "\<exists>n pre suf. period_text key = pre @ suf \<and>
    tx_bytes (trace (mach (snd c))) =
      tx_bytes (trace (mach s)) @ concat (replicate n (period_text key)) @ pre"
proof -
  from run_shown [OF assms] obtain n where
    "tx_bytes (trace (mach (snd c))) =
      tx_bytes (trace (mach s)) @ concat (replicate n (period_text key)) @
        take (cursor_of img key (fst c)) (period_text key)" ..
  moreover have "period_text key =
      take (cursor_of img key (fst c)) (period_text key) @
      drop (cursor_of img key (fst c)) (period_text key)"
    by simp
  ultimately show ?thesis
    by blast
qed

theorem run_output_witness:
  "image_ok (demo_image key_code_01) key_code_01 \<and>
   run (uartlite False 3) (demo_image key_code_01) (Enter Banner, boot uart_idle)
     (Test Banner 0x1001,
      \<lparr>mach = \<lparr>dev = \<lparr>txq = [0x0A], wire = [], phase = 1\<rparr>,
              trace = [Load STAT 4, Store TX 0x0A]\<rparr>, var_i = 0\<rparr>) \<and>
   (\<exists>n pre suf. period_text key_code_01 = pre @ suf \<and>
      tx_bytes [Load STAT 4, Store TX 0x0A] = concat (replicate n (period_text key_code_01)) @ pre)"
  using run_output [OF image_ok_demo_01 run_demo_4] run_demo_4 by simp

text \<open>
  C28.  On a device that always clears the full bit eventually the program
  cannot get stuck anywhere: from every program point a run reaches, the run
  goes on to the head of the main loop, and the frame it arrives with is
  one that the iterations of \<open>main_body\<close> produce: the iteration under
  way is completed.
\<close>

theorem run_reaches_head:
  assumes "responsive P I" and "I (dev (mach s))" and "image_ok img key"
    and "run P img (Enter Banner, s) c"
  shows "\<exists>s'. run P img c (Enter Banner, s') \<and> reach P img s s' \<and> I (dev (mach s'))"
proof -
  from head_from_any [OF assms] obtain s' where on: "run P img c (Enter Banner, s')" ..
  then have whole: "run P img (Enter Banner, s) (Enter Banner, s')"
    using assms(4) by (rule run_trans)
  with assms(3) have "tracks P img key s (Enter Banner, s')"
    by (rule run_tracks)
  then have "reach P img s s'"
    by (auto simp add: tracks_def)
  moreover from run_responsive [OF assms(1) _ whole] assms(2) have "I (dev (mach s'))"
    by simp
  ultimately show ?thesis
    using on by blast
qed

theorem run_reaches_head_witness:
  "responsive (uartlite False 3) uart_ok \<and> uart_ok (dev (mach (boot uart_idle))) \<and>
   image_ok (demo_image key_code_01) key_code_01 \<and>
   run (uartlite False 3) (demo_image key_code_01) (Enter Banner, boot uart_idle)
     (Send Banner 0x1000 0x0A, \<lparr>mach = \<lparr>dev = uart_idle, trace = [Load STAT 4]\<rparr>, var_i = 0\<rparr>) \<and>
   (\<exists>s'. run (uartlite False 3) (demo_image key_code_01)
      (Send Banner 0x1000 0x0A, \<lparr>mach = \<lparr>dev = uart_idle, trace = [Load STAT 4]\<rparr>, var_i = 0\<rparr>)
      (Enter Banner, s') \<and>
      reach (uartlite False 3) (demo_image key_code_01) (boot uart_idle) s' \<and>
      uart_ok (dev (mach s')))"
proof -
  have ok: "uart_ok (dev (mach (boot uart_idle)))"
    by simp
  from run_reaches_head [OF responsive_uartlite ok image_ok_demo_01 run_demo_3] ok run_demo_3
  show ?thesis
    by (simp add: responsive_uartlite)
qed

text \<open>
  C18.  The program implements its specification: every run of the machine
  from the head of the main loop, seen through the bytes it has stored and
  the place in the period text its program point stands for, is a run of
  the specification automaton, which emits the bytes of the period text one
  after the other, pauses, and starts over.  This holds on any device and
  also for runs that are caught in a polling loop.
\<close>

theorem run_refines_spec:
  assumes "image_ok img key" and "run P img (Enter Banner, s) c"
  shows "spec_run (period_text key)
     \<lparr>emitted = tx_bytes (trace (mach s)), cursor = 0\<rparr> (abs_conf img key c)"
  using run_simulates [OF assms] ..

theorem run_refines_spec_witness:
  "image_ok (demo_image key_code_01) key_code_01 \<and>
   run (uartlite False 3) (demo_image key_code_01) (Enter Banner, boot uart_idle)
     (Test Banner 0x1001,
      \<lparr>mach = \<lparr>dev = \<lparr>txq = [0x0A], wire = [], phase = 1\<rparr>,
              trace = [Load STAT 4, Store TX 0x0A]\<rparr>, var_i = 0\<rparr>) \<and>
   spec_run (period_text key_code_01) \<lparr>emitted = [], cursor = 0\<rparr> \<lparr>emitted = [0x0A], cursor = 1\<rparr>"
  using run_refines_spec [OF image_ok_demo_01 run_demo_4] run_demo_4
  by (simp add: abs_conf_def str_off_def boot_def)

end
