(* ===== verification/Uart_Driver.thy ===== *)
theory Uart_Driver
  imports Simulation
begin

text \<open>
  The driver in front of the working transmitter of \<open>Devices\<close>: what a call
  of \<open>putchar\<close>, a string and an iteration of the main loop do to the
  FIFO and to the line.  The driver stores only after it has seen room, and
  only the driver can take room away, so a byte stored is a byte queued;
  the wait for room is at most one byte time; the pause of the main loop
  drains the FIFO if it is long enough; and transmitters that differ only in
  what is on the line make the driver do the same accesses.  The theorems
  that state these facts of the whole program are in the root theory.
\<close>

section \<open>The invariant of the driver and the transmitter\<close>

text \<open>
  What holds of the working transmitter at every program point of the step
  machine: its FIFO is within its depth, it has room whenever the program is
  about to store, and what it has accepted is what the program has stored.
  \<open>bs0\<close> and \<open>ws0\<close> are the bytes stored and the bytes accepted before
  the run.
\<close>

definition fifo_inv :: "u8 list \<Rightarrow> u8 list \<Rightarrow> uart config \<Rightarrow> bool" where
  "fifo_inv bs0 ws0 c \<longleftrightarrow>
     uart_ok (dev (mach (snd c))) \<and>
     (at_send (fst c) \<longrightarrow> length (txq (dev (mach (snd c)))) < fifo_depth) \<and>
     (\<exists>bs. tx_bytes (trace (mach (snd c))) = bs0 @ bs \<and> sent (dev (mach (snd c))) = ws0 @ bs)"

section \<open>The driver on the working transmitter\<close>

text \<open>
  The driver's discipline meets the transmitter's contract: a byte stored
  while the FIFO has room is queued, and the driver stores only after it has
  seen room, which only the driver itself can take away.
\<close>

lemma stat_at_uartlite:
  "stat_at (uartlite sg T) d n = uart_status ((uart_tick T ^^ n) d)"
proof -
  have "hw_load (uartlite sg T) STAT = uart_tick T"
    by (rule ext) simp
  then show ?thesis
    by (simp add: stat_at_def)
qed

lemma putchar_uartlite:
  assumes "putchar (uartlite sg T) ch m = Some m'"
  shows "sent (dev m') = sent (dev m) @ [ch]"
proof -
  from assms obtain n where n: "first_clear (uartlite sg T) (dev m) n"
    and m': "m' = vstore (uartlite sg T) TX (char_to_u32 sg ch) (polled (uartlite sg T) (Suc n) m)"
    by (auto elim: putchar_SomeE)
  have tick: "hw_load (uartlite sg T) STAT = uart_tick T"
    by (rule ext) simp
  from n have "length (txq ((uart_tick T ^^ n) (dev m))) < fifo_depth"
    by (simp add: first_clear_iff stat_at_uartlite)
  then have "length (txq ((uart_tick T ^^ Suc n) (dev m))) < fifo_depth"
    using length_txq_tick [of T "(uart_tick T ^^ n) (dev m)"] by simp
  then show ?thesis
    by (simp add: m' tick sent_push char_to_u32_def del: funpow.simps)
qed

lemma puts_uartlite:
  "puts (uartlite sg T) s m = Some m' \<Longrightarrow> sent (dev m') = sent (dev m) @ s"
proof (induction s arbitrary: m)
  case Nil
  then show ?case by simp
next
  case (Cons c cs)
  then obtain m1 where "putchar (uartlite sg T) c m = Some m1"
    and "puts (uartlite sg T) cs m1 = Some m'"
    by (auto simp add: bind_eq_Some_conv)
  then show ?case
    using Cons.IH [of m1] by (simp add: putchar_uartlite)
qed

lemma main_body_uartlite:
  assumes "image_ok img key" and "main_body (uartlite sg T) img s = Some s'"
  shows "sent (dev (mach s')) = sent (dev (mach s)) @ period_text key"
  using main_body_SomeD(1) [OF assms] by (auto simp add: puts_uartlite)

lemma main_iter_uartlite:
  assumes "image_ok img key"
  shows "main_iter (uartlite sg T) img n s = Some s' \<Longrightarrow>
    sent (dev (mach s')) = sent (dev (mach s)) @ concat (replicate n (period_text key))"
proof (induction n arbitrary: s)
  case 0
  then show ?case by simp
next
  case (Suc n)
  then obtain s1 where s1: "main_body (uartlite sg T) img s = Some s1"
    and "main_iter (uartlite sg T) img n s1 = Some s'"
    by (auto simp add: bind_eq_Some_conv)
  with Suc.IH [of s1] main_body_uartlite [OF assms s1] show ?case
    by simp
qed

lemma putchar_uartlite_polls:
  assumes "uart_ok (dev m)"
  shows "putchar (uartlite sg T) ch m =
    Some (vstore (uartlite sg T) TX (char_to_u32 sg ch)
      (polled (uartlite sg T) (Suc (polls_needed T (dev m))) m))"
  using poll_tx_first_clear [OF first_clear_uartlite [OF assms, of sg T]]
  by (simp add: putchar_def)

section \<open>The length of a period\<close>

text \<open>
  On the working transmitter a call of \<open>putchar\<close> makes between two
  accesses and \<open>T + 2\<close>, and the steps of an iteration are its accesses
  and a fixed number of others.
\<close>

lemma putchar_uartlite_trace:
  assumes "uart_ok (dev m)" and "putchar (uartlite sg T) ch m = Some m'"
  shows "length (trace m) + 2 \<le> length (trace m')"
    and "length (trace m') \<le> length (trace m) + (max 1 T + 2)"
  using assms(2) polls_needed_le [of T "dev m"]
  by (simp_all add: putchar_uartlite_polls [OF assms(1)] del: funpow.simps) auto

lemma puts_uartlite_trace:
  assumes "uart_ok (dev m)" and "puts (uartlite sg T) str m = Some m'"
  shows "length (trace m) + 2 * length str \<le> length (trace m') \<and>
    length (trace m') \<le> length (trace m) + (max 1 T + 2) * length str"
  using assms
proof (induction str arbitrary: m)
  case Nil
  then show ?case by simp
next
  case (Cons c cs)
  from Cons.prems obtain m1 where m1: "putchar (uartlite sg T) c m = Some m1"
    and rest: "puts (uartlite sg T) cs m1 = Some m'"
    by (auto simp add: bind_eq_Some_conv)
  from putchar_responsive [OF responsive_uartlite Cons.prems(1), of sg T c] m1
  have "uart_ok (dev m1)"
    by simp
  from Cons.IH [OF this rest] putchar_uartlite_trace [OF Cons.prems(1) m1] show ?case
    by (simp add: algebra_simps)
qed

section \<open>The pause drains the FIFO\<close>

text \<open>
  Two runs of the driver on transmitters with the same FIFO make the same
  accesses; and after the pause the FIFO is as after reset.
\<close>

lemma hw_load_uartlite: "hw_load (uartlite sg T) STAT = uart_tick T"
  by (rule ext) simp

lemma putchar_uartlite_same:
  assumes "uart_ok (dev m)" and "same_fifo (dev m) (dev m0)"
  shows "\<exists>es m' m0'. putchar (uartlite sg T) ch m = Some m' \<and>
    putchar (uartlite sg T) ch m0 = Some m0' \<and>
    trace m' = trace m @ es \<and> trace m0' = trace m0 @ es \<and>
    uart_ok (dev m') \<and> same_fifo (dev m') (dev m0')"
proof -
  from assms have ok0: "uart_ok (dev m0)"
    by (rule same_fifo_ok [rotated])
  have "stat_at (uartlite sg T) (dev m) k = stat_at (uartlite sg T) (dev m0) k" for k
    using assms(2) by (simp add: stat_at_uartlite same_fifo_status same_fifo_funpow)
  with assms show ?thesis
    by (simp add: putchar_uartlite_polls ok0 trace_polled hw_load_uartlite vstore_def
        same_fifo_polls_needed [OF assms(2)] same_fifo_tick same_fifo_push same_fifo_funpow
        del: funpow.simps upt_Suc)
qed

lemma puts_uartlite_same:
  assumes "uart_ok (dev m)" and "same_fifo (dev m) (dev m0)"
  shows "\<exists>es m' m0'. puts (uartlite sg T) s m = Some m' \<and>
    puts (uartlite sg T) s m0 = Some m0' \<and>
    trace m' = trace m @ es \<and> trace m0' = trace m0 @ es \<and>
    uart_ok (dev m') \<and> same_fifo (dev m') (dev m0')"
  using assms
proof (induction s arbitrary: m m0)
  case Nil
  then show ?case by simp
next
  case (Cons c cs)
  from putchar_uartlite_same [OF Cons.prems, of sg T c] obtain es m1 m01
    where 1: "putchar (uartlite sg T) c m = Some m1" "putchar (uartlite sg T) c m0 = Some m01"
      "trace m1 = trace m @ es" "trace m01 = trace m0 @ es"
      and ok: "uart_ok (dev m1)" "same_fifo (dev m1) (dev m01)"
    by blast
  from Cons.IH [OF ok] obtain es' m' m0'
    where "puts (uartlite sg T) cs m1 = Some m'" "puts (uartlite sg T) cs m01 = Some m0'"
      "trace m' = trace m1 @ es'" "trace m0' = trace m01 @ es'"
      "uart_ok (dev m')" "same_fifo (dev m') (dev m0')"
    by blast
  with 1 show ?case
    by simp
qed

lemma main_body_drains:
  assumes "image_ok img key" and "fifo_depth * max 1 T \<le> delay_ticks 0"
    and "uart_ok (dev (mach s))" and "main_body (uartlite sg T) img s = Some s'"
  shows "same_fifo (dev (mach s')) uart_idle"
proof -
  from main_body_SomeD(1) [OF assms(1,4)] obtain m
    where m: "puts (uartlite sg T) (period_text key) (mach s) = Some m"
      and s': "mach s' = idle (uartlite sg T) (Suc 999999) m"
    by auto
  from responsive_uartlite assms(3) m have "uart_ok (dev m)"
    by (rule puts_keeps)
  then have "length (txq (dev m)) * max 1 T \<le> fifo_depth * max 1 T"
    unfolding uart_ok_def by (rule mult_le_mono1)
  also from assms(2) have "\<dots> \<le> Suc 999999"
    by simp
  finally show ?thesis
    unfolding s' idle_simps uartlite_sel by (rule drained_idle)
qed

lemma main_iter_drains:
  assumes "image_ok img key" and "fifo_depth * max 1 T \<le> delay_ticks 0"
    and "uart_ok (dev (mach s))" and "main_iter (uartlite sg T) img (Suc n) s = Some s'"
  shows "same_fifo (dev (mach s')) uart_idle"
proof -
  from assms(4) obtain s1 where s1: "main_iter (uartlite sg T) img n s = Some s1"
    and body: "main_body (uartlite sg T) img s1 = Some s'"
    by (auto simp add: main_iter_Suc_right bind_eq_Some_conv simp del: main_iter.simps)
  have "uart_ok (dev (mach s1))"
    using responsive_uartlite assms(1,3) s1 by (rule main_iter_keeps)
  with assms(1,2) show ?thesis
    using body by (rule main_body_drains)
qed

section \<open>The transmitter at every program point\<close>

lemma fifo_inv_step:
  assumes "fifo_inv bs0 ws0 c"
  shows "fifo_inv bs0 ws0 (step (uartlite sg T) img c)"
proof (cases c)
  case (Pair ctl f)
  show ?thesis
  proof (cases ctl)
    case (Poll k p ch)
    with Pair assms length_txq_tick [of T "dev (mach f)"] show ?thesis
      by (auto simp add: fifo_inv_def vload_def Let_def)
  next
    case (Send k p ch)
    with Pair assms show ?thesis
      by (auto simp add: fifo_inv_def vstore_def sent_push tx_bytes_def char_to_u32_def)
  qed (use Pair assms in \<open>auto simp add: fifo_inv_def idle_def\<close>)
qed

end
