(* ===== verification/Spec2Isabelle.thy ===== *)
theory Spec2Isabelle
  imports Uart_Driver
begin

text \<open>
  A verification development for the pico-isp test firmware, the single file
  \<open>src/firmware/main.c\<close>: a polling driver for a UART-Lite transmitter and
  a main loop that prints a banner and a key code forever.

  \<^bold>\<open>The program and the theories.\<close>
  \<^item> \<open>Pico_Prelude\<close>: the integer types (\<open>u8\<close> for \<open>char\<close>, \<open>u32\<close> for
    \<open>uint32_t\<close> and for addresses, \<open>s32\<close> for \<open>int\<close>, all words of
    HOL-Library.Word), the fact collections, and the lemmas on casts,
    masks, signed increment and address arithmetic that the components share.
  \<^item> \<open>UartLite\<close>: the register block, lines 3 to 12.  The struct is the
    record \<open>XUartLite\<close>; its members are the datatype \<open>reg\<close> with
    their offsets \<open>reg_offset\<close>, their addresses \<open>reg_addr\<close> and the
    read \<open>reg_val\<close> of a member; \<open>XUART0\<close> and \<open>XUART_STAT_TX_FULL\<close>
    are the two macros; \<open>tx_full\<close> is the loop condition of \<open>putchar\<close>.
    Lemmas: the four addresses, and the mask as bit 3.
  \<^item> \<open>Mmio\<close>: what \<open>volatile\<close> means.  A \<open>platform\<close> is what the source
    leaves to its environment: the device behind the registers, as functions
    over a device state \<open>'d\<close>, and whether plain \<open>char\<close> is signed.  A
    \<open>machine\<close> is a device state and the \<open>trace\<close> of volatile accesses made so
    far; \<open>vload\<close> and \<open>vstore\<close> are the two accesses of lines 16 and 17,
    and \<open>idle\<close> is time that passes without an access.
    The observers \<open>tx_words\<close>, \<open>tx_bytes\<close>, \<open>tx_credit\<close> and
    \<open>disciplined\<close> read a trace; \<open>polled_before\<close> says the same discipline
    with positions in the trace, and \<open>driver_events\<close> that a trace holds the
    driver's two kinds of access only; \<open>stat_at\<close>, \<open>polled\<close> and
    \<open>first_clear\<close> describe consecutive polls of the status register;
    \<open>responsive\<close> is the contract a device must meet for the driver to make
    progress, and \<open>jammed\<close> the hardware fault under which it makes none.
    \<open>on_bus\<close> turns an access to a member into the transaction the device
    sees, a \<open>bus\<close> read or write at the address \<open>reg_addr\<close> gives the
    member, and \<open>handshake\<close> is the protocol of the register map in
    numbers; \<open>low_byte_only\<close> says that a transmitter takes a byte.  The
    record \<open>machine\<close> and the observers are vocabulary of the model, not
    translations of code.
  \<^item> \<open>Devices\<close>: two devices written from the description of the
    peripheral, a transmitter that is stuck full (\<open>stuck_uart\<close>) and a
    working one with a FIFO of sixteen bytes (\<open>uartlite\<close>).  The
    depth, the transmitter's one step per access or idle tick and the
    loss of a byte written to a full FIFO are assumptions on the hardware
    that neither the source nor its specification fixes.  The devices
    instantiate the platform in the witnesses and discharge \<open>responsive\<close>;
    \<open>polls_needed\<close> and \<open>ticks_left\<close> are the exact times the working
    transmitter needs to make room and to drain, and \<open>same_fifo\<close> relates
    transmitters that differ only in what is already on the line.
  \<^item> \<open>Putchar\<close>: \<open>putchar\<close>, lines 14 to 18: the conversion
    \<open>char_to_u32\<close>, the polling loop \<open>poll_tx\<close> and the store.  Lemmas:
    the exact result of a call (C1), when it returns (C2) and when it hangs
    (C5), one store per call (C4) under the polling discipline (C3),
    and what the conversion does to a byte (C24).
  \<^item> \<open>CString\<close>: a flat byte \<open>memory\<close>, the predicate \<open>cstring_at\<close> that a
    pointer points at a null-terminated string, the bytes \<open>c_literal\<close> of a
    literal, and \<open>place\<close>, which stores a string.
  \<^item> \<open>Print\<close>: \<open>print\<close>, lines 20 to 25, as the pointer walk of the
    source, and its specification \<open>puts\<close> over a list of bytes.  Lemmas:
    \<open>puts\<close> is not in the source: it says what a call of \<open>print\<close>
    is for.  \<open>print\<close> implements \<open>puts\<close> (C8), sends the string and only the
    string (C9), returns on a responsive device (C10), never returns
    without a terminator (C11), and sends back what \<open>place\<close> stored, also
    across the end of the address space (C34).
  \<^item> \<open>Delay\<close>: the delay loop of line 38 as the function \<open>delay_loop\<close>
    on the 32-bit counter, the number \<open>delay_ticks\<close> of times its body runs,
    and the whole statement \<open>delay\<close>.  Lemmas: the loop terminates with the
    counter at one million (C12) after exactly one million increments, none
    of which overflows (C13).
  \<^item> \<open>Main_Loop\<close>: the strings \<open>banner\<close>, \<open>label_text\<close>, \<open>newlines\<close> and
    \<open>key_code_01\<close>; the program \<open>image\<close> that holds them, well-formed
    when \<open>image_ok\<close>; the \<open>frame\<close> of \<open>main\<close>; \<open>main_body\<close> for lines 34
    to 38, \<open>main\<close> for the function, \<open>main_iter\<close> for its first \<open>n\<close>
    iterations and \<open>reach\<close> for its loop heads.  Lemmas: the text of one
    iteration (C14, C17) and of \<open>n\<close> (C15), progress (C19) and the hang
    (C21).
  \<^item> \<open>Steps\<close>: the whole program, lines 14 to 39, as a machine that
    makes one step at a time.  The program points are the datatype \<open>ctl\<close>
    (before each of the four calls, a \<open>site\<close>; in \<open>print\<close> at the test
    of \<open>*str\<close>; in \<open>putchar\<close> at the load and at the store; at \<open>i = 0\<close>
    and at the test of \<open>i\<close>), a configuration is a program point and a
    frame, \<open>step\<close> is the step function, \<open>run\<close> the configurations a
    run passes and \<open>wf_conf\<close> the well-formed configurations.  Lemmas, all
    of them about every program point of every run and on any device: the
    polling discipline holds (C26, and C37 with positions in the trace); the
    configurations are well formed, so \<open>print\<close> reads inside its string
    and the counter stays in range (C36); only the status register is loaded
    and only the transmit register is stored to (C38); on a transmitter
    that stays full the machine polls forever and stores nothing (C30), and
    from any program point at which the transmitter jams nothing more is
    sent (C7); the pause between two periods is exactly 1000002 steps
    without an access to the transmitter (C31).  On the bus every access
    is a read of \<open>0x40000008\<close> or a write of \<open>0x40000004\<close>, and each
    write comes directly after a read that found bit 3 clear (C23).  Two
    theorems compare two runs: the value that \<open>i\<close> happens to hold before
    it is assigned has no effect (C33), and neither has the signedness of
    \<open>char\<close> on what a transmitter that takes bytes receives (C6).
  \<^item> \<open>Output_Spec\<close>: the state machine of the specification, not of the
    code: \<open>spec_state\<close> is what a terminal has seen and a cursor into the
    period text, \<open>spec_next\<close> emits the byte at the cursor or pauses and
    starts over, \<open>spec_run\<close> are its runs.
  \<^item> \<open>Simulation\<close>: the predicates \<open>within\<close> and \<open>tracks\<close>, the
    simulation invariant that ties a configuration of the machine to the
    functional model, and the abstraction \<open>abs_conf\<close> to the specification
    automaton.  Lemmas: the steps each call takes, counted; the machine and
    the functional model agree at the loop head (C25); every run of the
    machine is a run of the specification automaton, with stutter steps
    (C18), so that at every program point the output is a prefix of the
    periodic stream (C27); on a responsive device every program point leads
    back to the loop head (C28).
  \<^item> \<open>Uart_Driver\<close>: the lemmas on the driver in front of the working
    transmitter: the invariant \<open>fifo_inv\<close> of the two together, what a
    call, a string and an iteration do to the FIFO and to the line, how many
    accesses they make, and that the pause drains the FIFO.
  \<^item> This theory: the theorems on the whole program on the working
    transmitter.  No byte is lost, after whole iterations (C20) and end to
    end at every program point (C16); the wait for room in the FIFO is
    bounded (C29) and with it the steps of a whole period (C22); and when
    the pause is long enough for the FIFO to drain, the serial line carries
    the periodic stream (C35) and every period makes the same accesses as
    the first one after reset (C32).

  \<^bold>\<open>How the parts interact.\<close>  \<open>main_body\<close> calls \<open>print\<close> four times
  and then \<open>delay\<close>; \<open>print\<close> calls \<open>putchar\<close> for each byte; \<open>putchar\<close>
  calls \<open>vload\<close> until \<open>tx_full\<close> fails and then \<open>vstore\<close>.  Every
  client is stated over an arbitrary platform, and the device theorems
  discharge what the clients assume; the machine is passed through each call
  and returned updated.  The program is modelled twice, as functions on
  whole calls (\<open>putchar\<close>, \<open>print\<close>, \<open>main_body\<close>) and as the step
  function of \<open>Steps\<close>; the first is the specification of the second, and
  C25 is the refinement between them.  Above both stands the automaton of
  \<open>Output_Spec\<close>, which the step machine refines (C18).

  \<^bold>\<open>Loops and termination.\<close>  The polling loop, the string loop and
  \<open>main\<close> may run forever, so they are partial functions into \<open>option\<close>,
  where \<open>None\<close> is the run that does not return; each comes with a theorem
  that says exactly when it returns (C2, C8 with C10).  \<open>main\<close> has no
  returning branch, so its value is \<open>None\<close> by construction (lemma
  \<open>main_never_returns\<close>); that the program goes on working instead of
  hanging is what C19 and C28 state, and C5, C21, C30 and C7 say when it
  hangs.  No fuel is used.  The delay loop is a total function with a
  measure.  A bounded observer is modelled by the iteration count of
  \<open>main_iter\<close>, which may be any natural number.

  \<^bold>\<open>Time.\<close>  The model counts steps, not cycles.  A device makes one step
  of its own with every access (\<open>hw_load\<close>, \<open>hw_store\<close>) and one with
  every increment of the delay loop (\<open>hw_idle\<close>), so the pause is one
  million device steps long; the tests of \<open>*str\<close> and the calls take no
  device time.  This under-approximates the time the device has, which is
  the safe side for C35 and C32; C20, C26 and C16 do not depend on it.

  \<^bold>\<open>Widths.\<close>  Registers and addresses are 32 bits and wrap; \<open>char\<close> is
  8 bits, of either signedness; \<open>int\<close> is taken to be 32 bits, two's
  complement, which the bound \<open>1000000\<close> presupposes.

  \<^bold>\<open>Memory.\<close>  The strings are read from a flat memory of bytes that is
  apart from the register block: a read of \<open>*str\<close> is a read of the image
  and never an access to the device, also for a pointer whose value lies
  in the sixteen bytes from \<open>0x40000000\<close>.  For the images that are
  \<open>image_ok\<close> this loses nothing, since \<open>print\<close> then reads the bytes
  of its string only (C36).  The registers are named by their members in
  the accesses of the model; \<open>on_bus\<close> gives each access its address,
  and C23 is stated in addresses.

  \<^bold>\<open>Not modelled.\<close>  Everything the source file contains is modelled;
  what is left out is outside it.  Time in seconds and the baud rate: the
  source fixes a count of iterations, not a clock, so the lengths of the
  pause and of a period are stated in steps (C31, C22).  The receiver and
  the control register of the peripheral: the program never touches them
  (C38) and the specification gives their names only, so the device models
  have a transmitter and a status register and nothing else.  The accesses
  to the volatile local \<open>i\<close>: they are steps of the machine, but no device
  can see them and they are not put on the trace, which holds the accesses
  to the register block; the frame keeps the value of \<open>i\<close>.  The include
  of line 1, which only names the type \<open>uint32_t\<close>.  Reset, the stack,
  the C start-up code and the linker's placement of the strings, which
  belong to the toolchain and are not in the repository: an image is any
  memory that holds the four strings (\<open>image_ok\<close>), and the frame at
  entry is arbitrary.
\<close>

section \<open>No byte is lost\<close>

text \<open>
  C20.  On the working transmitter no byte is lost or reordered: after \<open>n\<close>
  iterations of the main loop the bytes the transmitter has accepted, those
  already on the line followed by those still in its FIFO, are the bytes it
  had accepted before followed by \<open>n\<close> copies of the period text.
\<close>

theorem uartlite_delivers:
  assumes "image_ok img key" and "main_iter (uartlite sg T) img n s = Some s'"
  shows "wire (dev (mach s')) @ txq (dev (mach s')) =
     wire (dev (mach s)) @ txq (dev (mach s)) @ concat (replicate n (period_text key))"
  using main_iter_uartlite [OF assms] by (simp add: sent_def)

theorem uartlite_delivers_witness:
  "image_ok (demo_image key_code_01) key_code_01 \<and>
   (\<exists>s'. main_iter (uartlite False 3) (demo_image key_code_01) 2 (boot uart_idle) = Some s' \<and>
      wire (dev (mach s')) @ txq (dev (mach s')) =
        period_text key_code_01 @ period_text key_code_01)"
proof -
  obtain s' where run:
    "main_iter (uartlite False 3) (demo_image key_code_01) 2 (boot uart_idle) = Some s'"
    using main_iter_responsive [OF responsive_uartlite image_ok_demo_01, of "boot uart_idle" False 3 2]
    by auto
  from uartlite_delivers [OF image_ok_demo_01 run] run show ?thesis
    by (auto simp add: numeral_2_eq_2 uart_idle_def)
qed

text \<open>
  C16.  End to end, at every program point: on the working transmitter, in
  every configuration of every run of the step machine, also in the middle
  of a call, the bytes the transmitter has accepted since the start of the
  run, those on the line followed by those in its FIFO, are the bytes the
  program has stored to the transmit register since then, in order, and
  these are whole copies of the period text followed by a part of it from
  its beginning.  No byte is lost, doubled or out of place.  The FIFO never
  holds more than its sixteen bytes, and whenever the program is about to
  store there is room: the driver never stores into a full FIFO.
\<close>

theorem uartlite_run_delivers:
  assumes "image_ok img key" and "run (uartlite sg T) img (Enter Banner, s) c"
    and "uart_ok (dev (mach s))"
  shows "(\<exists>n pre suf. period_text key = pre @ suf \<and>
       tx_bytes (trace (mach (snd c))) =
         tx_bytes (trace (mach s)) @ concat (replicate n (period_text key)) @ pre \<and>
       wire (dev (mach (snd c))) @ txq (dev (mach (snd c))) =
         wire (dev (mach s)) @ txq (dev (mach s)) @ concat (replicate n (period_text key)) @ pre) \<and>
     length (txq (dev (mach (snd c)))) \<le> fifo_depth \<and>
     (at_send (fst c) \<longrightarrow> length (txq (dev (mach (snd c)))) < fifo_depth)"
proof -
  let ?per = "period_text key" and ?k = "cursor_of img key (fst c)"
  have inv: "fifo_inv (tx_bytes (trace (mach s))) (sent (dev (mach s))) c"
    using assms(2) by (rule run_invariant) (simp_all add: fifo_inv_step, simp add: fifo_inv_def assms(3))
  from run_shown [OF assms(1,2)] obtain n where
    n: "tx_bytes (trace (mach (snd c))) =
      tx_bytes (trace (mach s)) @ concat (replicate n ?per) @ take ?k ?per" ..
  with inv have "sent (dev (mach (snd c))) =
      sent (dev (mach s)) @ concat (replicate n ?per) @ take ?k ?per"
    by (auto simp add: fifo_inv_def)
  with n have "?per = take ?k ?per @ drop ?k ?per \<and>
      tx_bytes (trace (mach (snd c))) =
        tx_bytes (trace (mach s)) @ concat (replicate n ?per) @ take ?k ?per \<and>
      wire (dev (mach (snd c))) @ txq (dev (mach (snd c))) =
        wire (dev (mach s)) @ txq (dev (mach s)) @ concat (replicate n ?per) @ take ?k ?per"
    by (simp add: sent_def)
  then have "\<exists>n pre suf. ?per = pre @ suf \<and>
      tx_bytes (trace (mach (snd c))) = tx_bytes (trace (mach s)) @ concat (replicate n ?per) @ pre \<and>
      wire (dev (mach (snd c))) @ txq (dev (mach (snd c))) =
        wire (dev (mach s)) @ txq (dev (mach s)) @ concat (replicate n ?per) @ pre"
    by blast
  with inv show ?thesis
    by (simp add: fifo_inv_def uart_ok_def)
qed

theorem uartlite_run_delivers_witness:
  "image_ok (demo_image key_code_01) key_code_01 \<and>
   run (uartlite False 3) (demo_image key_code_01) (Enter Banner, boot uart_idle)
     (Test Banner 0x1001,
      \<lparr>mach = \<lparr>dev = \<lparr>txq = [0x0A], wire = [], phase = 1\<rparr>,
              trace = [Load STAT 4, Store TX 0x0A]\<rparr>, var_i = 0\<rparr>) \<and>
   uart_ok (dev (mach (boot uart_idle))) \<and>
   (\<exists>n pre suf. period_text key_code_01 = pre @ suf \<and>
      [] @ [0x0A] = concat (replicate n (period_text key_code_01)) @ pre) \<and>
   length [0x0A :: u8] \<le> fifo_depth"
  using uartlite_run_delivers [OF image_ok_demo_01 run_demo_4] run_demo_4 by auto

section \<open>The wait and the length of a period\<close>

text \<open>
  C29.  On the working transmitter the wait is bounded: \<open>putchar\<close> returns
  after at most \<open>T + 1\<close> loads of the status register (two when \<open>T\<close> is
  0) and one store, where \<open>T\<close> is the number of accesses the transmitter
  needs to shift out one byte; when the FIFO has room it returns after one
  load and one store.
\<close>

theorem uartlite_bounded_wait:
  assumes "uart_ok (dev m)"
  shows "\<exists>m'. putchar (uartlite sg T) ch m = Some m' \<and>
    length (trace m') \<le> length (trace m) + max 1 T + 2 \<and>
    (length (txq (dev m)) < fifo_depth \<longrightarrow> length (trace m') = length (trace m) + 2)"
  using polls_needed_le [of T "dev m"]
  by (simp add: putchar_uartlite_polls [OF assms])

theorem uartlite_bounded_wait_witness:
  "uart_ok (dev \<lparr>dev = full_uart, trace = []\<rparr>) \<and>
   (\<exists>m'. putchar (uartlite False 3) 0x41 \<lparr>dev = full_uart, trace = []\<rparr> = Some m' \<and>
      length (trace m') \<le> 5)"
  using uartlite_bounded_wait [of "\<lparr>dev = full_uart, trace = []\<rparr>" False 3 "0x41"]
  by auto

text \<open>
  C22.  The length of a period on the working transmitter: from any state
  of the transmitter the machine is back at the head of the main loop, with
  the frame that \<open>main_body\<close> computes, after a number of steps that lies
  between \<open>3 * L + 1000010\<close> and \<open>(T + 3) * L + 1000010\<close>, where
  \<open>L\<close> is the length of the period text and \<open>T\<close> the number of steps
  the transmitter needs to shift out one byte (at least one).  The iteration
  terminates, and its time is the time to emit the text plus the time of the
  delay loop.
\<close>

theorem uartlite_period_steps:
  assumes "image_ok img key" and "uart_ok (dev (mach s))"
  shows "\<exists>n s'. main_body (uartlite sg T) img s = Some s' \<and>
    (step (uartlite sg T) img ^^ n) (Enter Banner, s) = (Enter Banner, s') \<and>
    3 * length (period_text key) + 1000010 \<le> n \<and>
    n \<le> (max 1 T + 3) * length (period_text key) + 1000010"
proof -
  from main_body_responsive [OF responsive_uartlite assms(2,1)] obtain s'
    where body: "main_body (uartlite sg T) img s = Some s'"
    by blast
  from main_body_SomeD(1) [OF assms(1) body] obtain m
    where m: "puts (uartlite sg T) (period_text key) (mach s) = Some m"
      and "mach s' = idle (uartlite sg T) 1000000 m"
    by blast
  then have tr: "trace (mach s') = trace m"
    by simp
  from steps_main_body [OF assms(1) body] obtain a
    where a: "length (trace (mach s')) = length (trace (mach s)) + a"
      and run: "(step (uartlite sg T) img ^^ (a + length (period_text key) + 1000010)) (Enter Banner, s) =
        (Enter Banner, s')"
    by blast
  from puts_uartlite_trace [OF assms(2) m] a tr
  have "2 * length (period_text key) \<le> a" and "a \<le> (max 1 T + 2) * length (period_text key)"
    by simp_all
  then have "3 * length (period_text key) + 1000010 \<le> a + length (period_text key) + 1000010"
    and "a + length (period_text key) + 1000010 \<le> (max 1 T + 3) * length (period_text key) + 1000010"
    by (simp_all add: algebra_simps)
  with body run show ?thesis
    by blast
qed

theorem uartlite_period_steps_witness:
  "image_ok (demo_image key_code_01) key_code_01 \<and> uart_ok (dev (mach (boot uart_idle))) \<and>
   (\<exists>n s'. main_body (uartlite False 3) (demo_image key_code_01) (boot uart_idle) = Some s' \<and>
      (step (uartlite False 3) (demo_image key_code_01) ^^ n) (Enter Banner, boot uart_idle) =
        (Enter Banner, s') \<and>
      1000130 \<le> n \<and> n \<le> 1000250)"
proof -
  have ok: "uart_ok (dev (mach (boot uart_idle)))"
    by simp
  have "length (period_text key_code_01) = 40"
    by (simp add: period_text_01)
  with uartlite_period_steps [OF image_ok_demo_01 ok, of False 3] ok show ?thesis
    by simp
qed

section \<open>The serial line\<close>

text \<open>
  C35.  On the serial line the output is periodic.  When the pause is long
  enough for the transmitter to shift out a full FIFO, every iteration of
  the main loop ends with the FIFO empty and with everything the program
  has stored on the line, in order: the bytes that were there at the start
  and one copy of the period text for each iteration.
\<close>

theorem uartlite_wire:
  assumes "image_ok img key" and "fifo_depth * max 1 T \<le> delay_ticks 0"
    and "uart_ok (dev (mach s))" and "main_iter (uartlite sg T) img (Suc n) s = Some s'"
  shows "txq (dev (mach s')) = [] \<and>
    wire (dev (mach s')) =
      wire (dev (mach s)) @ txq (dev (mach s)) @ concat (replicate (Suc n) (period_text key))"
  using main_iter_drains [OF assms] main_iter_uartlite [OF assms(1,4)]
  by (simp add: same_fifo_def sent_def uart_idle_def)

theorem uartlite_wire_witness:
  "image_ok (demo_image key_code_01) key_code_01 \<and> fifo_depth * max 1 3 \<le> delay_ticks 0 \<and>
   uart_ok (dev (mach (boot full_uart))) \<and>
   (\<exists>s'. main_iter (uartlite False 3) (demo_image key_code_01) 2 (boot full_uart) = Some s' \<and>
      txq (dev (mach s')) = [] \<and>
      wire (dev (mach s')) = replicate 16 0x2E @ period_text key_code_01 @ period_text key_code_01)"
proof -
  have small: "fifo_depth * max 1 3 \<le> delay_ticks 0"
    by (simp add: fifo_depth_def)
  have ok: "uart_ok (dev (mach (boot full_uart)))"
    by simp
  obtain s' where run:
    "main_iter (uartlite False 3) (demo_image key_code_01) (Suc 1) (boot full_uart) = Some s'"
    using main_iter_responsive [OF responsive_uartlite image_ok_demo_01 ok, of False 3 "Suc 1"]
    by blast
  from uartlite_wire [OF image_ok_demo_01 small ok run] run small show ?thesis
    by (auto simp add: numeral_2_eq_2 full_uart_def uart_ok_def fifo_depth_def)
qed

text \<open>
  C32.  The program is periodic in time as well: when the pause is long
  enough for the transmitter to shift out a full FIFO, every iteration of
  the main loop after the first makes exactly the accesses, polls of the
  status register included, that the first iteration after reset makes on
  an idle transmitter.  Every period therefore takes the same number of
  steps.
\<close>

theorem uartlite_periodic:
  assumes "image_ok img key" and "fifo_depth * max 1 T \<le> delay_ticks 0"
    and "uart_ok (dev (mach s))" and "main_iter (uartlite sg T) img (Suc n) s = Some s1"
  shows "\<exists>s2 s0. main_body (uartlite sg T) img s1 = Some s2 \<and>
    main_body (uartlite sg T) img (boot uart_idle) = Some s0 \<and>
    trace (mach s2) = trace (mach s1) @ trace (mach s0)"
proof -
  have "uart_ok (dev (mach s1))"
    using responsive_uartlite assms(1,3,4) by (rule main_iter_keeps)
  moreover from main_iter_drains [OF assms]
  have "same_fifo (dev (mach s1)) (dev (mach (boot uart_idle :: uart frame)))"
    by (simp add: boot_def)
  ultimately obtain es m' m0'
    where "puts (uartlite sg T) (period_text key) (mach s1) = Some m'"
      "puts (uartlite sg T) (period_text key) (mach (boot uart_idle)) = Some m0'"
      "trace m' = trace (mach s1) @ es" "trace m0' = trace (mach (boot uart_idle :: uart frame)) @ es"
    using puts_uartlite_same by blast
  then show ?thesis
    by (simp add: main_body_puts [OF assms(1)] boot_def)
qed

theorem uartlite_periodic_witness:
  "image_ok (demo_image key_code_01) key_code_01 \<and> fifo_depth * max 1 3 \<le> delay_ticks 0 \<and>
   uart_ok (dev (mach (boot full_uart))) \<and>
   (\<exists>s1 s2 s0. main_iter (uartlite False 3) (demo_image key_code_01) (Suc 0) (boot full_uart) = Some s1 \<and>
      main_body (uartlite False 3) (demo_image key_code_01) s1 = Some s2 \<and>
      main_body (uartlite False 3) (demo_image key_code_01) (boot uart_idle) = Some s0 \<and>
      trace (mach s2) = trace (mach s1) @ trace (mach s0))"
proof -
  have small: "fifo_depth * max 1 3 \<le> delay_ticks 0"
    by (simp add: fifo_depth_def)
  have ok: "uart_ok (dev (mach (boot full_uart)))"
    by simp
  obtain s1 where run:
    "main_iter (uartlite False 3) (demo_image key_code_01) (Suc 0) (boot full_uart) = Some s1"
    using main_iter_responsive [OF responsive_uartlite image_ok_demo_01 ok, of False 3 "Suc 0"]
    by blast
  from uartlite_periodic [OF image_ok_demo_01 small ok run] run small show ?thesis
    by (simp del: main_iter.simps)
qed

end
